(* ===== verification/Checksum.thy ===== *)
theory Checksum
  imports Prelude "HOL-Library.Word"
begin

text \<open>
  The checksum routines of the generator: the CRC8 table it computes over Python's
  unbounded integers, and the four C functions \<open>checksum_update\<close> it emits, on
  \<open>uint8_t\<close>. The table is proved to be the bitwise division by the polynomial 0x31 on
  8-bit words, and two locales state what an update function must satisfy for a frame
  checksum to detect corruption.
\<close>

unbundle bit_operations_syntax

type_synonym u8 = "8 word"

section \<open>The table\<close>

definition crc8_shift :: "int \<Rightarrow> int" where
  "crc8_shift crc = (if crc AND 0x80 \<noteq> 0 then push_bit 1 crc XOR 0x31 else push_bit 1 crc)"

definition crc8_entry :: "int \<Rightarrow> int" where
  "crc8_entry i = (crc8_shift ^^ 8) i AND 0xFF"

definition generate_crc8_table :: "int list" where
  "generate_crc8_table = map crc8_entry [0..255]"

text \<open>The same division with an 8-bit register, as a hardware shift register does it.\<close>

definition crc8_shift_word :: "u8 \<Rightarrow> u8" where
  "crc8_shift_word r = (if bit r 7 then push_bit 1 r XOR 0x31 else push_bit 1 r)"

definition crc8_word :: "u8 \<Rightarrow> u8" where
  "crc8_word r = (crc8_shift_word ^^ 8) r"

lemma bit_0x80: "bit (0x80 :: int) n \<longleftrightarrow> n = 7"
  by (auto simp: bit_numeral_rec bit_1_iff split: nat.splits)

lemma and_0x80_bit: "(crc AND 0x80 \<noteq> 0) \<longleftrightarrow> bit (crc :: int) 7"
  unfolding bit_eq_iff [of "crc AND 0x80"] bit_and_iff bit_0x80 by auto

lemma word_of_int_xor: "(word_of_int (a XOR b) :: u8) = word_of_int a XOR word_of_int b"
  by (rule bit_word_eqI) (simp add: bit_word_of_int_iff bit_xor_iff)

lemma crc8_shift_word_of_int:
  "crc8_shift_word (word_of_int c) = word_of_int (crc8_shift c)"
proof -
  have "bit (word_of_int c :: u8) 7 = bit c 7" by (simp add: bit_word_of_int_iff)
  moreover have "push_bit 1 (word_of_int c :: u8) = word_of_int (push_bit 1 c)"
    by (simp add: push_bit_eq_mult)
  ultimately show ?thesis
    by (simp add: crc8_shift_word_def crc8_shift_def and_0x80_bit word_of_int_xor)
qed

lemma crc8_entry_word: "crc8_entry (uint r) = uint (crc8_word r)"
proof -
  have "(crc8_shift_word ^^ n) (word_of_int c) = word_of_int ((crc8_shift ^^ n) c)" for n c
    by (induction n) (simp_all add: crc8_shift_word_of_int)
  from this [of 8 "uint r"]
  have "crc8_word r = word_of_int ((crc8_shift ^^ 8) (uint r))"
    by (simp add: crc8_word_def)
  moreover have "x AND 0xFF = uint (word_of_int x :: u8)" for x :: int
    using take_bit_eq_mask [of 8 x] by (simp add: uint_word_of_int take_bit_eq_mod mask_eq_exp_minus_1)
  ultimately show ?thesis by (simp add: crc8_entry_def)
qed

lemma length_crc8_table: "length generate_crc8_table = 256"
  by (simp add: generate_crc8_table_def)

lemma crc8_table_nth: "generate_crc8_table ! unat r = uint (crc8_word r)"
proof -
  have "uint r \<le> 255" using unsigned_less [of r, where ?'a = int] by simp
  then have "[0..255] ! unat r = uint r" and "unat r < length [0..255]"
    using nth_upto [of 0 "unat r" 255] unsigned_less [of r, where ?'a = nat] by simp_all
  then have "generate_crc8_table ! unat r = crc8_entry (uint r)"
    by (simp only: generate_crc8_table_def nth_map)
  then show ?thesis using crc8_entry_word [of r] by simp
qed

lemma crc8_table_range: "x \<in> set generate_crc8_table \<Longrightarrow> 0 \<le> x \<and> x < 256"
proof -
  assume "x \<in> set generate_crc8_table"
  then obtain i where i: "x = crc8_entry i" and "0 \<le> i" "i \<le> 255"
    by (auto simp: generate_crc8_table_def)
  then have "uint (word_of_int i :: u8) = i" by (simp add: uint_word_of_int)
  then have "x = uint (crc8_word (word_of_int i))" using i crc8_entry_word by metis
  then show ?thesis using unsigned_less [of "crc8_word (word_of_int i)"] by simp
qed

section \<open>The emitted update functions\<close>

datatype checksum_algo = NONE | SUM8 | XOR8 | CRC8

fun checksum_update :: "checksum_algo \<Rightarrow> u8 \<Rightarrow> u8 \<Rightarrow> u8" where
  "checksum_update CRC8 current b = word_of_int (generate_crc8_table ! unat (current XOR b))"
| "checksum_update SUM8 current b = current + b"
| "checksum_update XOR8 current b = current XOR b"
| "checksum_update NONE current b = 0"

definition calculate_checksum :: "checksum_algo \<Rightarrow> u8 list \<Rightarrow> u8" where
  "calculate_checksum a data = foldl (checksum_update a) 0 data"

lemma crc8_update_word: "checksum_update CRC8 c b = crc8_word (c XOR b)"
  by (simp add: crc8_table_nth)

text \<open>The shift register is a bijection: its lowest bit tells which branch was taken.\<close>

lemma bit_0x31: "bit (0x31 :: u8) n \<longleftrightarrow> n = 0 \<or> n = 4 \<or> n = 5"
  by (auto simp: bit_numeral_rec bit_1_iff split: nat.splits)

lemma bit_shl1: "bit (push_bit 1 r) n \<longleftrightarrow> 0 < n \<and> n < 8 \<and> bit (r :: u8) (n - 1)"
  unfolding bit_push_bit_iff by (auto simp: not_less bit_imp_le_length dest: bit_imp_le_length)

lemma bit_crc8_shift_word:
  "bit (crc8_shift_word r) n \<longleftrightarrow>
     n < 8 \<and> ((0 < n \<and> bit r (n - 1)) \<noteq> (bit r 7 \<and> (n = 0 \<or> n = 4 \<or> n = 5)))"
  unfolding crc8_shift_word_def if_distrib [of bit] if_distribR bit_xor_iff bit_shl1 bit_0x31
  by auto

lemma crc8_shift_word_inj: "crc8_shift_word r = crc8_shift_word s \<Longrightarrow> r = s"
proof (rule bit_word_eqI)
  fix n
  assume eq: "crc8_shift_word r = crc8_shift_word s" and n: "n < LENGTH(8)"
  have top: "bit r 7 = bit s 7"
    using arg_cong [OF eq, of "\<lambda>w. bit w 0"] by (simp add: bit_crc8_shift_word)
  show "bit r n = bit s n"
  proof (cases "n = 7")
    case False
    with n have "Suc n < 8" by simp
    with arg_cong [OF eq, of "\<lambda>w. bit w (Suc n)"] top show ?thesis
      by (auto simp: bit_crc8_shift_word)
  qed (simp add: top)
qed

lemma crc8_word_inj: "crc8_word r = crc8_word s \<Longrightarrow> r = s"
proof -
  have "(crc8_shift_word ^^ n) r = (crc8_shift_word ^^ n) s \<Longrightarrow> r = s" for n
    by (induction n) (auto dest: crc8_shift_word_inj)
  then show "crc8_word r = crc8_word s \<Longrightarrow> r = s" by (auto simp: crc8_word_def)
qed

text \<open>Parity of the eight bits.\<close>

definition parity8 :: "u8 \<Rightarrow> bool" where
  "parity8 w = foldl (\<lambda>p n. p \<noteq> bit w n) False [0..<8]"

lemma foldl_neq:
  "foldl (\<lambda>p n. p \<noteq> (f n \<noteq> g n)) (a \<noteq> b) ns =
     (foldl (\<lambda>p n. p \<noteq> f n) a ns \<noteq> foldl (\<lambda>p n. p \<noteq> g n) b ns)"
proof (induction ns arbitrary: a b)
  case (Cons n ns)
  have "((a \<noteq> b) \<noteq> (f n \<noteq> g n)) = ((a \<noteq> f n) \<noteq> (b \<noteq> g n))" by blast
  then show ?case using Cons.IH [of "a \<noteq> f n" "b \<noteq> g n"] by (simp only: foldl_Cons)
qed simp

lemma parity8_xor: "parity8 (v XOR w) \<longleftrightarrow> parity8 v \<noteq> parity8 w"
  using foldl_neq [of "bit v" "bit w" False False "[0..<8]"]
  by (simp add: parity8_def bit_xor_iff)

lemma parity8_0 [simp]: "\<not> parity8 0"
  by (simp add: parity8_def upt_rec)

lemma parity8_bits:
  "parity8 w \<longleftrightarrow> (((((((bit w 0 \<noteq> bit w 1) \<noteq> bit w 2) \<noteq> bit w 3) \<noteq> bit w 4)
     \<noteq> bit w 5) \<noteq> bit w 6) \<noteq> bit w 7)"
  by (simp add: parity8_def upt_rec numeral_eq_Suc)

lemma parity8_crc8_shift: "parity8 (crc8_shift_word r) = parity8 r"
proof -
  have "parity8 (push_bit 1 r) \<longleftrightarrow> parity8 r \<noteq> bit r 7"
    unfolding parity8_bits bit_shl1 by simp blast
  moreover have "parity8 0x31" by (simp add: parity8_bits bit_0x31)
  ultimately show ?thesis
    unfolding crc8_shift_word_def if_distrib [of parity8] parity8_xor by simp
qed

lemma parity8_crc8_word: "parity8 (crc8_word r) = parity8 r"
proof -
  have "parity8 ((crc8_shift_word ^^ n) r) = parity8 r" for n
    by (induction n) (simp_all add: parity8_crc8_shift)
  then show ?thesis by (simp add: crc8_word_def)
qed

section \<open>What a frame checksum promises\<close>

text \<open>
  A running checksum that loses nothing of the byte it takes in, nor of its register: any
  change of one byte of the data shows in the result.
\<close>

locale detecting_checksum =
  fixes upd :: "u8 \<Rightarrow> u8 \<Rightarrow> u8"
  assumes upd_byte_inj: "upd c b = upd c b' \<Longrightarrow> b = b'"
    and upd_reg_inj: "upd c b = upd c' b \<Longrightarrow> c = c'"
begin

lemma foldl_reg_inj: "foldl upd c ds = foldl upd c' ds \<Longrightarrow> c = c'"
  by (induction ds arbitrary: c c') (auto dest: upd_reg_inj)

lemma single_byte_change:
  assumes "b \<noteq> b'"
  shows "foldl upd c (xs @ b # ys) \<noteq> foldl upd c (xs @ b' # ys)"
proof
  assume "foldl upd c (xs @ b # ys) = foldl upd c (xs @ b' # ys)"
  then have "upd (foldl upd c xs) b = upd (foldl upd c xs) b'"
    by (auto dest: foldl_reg_inj)
  with assms show False by (auto dest: upd_byte_inj)
qed

text \<open>Every check value is reached by choosing the last byte: no byte is redundant.\<close>

lemma last_byte_determined:
  "foldl upd c (xs @ [b]) = foldl upd c (xs @ [b']) \<longleftrightarrow> b = b'"
  using single_byte_change [of b b' c xs "[]"] by auto

end

text \<open>
  A checksum whose register keeps the parity of all bytes taken in detects any odd number
  of flipped bits, in the data and in the check byte together.
\<close>

locale parity_checksum = detecting_checksum +
  assumes upd_parity: "parity8 (upd c b) \<longleftrightarrow> parity8 c \<noteq> parity8 b"
begin

lemma foldl_parity:
  "parity8 (foldl upd c ds) \<longleftrightarrow> parity8 c \<noteq> odd (length (filter parity8 ds))"
  by (induction ds arbitrary: c) (auto simp: upd_parity)

end

text \<open>The bits in which two byte lists of one length differ.\<close>

definition parity_list :: "u8 list \<Rightarrow> bool" where
  "parity_list ds = odd (length (filter parity8 ds))"

definition odd_flips :: "u8 list \<Rightarrow> u8 list \<Rightarrow> bool" where
  "odd_flips xs ys \<longleftrightarrow> length xs = length ys \<and> parity_list (map2 (XOR) xs ys)"

lemma parity_list_xor:
  "length xs = length ys \<Longrightarrow>
     parity_list (map2 (XOR) xs ys) \<longleftrightarrow> parity_list xs \<noteq> parity_list ys"
  by (induction xs ys rule: list_induct2) (auto simp: parity_list_def parity8_xor)

context parity_checksum begin

lemma odd_flips_detected:
  assumes "odd_flips (xs @ [foldl upd 0 xs]) (ys @ [k])"
  shows "foldl upd 0 ys \<noteq> k"
proof
  assume k: "foldl upd 0 ys = k"
  have even: "\<not> parity_list (ds @ [foldl upd 0 ds])" for ds
    using foldl_parity [of 0 ds] by (auto simp: parity_list_def)
  from assms have "length (xs @ [foldl upd 0 xs]) = length (ys @ [k])"
    and "parity_list (map2 (XOR) (xs @ [foldl upd 0 xs]) (ys @ [k]))"
    by (simp_all only: odd_flips_def)
  with even [of xs] even [of ys] k show False
    by (simp only: parity_list_xor)
qed

end

section \<open>The emitted functions keep the promises\<close>

interpretation sum8: detecting_checksum "checksum_update SUM8"
  by unfold_locales simp_all

lemma xor_left_inj: "(c :: u8) XOR b = c XOR b' \<longleftrightarrow> b = b'"
  by (auto simp: bit_eq_iff bit_xor_iff)

lemma xor_right_inj: "(c :: u8) XOR b = c' XOR b \<longleftrightarrow> c = c'"
  by (auto simp: bit_eq_iff bit_xor_iff)

interpretation xor8: parity_checksum "checksum_update XOR8"
  by unfold_locales (simp_all only: checksum_update.simps parity8_xor xor_left_inj xor_right_inj)

interpretation crc8: parity_checksum "checksum_update CRC8"
proof unfold_locales
  fix c c' b b' :: u8
  show "checksum_update CRC8 c b = checksum_update CRC8 c b' \<Longrightarrow> b = b'"
    unfolding crc8_update_word by (drule crc8_word_inj) (simp only: xor_left_inj)
  show "checksum_update CRC8 c b = checksum_update CRC8 c' b \<Longrightarrow> c = c'"
    unfolding crc8_update_word by (drule crc8_word_inj) (simp only: xor_right_inj)
  show "parity8 (checksum_update CRC8 c b) = (parity8 c \<noteq> parity8 b)"
    unfolding crc8_update_word by (simp only: parity8_crc8_word parity8_xor)
qed

section \<open>Burst errors\<close>

text \<open>
  The bits go over the register from the highest of a byte to the lowest, so a burst of at
  most eight bits lies in the low \<open>k\<close> bits of one byte and the high \<open>8 - k\<close> bits of the next.
  CRC8 detects them all: shifting \<open>k\<close> bits that have not reached the top is a plain shift, and
  so is, backwards, a register whose low \<open>k\<close> bits are zero.
\<close>

lemma shift_plain: "\<not> bit r 7 \<Longrightarrow> crc8_shift_word r = push_bit 1 r"
  by (simp add: crc8_shift_word_def)

lemma shifts_plain:
  assumes "\<forall>n < 8. bit r n \<longrightarrow> n + m < 8"
  shows "(crc8_shift_word ^^ m) r = push_bit m r"
  using assms
proof (induction m)
  case (Suc m)
  then have IH: "(crc8_shift_word ^^ m) r = push_bit m r" by force
  have "7 - m < 8" by simp
  with Suc.prems have "\<not> (m \<le> 7 \<and> bit r (7 - m))" by fastforce
  then have "\<not> bit (push_bit m r) 7" by (auto simp: bit_push_bit_iff)
  then show ?case by (simp add: IH shift_plain push_bit_push_bit)
qed simp

lemma crc8_word_xor: "crc8_word (a XOR b) = crc8_word a XOR crc8_word b"
proof -
  have one: "crc8_shift_word (a XOR b) = crc8_shift_word a XOR crc8_shift_word b" for a b
    by (rule bit_word_eqI) (auto simp: bit_crc8_shift_word bit_xor_iff)
  have "(crc8_shift_word ^^ n) (a XOR b) = (crc8_shift_word ^^ n) a XOR (crc8_shift_word ^^ n) b" for n
    by (induction n) (simp_all add: one)
  then show ?thesis by (simp add: crc8_word_def)
qed

lemma burst_step:
  assumes k: "k \<le> 8" and lo: "\<forall>n. bit e1 n \<longrightarrow> n < k" and hi: "\<forall>n < k. \<not> bit e2 n"
    and eq: "crc8_word e1 = e2"
  shows "e1 = 0"
proof -
  have e2: "e2 = (crc8_shift_word ^^ k) (drop_bit k e2)"
  proof -
    have "(crc8_shift_word ^^ k) (drop_bit k e2) = push_bit k (drop_bit k e2)"
      by (rule shifts_plain) (auto simp: bit_drop_bit_eq dest: bit_imp_le_length)
    also have "\<dots> = e2"
    proof (rule bit_word_eqI)
      fix n assume "n < LENGTH(8)"
      then show "bit (push_bit k (drop_bit k e2)) n = bit e2 n"
        using hi by (cases "n < k") (auto simp: bit_push_bit_iff bit_drop_bit_eq)
    qed
    finally show ?thesis by simp
  qed
  have "(crc8_shift_word ^^ (8 - k)) e1 = push_bit (8 - k) e1"
    by (rule shifts_plain) (use lo k in auto)
  moreover have "crc8_word e1 = (crc8_shift_word ^^ (k + (8 - k))) e1" using k by (simp add: crc8_word_def)
  ultimately have "crc8_word e1 = (crc8_shift_word ^^ k) (push_bit (8 - k) e1)"
    by (simp only: funpow_add comp_apply)
  with eq e2 have "(crc8_shift_word ^^ k) (push_bit (8 - k) e1) = (crc8_shift_word ^^ k) (drop_bit k e2)"
    by simp
  moreover have "(crc8_shift_word ^^ n) a = (crc8_shift_word ^^ n) b \<Longrightarrow> a = b" for n a b
    by (induction n) (auto dest: crc8_shift_word_inj)
  ultimately have same: "push_bit (8 - k) e1 = drop_bit k e2" by blast
  show "e1 = 0"
  proof (rule bit_word_eqI)
    fix n assume n: "n < LENGTH(8)"
    show "bit e1 n = bit 0 n"
    proof (cases "n < k")
      case True
      then have "bit e1 n \<longleftrightarrow> bit (push_bit (8 - k) e1) (n + (8 - k))"
        using k by (auto simp: bit_push_bit_iff)
      also have "\<dots> \<longleftrightarrow> bit e2 (n + 8)" using k True by (simp add: same bit_drop_bit_eq)
      also have "\<not> \<dots>" by (auto dest: bit_imp_le_length)
      finally show ?thesis by simp
    qed (use lo in auto)
  qed
qed

text \<open>Two byte strings that differ by a burst of at most eight bits.\<close>

definition burst8 :: "u8 list \<Rightarrow> u8 list \<Rightarrow> bool" where
  "burst8 xs ys \<longleftrightarrow> (\<exists>pre post a b c d k. xs = pre @ a # b # post \<and> ys = pre @ c # d # post \<and>
     k \<le> 8 \<and> (\<forall>n. bit (a XOR c) n \<longrightarrow> n < k) \<and> (\<forall>n < k. \<not> bit (b XOR d) n) \<and>
     (a, b) \<noteq> (c, d))"

lemma xor_eq_0: "(a :: u8) XOR b = 0 \<longleftrightarrow> a = b"
  by (auto simp: bit_eq_iff bit_xor_iff)

lemma burst8_detected:
  assumes "burst8 xs ys"
  shows "foldl (checksum_update CRC8) r xs \<noteq> foldl (checksum_update CRC8) r ys"
proof
  assume eq: "foldl (checksum_update CRC8) r xs = foldl (checksum_update CRC8) r ys"
  from assms obtain pre post a b c d k where b: "xs = pre @ a # b # post" "ys = pre @ c # d # post"
    "k \<le> 8" "\<forall>n. bit (a XOR c) n \<longrightarrow> n < k" "\<forall>n < k. \<not> bit (b XOR d) n" "(a, b) \<noteq> (c, d)"
    unfolding burst8_def by blast
  let ?r = "foldl (checksum_update CRC8) r pre"
  from eq b(1,2) have "foldl (checksum_update CRC8) (checksum_update CRC8 (checksum_update CRC8 ?r a) b) post
      = foldl (checksum_update CRC8) (checksum_update CRC8 (checksum_update CRC8 ?r c) d) post" by simp
  from crc8.foldl_reg_inj [OF this]
  have "crc8_word (?r XOR a) XOR b = crc8_word (?r XOR c) XOR d"
    unfolding crc8_update_word by (rule crc8_word_inj)
  then have "crc8_word a XOR crc8_word c = b XOR d"
    by (simp add: crc8_word_xor bit_eq_iff bit_xor_iff) blast
  then have "crc8_word (a XOR c) = b XOR d" by (simp add: crc8_word_xor)
  from burst_step [OF b(3-5) this] have "a = c" by (simp add: xor_eq_0)
  with \<open>crc8_word (a XOR c) = b XOR d\<close> have "b XOR d = crc8_word 0" by simp
  also have "\<dots> = 0" using crc8_word_xor [of 0 0] by simp
  finally show False using \<open>a = c\<close> b(6) by (simp add: xor_eq_0)
qed

end
