(* ===== verification/McuFsm.thy ===== *)
theory McuFsm
  imports Checksum
begin

text \<open>
  What the emitted \<open>protocol.c\<close> does: its state variables, \<open>protocol_fsm_feed\<close> with the
  dispatch of a complete packet and the built-in replies, and the \<open>send_X\<close> functions. The text
  itself is \<open>mcu_source_segs\<close> in \<open>GenSource\<close>. A step that would read or write past the end
  of \<open>rx_buffer\<close> has no meaning in C and is \<open>None\<close>; the invariant shows it does not happen.
  The target is little-endian, as the protocol document says.
\<close>

type_synonym u16 = "16 word"
type_synonym u32 = "32 word"

section \<open>State\<close>

datatype rx_state =
  STATE_WAIT_HEADER1 | STATE_WAIT_HEADER2 | STATE_WAIT_ID | STATE_WAIT_LEN | STATE_WAIT_DATA | STATE_WAIT_CRC

record mcu =
  rx_state :: rx_state
  rx_buffer :: "u8 list"
  rx_cnt :: u16
  rx_data_len :: u8
  rx_id :: u8
  rx_checksum :: u8
  g_last_reliable_seq :: u8

text \<open>One message as the C code sees it: its enumerator, \<open>sizeof(Packet_name)\<close>, the reliable flag.\<close>

record packet =
  pk_name :: string
  pk_id :: u8
  pk_size :: nat
  pk_reliable :: bool

record proto =
  FRAME_HEADER1 :: u8
  FRAME_HEADER2 :: u8
  algo :: checksum_algo
  buf_size :: nat
  packets :: "packet list"
  require_handshake :: bool
  PROTOCOL_HASH :: u32

datatype event =
    On_receive string "u8 list"      \<comment> \<open>\<open>on_receive_X\<close> called on the bytes of its packet\<close>
  | Serial_write "u8 list"           \<comment> \<open>\<open>serial_write\<close> called with a frame\<close>

definition mcu_init :: "proto \<Rightarrow> mcu" where
  "mcu_init P = \<lparr>rx_state = STATE_WAIT_HEADER1, rx_buffer = replicate (buf_size P) 0, rx_cnt = 0,
     rx_data_len = 0, rx_id = 0, rx_checksum = 0, g_last_reliable_seq = 0\<rparr>"

section \<open>Sending\<close>

definition send_packet :: "proto \<Rightarrow> u8 \<Rightarrow> u8 list \<Rightarrow> u8 list" where
  \<comment> \<open>the bytes \<open>send_X\<close> hands to \<open>serial_write\<close> for a packet of the given bytes\<close>
  "send_packet P i pkt =
     (let buffer = [FRAME_HEADER1 P, FRAME_HEADER2 P, i, of_nat (length pkt)] @ pkt
      in buffer @ [calculate_checksum (algo P) (drop 2 buffer)])"

definition ACK_ID :: u8 where "ACK_ID = 0xFD"
definition HEARTBEAT_ID :: u8 where "HEARTBEAT_ID = 0xFE"
definition HANDSHAKE_ID :: u8 where "HANDSHAKE_ID = 0xFF"

definition send_reliable_ack :: "proto \<Rightarrow> u8 \<Rightarrow> u8 \<Rightarrow> event" where
  "send_reliable_ack P i seq = Serial_write (send_packet P ACK_ID [i, seq])"

definition hash_bytes :: "u32 \<Rightarrow> u8 list" where
  "hash_bytes h = map (\<lambda>k. ucast (drop_bit (8 * k) h)) [0, 1, 2, 3]"

definition send_handshake_reply :: "proto \<Rightarrow> event" where
  "send_handshake_reply P = Serial_write (send_packet P HANDSHAKE_ID (hash_bytes (PROTOCOL_HASH P)))"

section \<open>Receiving\<close>

text \<open>The \<open>case\<close> of one packet in the dispatch: the cast reads \<open>sizeof\<close> bytes of the buffer.\<close>

definition dispatch_packet_case :: "proto \<Rightarrow> mcu \<Rightarrow> packet \<Rightarrow> (mcu \<times> event list) option" where
  "dispatch_packet_case P s pk =
     (if pk_reliable pk then
        if unat (rx_data_len s) = pk_size pk + 1 then
          if pk_size pk < length (rx_buffer s) then
            let seq = rx_buffer s ! pk_size pk in
            Some (s\<lparr>g_last_reliable_seq := seq\<rparr>,
                  [On_receive (pk_name pk) (take (pk_size pk) (rx_buffer s)),
                   send_reliable_ack P (pk_id pk) seq])
          else None
        else Some (s, [])
      else
        if unat (rx_data_len s) = pk_size pk then
          if pk_size pk \<le> length (rx_buffer s) then
            let pkt = take (pk_size pk) (rx_buffer s) in
            Some (s,
              (if pk_name pk = ''Heartbeat'' then [Serial_write (send_packet P HEARTBEAT_ID pkt)] else []) @
              (if pk_name pk = ''Handshake'' \<and> require_handshake P then [send_handshake_reply P] else []) @
              [On_receive (pk_name pk) pkt])
          else None
        else Some (s, []))"

definition dispatch_switch :: "proto \<Rightarrow> mcu \<Rightarrow> (mcu \<times> event list) option" where
  "dispatch_switch P s =
     (case find (\<lambda>pk. pk_id pk = rx_id s) (packets P) of
        Some pk \<Rightarrow> dispatch_packet_case P s pk
      | None \<Rightarrow> Some (s, []))"

function protocol_fsm_feed :: "proto \<Rightarrow> mcu \<Rightarrow> u8 \<Rightarrow> (mcu \<times> event list) option" where
  "protocol_fsm_feed P s b =
     (case rx_state s of
        STATE_WAIT_HEADER1 \<Rightarrow>
          Some (if b = FRAME_HEADER1 P then s\<lparr>rx_state := STATE_WAIT_HEADER2\<rparr> else s, [])
      | STATE_WAIT_HEADER2 \<Rightarrow>
          Some (if b = FRAME_HEADER2 P then s\<lparr>rx_state := STATE_WAIT_ID\<rparr>
                else if b \<noteq> FRAME_HEADER1 P then s\<lparr>rx_state := STATE_WAIT_HEADER1\<rparr>
                else s, [])
      | STATE_WAIT_ID \<Rightarrow>
          Some (s\<lparr>rx_id := b, rx_checksum := checksum_update (algo P) 0 b,
                  rx_state := STATE_WAIT_LEN\<rparr>, [])
      | STATE_WAIT_LEN \<Rightarrow>
          if length (rx_buffer s) < unat b then
            protocol_fsm_feed P (s\<lparr>rx_state := STATE_WAIT_HEADER1\<rparr>) b
          else
            Some (s\<lparr>rx_data_len := b, rx_checksum := checksum_update (algo P) (rx_checksum s) b,
                    rx_cnt := 0,
                    rx_state := (if 0 < b then STATE_WAIT_DATA else STATE_WAIT_CRC)\<rparr>, [])
      | STATE_WAIT_DATA \<Rightarrow>
          if unat (rx_cnt s) < length (rx_buffer s) then
            let cnt = rx_cnt s + 1 in
            Some (s\<lparr>rx_buffer := (rx_buffer s)[unat (rx_cnt s) := b], rx_cnt := cnt,
                    rx_checksum := checksum_update (algo P) (rx_checksum s) b,
                    rx_state := (if unat (rx_data_len s) \<le> unat cnt then STATE_WAIT_CRC
                                 else STATE_WAIT_DATA)\<rparr>, [])
          else None
      | STATE_WAIT_CRC \<Rightarrow>
          (if algo P = NONE \<or> b = rx_checksum s then
             map_option (\<lambda>(s', evs). (s'\<lparr>rx_state := STATE_WAIT_HEADER1\<rparr>, evs)) (dispatch_switch P s)
           else Some (s\<lparr>rx_state := STATE_WAIT_HEADER1\<rparr>, [])))"
  by pat_completeness auto
termination
  by (relation "measure (\<lambda>(P, s, b). if rx_state s = STATE_WAIT_LEN then 1 else 0)") auto

declare protocol_fsm_feed.simps [simp del]

text \<open>A run over a sequence of bytes, with the events in order.\<close>

fun feed_all :: "proto \<Rightarrow> mcu \<Rightarrow> u8 list \<Rightarrow> (mcu \<times> event list) option" where
  "feed_all P s [] = Some (s, [])"
| "feed_all P s (b # bs) =
     (case protocol_fsm_feed P s b of
        None \<Rightarrow> None
      | Some (s', evs) \<Rightarrow> map_option (\<lambda>(s'', evs'). (s'', evs @ evs')) (feed_all P s' bs))"

lemma feed_all_append:
  "feed_all P s (bs @ cs) =
     (case feed_all P s bs of
        None \<Rightarrow> None
      | Some (s', evs) \<Rightarrow> map_option (\<lambda>(s'', evs'). (s'', evs @ evs')) (feed_all P s' cs))"
  by (induction bs arbitrary: s) (auto split: option.splits simp: option.map_comp comp_def case_prod_unfold
      option.map_ident prod.case_eq_if)

section \<open>Buffer safety\<close>

definition proto_wf :: "proto \<Rightarrow> bool" where
  "proto_wf P \<longleftrightarrow> buf_size P \<le> 255 \<and>
     (\<forall>pk \<in> set (packets P). pk_size pk + of_bool (pk_reliable pk) \<le> buf_size P)"

definition mcu_inv :: "proto \<Rightarrow> mcu \<Rightarrow> bool" where
  "mcu_inv P s \<longleftrightarrow> length (rx_buffer s) = buf_size P \<and>
     (rx_state s \<in> {STATE_WAIT_DATA, STATE_WAIT_CRC} \<longrightarrow> unat (rx_data_len s) \<le> buf_size P) \<and>
     (rx_state s = STATE_WAIT_DATA \<longrightarrow> unat (rx_cnt s) < unat (rx_data_len s))"

lemma mcu_inv_init: "mcu_inv P (mcu_init P)"
  by (simp add: mcu_inv_def mcu_init_def)

lemma unat_cnt_Suc:
  assumes "unat (c :: u16) < unat (l :: u8)"
  shows "unat (c + 1) = unat c + 1"
proof -
  have "unat l < 256" using unsigned_less [of l] by simp
  with assms have "unat c + 1 < 65536" by simp
  then show ?thesis by (simp add: unat_word_ariths)
qed

lemma unat_len: "n \<le> 255 \<Longrightarrow> unat (of_nat n :: u8) = n"
  by (simp add: unat_of_nat)

lemma dispatch_some:
  assumes "proto_wf P" and "length (rx_buffer s) = buf_size P"
  shows "\<exists>s' evs. dispatch_switch P s = Some (s', evs) \<and> rx_buffer s' = rx_buffer s"
proof (cases "find (\<lambda>pk. pk_id pk = rx_id s) (packets P)")
  case None
  then show ?thesis by (simp add: dispatch_switch_def)
next
  case (Some pk)
  then have "pk \<in> set (packets P)" by (auto simp: find_Some_iff)
  with assms have "pk_size pk + of_bool (pk_reliable pk) \<le> length (rx_buffer s)"
    by (auto simp: proto_wf_def)
  with Some show ?thesis
    by (cases "pk_reliable pk") (auto simp: dispatch_switch_def dispatch_packet_case_def Let_def)
qed

lemma feed_inv:
  assumes "proto_wf P" and "mcu_inv P s"
  shows "\<exists>s' evs. protocol_fsm_feed P s b = Some (s', evs) \<and> mcu_inv P s'"
proof (cases "rx_state s")
  case STATE_WAIT_LEN
  then show ?thesis
    using assms
    by (cases "length (rx_buffer s) < unat b")
      (auto simp: protocol_fsm_feed.simps [of P s] protocol_fsm_feed.simps [of P "s\<lparr>rx_state := _\<rparr>"]
        mcu_inv_def word_less_nat_alt)
next
  case STATE_WAIT_DATA
  with assms(2) have "unat (rx_cnt s) < unat (rx_data_len s)" "unat (rx_data_len s) \<le> buf_size P"
    by (auto simp: mcu_inv_def)
  then show ?thesis
    using assms STATE_WAIT_DATA unat_cnt_Suc
    by (auto simp: protocol_fsm_feed.simps [of P s] mcu_inv_def Let_def)
next
  case STATE_WAIT_CRC
  from assms(2) have len: "length (rx_buffer s) = buf_size P" by (simp add: mcu_inv_def)
  from dispatch_some [OF assms(1) len] obtain s' evs where
    "dispatch_switch P s = Some (s', evs)" "rx_buffer s' = rx_buffer s" by blast
  then show ?thesis
    using assms STATE_WAIT_CRC by (simp add: protocol_fsm_feed.simps [of P s] mcu_inv_def)
qed (use assms in \<open>auto simp: protocol_fsm_feed.simps [of P s] mcu_inv_def\<close>)

lemma feed_all_inv:
  assumes "proto_wf P" and "mcu_inv P s"
  shows "\<exists>s' evs. feed_all P s bs = Some (s', evs) \<and> mcu_inv P s'"
  using assms(2)
proof (induction bs arbitrary: s)
  case (Cons b bs)
  from feed_inv [OF assms(1) Cons.prems, of b] obtain s1 e1 where
    one: "protocol_fsm_feed P s b = Some (s1, e1)" "mcu_inv P s1" by blast
  from Cons.IH [OF one(2)] one(1) show ?case by auto
qed simp

section \<open>One frame\<close>

lemma feed_data:
  assumes "rx_state s = STATE_WAIT_DATA" and "ds \<noteq> []" and "unat (rx_cnt s) + length ds = unat (rx_data_len s)"
    and "unat (rx_data_len s) \<le> length (rx_buffer s)"
  shows "feed_all P s ds = Some (s\<lparr>
      rx_buffer := take (unat (rx_cnt s)) (rx_buffer s) @ ds @
        drop (unat (rx_cnt s) + length ds) (rx_buffer s),
      rx_cnt := rx_cnt s + of_nat (length ds),
      rx_checksum := foldl (checksum_update (algo P)) (rx_checksum s) ds,
      rx_state := STATE_WAIT_CRC\<rparr>, [])"
  using assms
proof (induction ds arbitrary: s)
  case (Cons b ds)
  let ?k = "unat (rx_cnt s)"
  have k: "?k < unat (rx_data_len s)" using Cons.prems(3) by simp
  then have kb: "?k < length (rx_buffer s)" and k1: "unat (rx_cnt s + 1) = ?k + 1"
    using Cons.prems(4) unat_cnt_Suc by auto
  let ?s1 = "s\<lparr>rx_buffer := (rx_buffer s)[?k := b], rx_cnt := rx_cnt s + 1,
      rx_checksum := checksum_update (algo P) (rx_checksum s) b,
      rx_state := (if unat (rx_data_len s) \<le> ?k + 1 then STATE_WAIT_CRC else STATE_WAIT_DATA)\<rparr>"
  have one: "protocol_fsm_feed P s b = Some (?s1, [])"
    using Cons.prems(1) kb by (simp add: protocol_fsm_feed.simps [of P s] Let_def k1)
  have buf: "take ?k (rx_buffer s) @ (b # ds) @ drop (?k + Suc (length ds)) (rx_buffer s)
      = take (?k + 1) ((rx_buffer s)[?k := b]) @ ds @ drop (?k + 1 + length ds) ((rx_buffer s)[?k := b])"
    using kb by (simp add: take_Suc_conv_app_nth)
  show ?case
  proof (cases "ds = []")
    case True
    then have "unat (rx_data_len s) = ?k + 1" using Cons.prems(3) by simp
    then show ?thesis using one True upd_conv_take_nth_drop [OF kb, of b] by simp
  next
    case False
    with Cons.prems(3) have more: "\<not> unat (rx_data_len s) \<le> ?k + 1" by (cases ds) auto
    have "feed_all P ?s1 ds = Some (?s1\<lparr>
        rx_buffer := take (?k + 1) ((rx_buffer s)[?k := b]) @ ds @ drop (?k + 1 + length ds) ((rx_buffer s)[?k := b]),
        rx_cnt := rx_cnt s + 1 + of_nat (length ds),
        rx_checksum := foldl (checksum_update (algo P)) (rx_checksum ?s1) ds,
        rx_state := STATE_WAIT_CRC\<rparr>, [])"
      using Cons.IH [of ?s1] False Cons.prems(3,4) more by (simp add: k1)
    then show ?thesis using one buf by (simp add: algebra_simps)
  qed
qed simp

text \<open>The state in which a frame's check byte is judged.\<close>

definition frame_state :: "proto \<Rightarrow> mcu \<Rightarrow> u8 \<Rightarrow> u8 list \<Rightarrow> mcu" where
  "frame_state P s i ds = s\<lparr>
     rx_buffer := ds @ drop (length ds) (rx_buffer s), rx_cnt := of_nat (length ds),
     rx_data_len := of_nat (length ds), rx_id := i,
     rx_checksum := calculate_checksum (algo P) ([i, of_nat (length ds)] @ ds),
     rx_state := STATE_WAIT_CRC\<rparr>"

definition idle :: "proto \<Rightarrow> mcu \<Rightarrow> bool" where
  "idle P s \<longleftrightarrow> rx_state s = STATE_WAIT_HEADER1 \<and> length (rx_buffer s) = buf_size P"

lemma frame_header_run:
  assumes "idle P s" and "length ds \<le> buf_size P" and "buf_size P \<le> 255"
  shows "feed_all P s ([FRAME_HEADER1 P, FRAME_HEADER2 P, i, of_nat (length ds)] @ ds)
    = Some (frame_state P s i ds, [])"
proof -
  have len: "unat (of_nat (length ds) :: u8) = length ds"
    by (rule unat_len) (use assms(2,3) in simp)
  let ?s1 = "s\<lparr>rx_state := STATE_WAIT_HEADER2\<rparr>"
  let ?s2 = "s\<lparr>rx_state := STATE_WAIT_ID\<rparr>"
  let ?s3 = "s\<lparr>rx_id := i, rx_checksum := checksum_update (algo P) 0 i, rx_state := STATE_WAIT_LEN\<rparr>"
  let ?s4 = "?s3\<lparr>rx_data_len := of_nat (length ds),
      rx_checksum := checksum_update (algo P) (checksum_update (algo P) 0 i) (of_nat (length ds)),
      rx_cnt := 0, rx_state := (if 0 < length ds then STATE_WAIT_DATA else STATE_WAIT_CRC)\<rparr>"
  have "protocol_fsm_feed P s (FRAME_HEADER1 P) = Some (?s1, [])"
    using assms(1) by (simp add: protocol_fsm_feed.simps [of P s] idle_def)
  moreover have "protocol_fsm_feed P ?s1 (FRAME_HEADER2 P) = Some (?s2, [])"
    by (simp add: protocol_fsm_feed.simps [of P ?s1])
  moreover have "protocol_fsm_feed P ?s2 i = Some (?s3, [])"
    by (simp add: protocol_fsm_feed.simps [of P ?s2])
  moreover have "protocol_fsm_feed P ?s3 (of_nat (length ds)) = Some (?s4, [])"
    using assms(1,2) len by (simp add: protocol_fsm_feed.simps [of P ?s3] idle_def word_less_nat_alt)
  ultimately have head: "feed_all P s ([FRAME_HEADER1 P, FRAME_HEADER2 P, i, of_nat (length ds)] @ ds)
      = map_option (\<lambda>(s', evs). (s', evs)) (feed_all P ?s4 ds)"
    by (simp add: case_prod_unfold option.map_comp comp_def)
  show ?thesis
  proof (cases "ds = []")
    case True
    then show ?thesis unfolding head by (simp add: frame_state_def calculate_checksum_def)
  next
    case False
    then have "feed_all P ?s4 ds = Some (frame_state P s i ds, [])"
      using assms(1,2) len
      by (subst feed_data) (auto simp: frame_state_def calculate_checksum_def idle_def)
    then show ?thesis unfolding head by simp
  qed
qed

text \<open>A complete frame is dispatched exactly when its check byte is right.\<close>

lemma frame_run:
  assumes "idle P s" and "length ds \<le> buf_size P" and "buf_size P \<le> 255"
  shows "feed_all P s ([FRAME_HEADER1 P, FRAME_HEADER2 P, i, of_nat (length ds)] @ ds @ [c]) =
    (if algo P = NONE \<or> c = calculate_checksum (algo P) ([i, of_nat (length ds)] @ ds)
     then map_option (\<lambda>(s', evs). (s'\<lparr>rx_state := STATE_WAIT_HEADER1\<rparr>, evs))
            (dispatch_switch P (frame_state P s i ds))
     else Some ((frame_state P s i ds)\<lparr>rx_state := STATE_WAIT_HEADER1\<rparr>, []))"
proof -
  have "rx_state (frame_state P s i ds) = STATE_WAIT_CRC"
    "rx_checksum (frame_state P s i ds) = calculate_checksum (algo P) ([i, of_nat (length ds)] @ ds)"
    by (simp_all add: frame_state_def)
  then have "protocol_fsm_feed P (frame_state P s i ds) c =
    (if algo P = NONE \<or> c = calculate_checksum (algo P) ([i, of_nat (length ds)] @ ds)
     then map_option (\<lambda>(s', evs). (s'\<lparr>rx_state := STATE_WAIT_HEADER1\<rparr>, evs))
            (dispatch_switch P (frame_state P s i ds))
     else Some ((frame_state P s i ds)\<lparr>rx_state := STATE_WAIT_HEADER1\<rparr>, []))"
    by (simp add: protocol_fsm_feed.simps)
  then show ?thesis
    using frame_header_run [OF assms, of i]
    by (auto simp: feed_all_append [of P s "[_, _, _, _] @ ds" "[c]", simplified]
        option.map_comp comp_def case_prod_unfold option.map_ident split: option.splits)
qed

section \<open>Delivery\<close>

text \<open>
  What a link promises: an idle receiver that is fed the encoding of a good message delivers
  it and is idle again. Then a stream of messages is delivered completely and in order.
\<close>

locale frame_link =
  fixes feed :: "'s \<Rightarrow> 'b \<Rightarrow> ('s \<times> 'e list) option"
    and run :: "'s \<Rightarrow> 'b list \<Rightarrow> ('s \<times> 'e list) option"
    and ready :: "'s \<Rightarrow> bool"
    and good :: "'m \<Rightarrow> bool"
    and encode :: "'m \<Rightarrow> 'b list"
    and outcome :: "'m \<Rightarrow> 'e list"
  assumes run_Nil: "run s [] = Some (s, [])"
    and run_append: "run s bs = Some (s', es) \<Longrightarrow>
          run s (bs @ cs) = map_option (\<lambda>(s'', es'). (s'', es @ es')) (run s' cs)"
    and deliver: "ready s \<Longrightarrow> good m \<Longrightarrow> \<exists>s'. run s (encode m) = Some (s', outcome m) \<and> ready s'"
begin

lemma stream_delivered:
  "ready s \<Longrightarrow> \<forall>m \<in> set ms. good m \<Longrightarrow>
     \<exists>s'. run s (concat (map encode ms)) = Some (s', concat (map outcome ms)) \<and> ready s'"
proof (induction ms arbitrary: s)
  case (Cons m ms)
  then obtain s1 where one: "run s (encode m) = Some (s1, outcome m)" "ready s1"
    using deliver by fastforce
  with Cons obtain s' where "run s1 (concat (map encode ms)) = Some (s', concat (map outcome ms))"
    "ready s'" by auto
  with run_append [OF one(1)] show ?case by auto
qed (simp add: run_Nil)

end

definition packet_ok :: "proto \<Rightarrow> packet \<Rightarrow> u8 list \<Rightarrow> bool" where
  "packet_ok P pk payload \<longleftrightarrow>
     pk \<in> set (packets P) \<and> length payload = pk_size pk + of_bool (pk_reliable pk)"

text \<open>The events of a packet: its callback, with the built-in reply of the protocol layer.\<close>

definition packet_events :: "proto \<Rightarrow> packet \<Rightarrow> u8 list \<Rightarrow> event list" where
  "packet_events P pk payload =
     (if pk_reliable pk then
        [On_receive (pk_name pk) (butlast payload), send_reliable_ack P (pk_id pk) (last payload)]
      else
        (if pk_name pk = ''Heartbeat'' then [Serial_write (send_packet P HEARTBEAT_ID payload)] else []) @
        (if pk_name pk = ''Handshake'' \<and> require_handshake P then [send_handshake_reply P] else []) @
        [On_receive (pk_name pk) payload])"

definition proto_ids :: "proto \<Rightarrow> bool" where
  "proto_ids P \<longleftrightarrow> distinct (map pk_id (packets P))"

lemma find_packet:
  "distinct (map pk_id pks) \<Longrightarrow> pk \<in> set pks \<Longrightarrow> find (\<lambda>q. pk_id q = pk_id pk) pks = Some pk"
  by (induction pks) force+

lemma send_packet_eq:
  "send_packet P i ds = [FRAME_HEADER1 P, FRAME_HEADER2 P, i, of_nat (length ds)] @ ds @
     [calculate_checksum (algo P) ([i, of_nat (length ds)] @ ds)]"
  by (simp add: send_packet_def)

lemma packet_delivered:
  assumes "proto_wf P" and "proto_ids P" and "idle P s" and "packet_ok P pk payload"
  shows "\<exists>s'. feed_all P s (send_packet P (pk_id pk) payload) = Some (s', packet_events P pk payload) \<and>
    idle P s'"
proof -
  from assms(4) have pk: "pk \<in> set (packets P)"
    and len: "length payload = pk_size pk + of_bool (pk_reliable pk)" by (simp_all add: packet_ok_def)
  from assms(1) pk have size: "pk_size pk + of_bool (pk_reliable pk) \<le> buf_size P" "buf_size P \<le> 255"
    by (simp_all add: proto_wf_def)
  have u: "unat (of_nat (length payload) :: u8) = length payload"
    by (rule unat_len) (use size len in simp)
  let ?f = "frame_state P s (pk_id pk) payload"
  have f: "rx_id ?f = pk_id pk" "unat (rx_data_len ?f) = length payload"
    "rx_buffer ?f = payload @ drop (length payload) (rx_buffer s)"
    using u by (simp_all add: frame_state_def)
  have "length (rx_buffer ?f) = buf_size P"
    using f(3) size len assms(3) by (simp add: idle_def)
  moreover have "\<exists>t. dispatch_switch P ?f = Some (t, packet_events P pk payload) \<and> rx_buffer t = rx_buffer ?f"
  proof (cases "pk_reliable pk")
    case True
    with len obtain ds q where ds: "payload = ds @ [q]" "length ds = pk_size pk"
      by (cases payload rule: rev_cases) auto
    with True f find_packet [OF assms(2) [unfolded proto_ids_def] pk] show ?thesis
      by (simp add: dispatch_switch_def dispatch_packet_case_def packet_events_def Let_def nth_append)
  next
    case False
    with len f find_packet [OF assms(2) [unfolded proto_ids_def] pk] show ?thesis
      by (simp add: dispatch_switch_def dispatch_packet_case_def packet_events_def Let_def)
  qed
  ultimately show ?thesis
    using frame_run [OF assms(3), of payload "pk_id pk"] size len
    by (auto simp: send_packet_eq idle_def)
qed

interpretation mcu: frame_link "protocol_fsm_feed P" "feed_all P"
  "\<lambda>s. proto_wf P \<and> proto_ids P \<and> idle P s" "\<lambda>(pk, payload). packet_ok P pk payload"
  "\<lambda>(pk, payload). send_packet P (pk_id pk) payload" "\<lambda>(pk, payload). packet_events P pk payload" for P
proof unfold_locales
  fix s m
  assume "proto_wf P \<and> proto_ids P \<and> idle P s" and "case m of (pk, payload) \<Rightarrow> packet_ok P pk payload"
  then show "\<exists>s'. feed_all P s (case m of (pk, payload) \<Rightarrow> send_packet P (pk_id pk) payload)
      = Some (s', case m of (pk, payload) \<Rightarrow> packet_events P pk payload) \<and>
      proto_wf P \<and> proto_ids P \<and> idle P s'"
    using packet_delivered by (auto split: prod.splits)
qed (simp_all add: feed_all_append)

section \<open>Corruption and resynchronisation\<close>

lemma checksum_change:
  assumes "a \<noteq> NONE" and "b \<noteq> b'"
  shows "calculate_checksum a (xs @ b # ys) \<noteq> calculate_checksum a (xs @ b' # ys)"
  unfolding calculate_checksum_def using assms
    sum8.single_byte_change [OF assms(2)] xor8.single_byte_change [OF assms(2)]
    crc8.single_byte_change [OF assms(2)]
  by (cases a) metis+

lemma bad_checksum_dropped:
  assumes "idle P s" and "length ds \<le> buf_size P" and "buf_size P \<le> 255" and "algo P \<noteq> NONE"
    and "c \<noteq> calculate_checksum (algo P) ([i, of_nat (length ds)] @ ds)"
  shows "\<exists>s'. feed_all P s ([FRAME_HEADER1 P, FRAME_HEADER2 P, i, of_nat (length ds)] @ ds @ [c])
    = Some (s', []) \<and> idle P s'"
  using frame_run [OF assms(1-3), of i c] assms(1,2,4,5)
  by (auto simp: idle_def frame_state_def)

text \<open>A frame that keeps its header and length bytes but is not what was sent.\<close>

lemma damaged_frame_dropped:
  assumes "idle P s" and "length ds = length ds'" and "length ds \<le> buf_size P" and "buf_size P \<le> 255"
    and "algo P \<noteq> NONE"
    and "c \<noteq> calculate_checksum (algo P) ([i', of_nat (length ds)] @ ds')"
  shows "\<exists>s'. feed_all P s ([FRAME_HEADER1 P, FRAME_HEADER2 P, i', of_nat (length ds)] @ ds' @ [c])
    = Some (s', []) \<and> idle P s'"
  using bad_checksum_dropped [OF assms(1) _ assms(4,5), of ds' c i'] assms by simp

lemma list_update_split:
  "k < length xs \<Longrightarrow> \<exists>as bs. xs = as @ xs ! k # bs \<and> xs[k := b] = as @ b # bs"
  by (intro exI [of _ "take k xs"] exI [of _ "drop (Suc k) xs"])
    (simp add: id_take_nth_drop [symmetric] upd_conv_take_nth_drop)

lemma corrupted_byte_dropped:
  assumes "idle P s" and "length ds \<le> buf_size P" and "buf_size P \<le> 255" and "algo P \<noteq> NONE"
    and k: "k < length (send_packet P i ds)" "k \<notin> {0, 1, 3}" and b: "b \<noteq> send_packet P i ds ! k"
  shows "\<exists>s'. feed_all P s ((send_packet P i ds)[k := b]) = Some (s', []) \<and> idle P s'"
proof -
  let ?n = "of_nat (length ds) :: u8" and ?c = "calculate_checksum (algo P) ([i, of_nat (length ds)] @ ds)"
  note change = checksum_change [OF assms(4)]
  note dropped = damaged_frame_dropped [OF assms(1) _ assms(2-4)]
  from k consider "k = 2" | "4 \<le> k" "k < 4 + length ds" | "k = 4 + length ds"
    by (fastforce simp: send_packet_eq)
  then show ?thesis
  proof cases
    case 1
    with b have "b \<noteq> i" by (simp add: send_packet_eq)
    from change [OF this, of "[]" "?n # ds"] have "?c \<noteq> calculate_checksum (algo P) ([b, ?n] @ ds)"
      by simp
    from dropped [OF refl this] 1 show ?thesis by (simp add: send_packet_eq)
  next
    case 2
    define j where "j = k - 4"
    with 2 have j: "k = Suc (Suc (Suc (Suc j)))" "j < length ds" by simp_all
    with b have "b \<noteq> ds ! j" by (simp add: send_packet_eq nth_append)
    moreover obtain as bs where "ds = as @ ds ! j # bs" "ds[j := b] = as @ b # bs"
      using list_update_split [OF j(2), of b] by blast
    ultimately have "?c \<noteq> calculate_checksum (algo P) ([i, ?n] @ ds[j := b])"
      using change [of b "ds ! j" "[i, ?n] @ as" bs] by (metis append.assoc)
    from dropped [OF _ this] j show ?thesis by (simp add: send_packet_eq list_update_append)
  next
    case 3
    with b have "b \<noteq> ?c" by (simp add: send_packet_eq nth_append)
    from dropped [OF refl this] 3 show ?thesis by (simp add: send_packet_eq list_update_append)
  qed
qed

text \<open>Any odd number of flipped bits after the length byte's position, for CRC8 and XOR8.\<close>

lemma odd_flips_dropped:
  assumes "idle P s" and "length ds \<le> buf_size P" and "buf_size P \<le> 255"
    and "algo P = CRC8 \<or> algo P = XOR8" and "length ds' = length ds"
    and "odd_flips ([i, of_nat (length ds)] @ ds @ [calculate_checksum (algo P) ([i, of_nat (length ds)] @ ds)])
           ([i', of_nat (length ds)] @ ds' @ [c])"
  shows "\<exists>s'. feed_all P s ([FRAME_HEADER1 P, FRAME_HEADER2 P, i', of_nat (length ds)] @ ds' @ [c])
    = Some (s', []) \<and> idle P s'"
proof -
  have "c \<noteq> calculate_checksum (algo P) ([i', of_nat (length ds)] @ ds')"
    using assms(4)
  proof
    assume a: "algo P = CRC8"
    with crc8.odd_flips_detected [of "[i, of_nat (length ds)] @ ds" "[i', of_nat (length ds)] @ ds'" c]
      assms(6) show ?thesis by (simp add: calculate_checksum_def)
  next
    assume a: "algo P = XOR8"
    with xor8.odd_flips_detected [of "[i, of_nat (length ds)] @ ds" "[i', of_nat (length ds)] @ ds'" c]
      assms(6) show ?thesis by (simp add: calculate_checksum_def)
  qed
  moreover have "algo P \<noteq> NONE" using assms(4) by auto
  ultimately show ?thesis using damaged_frame_dropped [OF assms(1) _ assms(2,3), of ds' c i'] assms(5) by simp
qed

text \<open>How many idle-line bytes bring the machine back to \<open>STATE_WAIT_HEADER1\<close>.\<close>

fun pending :: "mcu \<Rightarrow> nat" where
  "pending s = (case rx_state s of
      STATE_WAIT_HEADER1 \<Rightarrow> 0
    | STATE_WAIT_HEADER2 \<Rightarrow> 1
    | STATE_WAIT_ID \<Rightarrow> 3
    | STATE_WAIT_LEN \<Rightarrow> 2
    | STATE_WAIT_DATA \<Rightarrow> unat (rx_data_len s) - unat (rx_cnt s) + 1
    | STATE_WAIT_CRC \<Rightarrow> 1)"

lemma pending_bound:
  assumes "mcu_inv P s" and "proto_wf P"
  shows "pending s \<le> 256 \<or> pending s \<le> 3"
proof -
  have "unat (rx_data_len s) < 256" using unsigned_less [of "rx_data_len s"] by simp
  then show ?thesis by (cases "rx_state s") auto
qed

lemma pending_step:
  assumes "proto_wf P" and "mcu_inv P s" and "FRAME_HEADER1 P \<noteq> 0" and "FRAME_HEADER2 P \<noteq> 0"
  shows "\<exists>s' evs. protocol_fsm_feed P s 0 = Some (s', evs) \<and> mcu_inv P s' \<and> pending s' \<le> pending s - 1"
proof -
  from feed_inv [OF assms(1,2), of 0] obtain s' evs where
    s': "protocol_fsm_feed P s 0 = Some (s', evs)" "mcu_inv P s'" by blast
  have "pending s' \<le> pending s - 1"
  proof (cases "rx_state s")
    case STATE_WAIT_CRC
    with s'(1) have "rx_state s' = STATE_WAIT_HEADER1"
      by (auto simp: protocol_fsm_feed.simps [of P s] split: if_splits)
    then show ?thesis by simp
  next
    case STATE_WAIT_DATA
    with assms(2) have k: "unat (rx_cnt s) < unat (rx_data_len s)" by (simp add: mcu_inv_def)
    with s'(1) STATE_WAIT_DATA show ?thesis
      by (auto simp: protocol_fsm_feed.simps [of P s] Let_def unat_cnt_Suc [OF k]
          split: if_splits)
  qed (use s'(1) assms(3,4) in \<open>auto simp: protocol_fsm_feed.simps [of P s] split: if_splits\<close>)
  with s' show ?thesis by blast
qed

lemma resync_run:
  assumes "proto_wf P" and "FRAME_HEADER1 P \<noteq> 0" and "FRAME_HEADER2 P \<noteq> 0"
  shows "mcu_inv P s \<Longrightarrow> pending s \<le> n \<Longrightarrow>
    \<exists>s' evs. feed_all P s (replicate n 0) = Some (s', evs) \<and> idle P s'"
proof (induction n arbitrary: s)
  case 0
  then have "rx_state s = STATE_WAIT_HEADER1" by (cases "rx_state s") auto
  with 0 show ?case by (simp add: idle_def mcu_inv_def)
next
  case (Suc n)
  from pending_step [OF assms(1) Suc.prems(1) assms(2,3)] obtain s1 e1 where
    one: "protocol_fsm_feed P s 0 = Some (s1, e1)" "mcu_inv P s1" "pending s1 \<le> pending s - 1" by blast
  with Suc.prems(2) have "pending s1 \<le> n" by simp
  from Suc.IH [OF one(2) this] one(1) show ?case by auto
qed

end
