(* ===== verification/PyStr.thy ===== *)
theory PyStr
  imports Prelude "HOL-Library.Char_ord"
begin

text \<open>
  Python's \<open>str\<close> as the source uses it. A string is the list of bytes of its UTF-8
  encoding, one HOL \<open>char\<close> each; this is what the generator writes to disk. Non-ASCII
  text of the source is written \<open>utf8 [cp, \<dots>]\<close> with its code points. \<open>upper\<close>,
  \<open>lower\<close>, \<open>strip\<close> and the character classes act on the ASCII range and leave the
  other bytes alone, which is exact for the strings the generator lets through (its
  identifiers, package names, topics and algorithm names are ASCII once validated).
\<close>

section \<open>Encoding\<close>

definition utf8_char :: "nat \<Rightarrow> string" where
  "utf8_char cp =
     (if cp < 128 then [char_of cp]
      else if cp < 2048 then [char_of (192 + cp div 64), char_of (128 + cp mod 64)]
      else if cp < 65536 then
        [char_of (224 + cp div 4096), char_of (128 + (cp div 64) mod 64),
         char_of (128 + cp mod 64)]
      else
        [char_of (240 + cp div 262144), char_of (128 + (cp div 4096) mod 64),
         char_of (128 + (cp div 64) mod 64), char_of (128 + cp mod 64)])"

definition utf8 :: "nat list \<Rightarrow> string" where
  "utf8 cps = concat (map utf8_char cps)"

text \<open>A code point beyond ASCII contributes bytes from 128 up only.\<close>

lemma of_char_utf8_char:
  assumes "128 \<le> cp" and "cp < 1114112" and "c \<in> set (utf8_char cp)"
  shows "128 \<le> (of_char c :: nat)"
proof -
  have "128 + k < 256" if "k < 64" for k :: nat using that by simp
  moreover have "cp div 262144 < 8" and "cp < 2048 \<Longrightarrow> cp div 64 < 32"
    and "cp < 65536 \<Longrightarrow> cp div 4096 < 16"
    using assms(2) by auto
  ultimately show ?thesis
    using assms(1,3) by (auto simp: utf8_char_def of_char_of mod_less split: if_splits)
qed

lemma utf8_no_ascii:
  assumes "list_all (\<lambda>cp. 128 \<le> cp \<and> cp < 1114112) cps" and "(of_char c :: nat) < 128"
  shows "c \<notin> set (utf8 cps)"
  using assms of_char_utf8_char by (fastforce simp: utf8_def list_all_iff)

section \<open>Character classes and case\<close>

definition is_lower :: "char \<Rightarrow> bool" where
  "is_lower c \<longleftrightarrow> 97 \<le> (of_char c :: nat) \<and> (of_char c :: nat) \<le> 122"

definition is_upper :: "char \<Rightarrow> bool" where
  "is_upper c \<longleftrightarrow> 65 \<le> (of_char c :: nat) \<and> (of_char c :: nat) \<le> 90"

definition is_digit :: "char \<Rightarrow> bool" where
  "is_digit c \<longleftrightarrow> 48 \<le> (of_char c :: nat) \<and> (of_char c :: nat) \<le> 57"

definition is_alpha_us :: "char \<Rightarrow> bool" where  \<comment> \<open>\<open>[A-Za-z_]\<close>\<close>
  "is_alpha_us c \<longleftrightarrow> is_lower c \<or> is_upper c \<or> c = CHR ''_''"

definition is_word :: "char \<Rightarrow> bool" where      \<comment> \<open>\<open>[A-Za-z0-9_]\<close>, the ASCII part of \<open>\w\<close>\<close>
  "is_word c \<longleftrightarrow> is_alpha_us c \<or> is_digit c"

definition upper_char :: "char \<Rightarrow> char" where
  "upper_char c = (if is_lower c then char_of ((of_char c :: nat) - 32) else c)"

definition lower_char :: "char \<Rightarrow> char" where
  "lower_char c = (if is_upper c then char_of ((of_char c :: nat) + 32) else c)"

definition upper :: "string \<Rightarrow> string" where "upper = map upper_char"
definition lower :: "string \<Rightarrow> string" where "lower = map lower_char"

text \<open>Python's ASCII white space: tab to carriage return, 0x1C to 0x1F, and the blank.\<close>

definition is_space :: "char \<Rightarrow> bool" where
  "is_space c \<longleftrightarrow> (let n = (of_char c :: nat) in 9 \<le> n \<and> n \<le> 13 \<or> 28 \<le> n \<and> n \<le> 32)"

definition strip :: "string \<Rightarrow> string" where
  "strip s = rev (dropWhile is_space (rev (dropWhile is_space s)))"

lemma of_char_upper_char:
  "is_lower c \<Longrightarrow> (of_char (upper_char c) :: nat) = of_char c - 32"
  by (simp add: upper_char_def is_lower_def of_char_of)
    (rule mod_less, linarith)

lemma upper_char_word: "is_word c \<Longrightarrow> is_word (upper_char c)"
  by (auto simp: is_word_def is_alpha_us_def upper_char_def is_lower_def is_upper_def of_char_of)

lemma upper_word: "list_all is_word s \<Longrightarrow> list_all is_word (upper s)"
  by (auto simp: upper_def list_all_iff upper_char_word)

lemma upper_char_idem [simp]: "upper_char (upper_char c) = upper_char c"
  by (auto simp: upper_char_def is_lower_def of_char_of)

lemma upper_idem [simp]: "upper (upper s) = upper s"
  by (simp add: upper_def)

section \<open>Splitting and joining\<close>

fun split_on :: "char \<Rightarrow> string \<Rightarrow> string list" where   \<comment> \<open>\<open>s.split(c)\<close>\<close>
  "split_on c [] = [[]]"
| "split_on c (x # xs) =
     (if x = c then [] # split_on c xs
      else case split_on c xs of [] \<Rightarrow> [[x]] | w # ws \<Rightarrow> (x # w) # ws)"

fun join :: "string \<Rightarrow> string list \<Rightarrow> string" where      \<comment> \<open>\<open>sep.join(ws)\<close>\<close>
  "join sep [] = []"
| "join sep [w] = w"
| "join sep (w # v # ws) = w @ sep @ join sep (v # ws)"

lemma split_on_not_Nil [simp]: "split_on c s \<noteq> []"
  by (cases s) (auto split: list.splits)

lemma join_split_on: "join [c] (split_on c s) = s"
proof (induction s)
  case (Cons x xs)
  obtain w ws where sp: "split_on c xs = w # ws"
    by (cases "split_on c xs") auto
  show ?case
    using Cons.IH by (cases ws) (auto simp: sp)
qed simp

lemma split_on_no_sep: "w \<in> set (split_on c s) \<Longrightarrow> c \<notin> set w"
proof (induction s arbitrary: w)
  case (Cons x xs)
  obtain v vs where "split_on c xs = v # vs" by (cases "split_on c xs") auto
  with Cons show ?case by (auto split: if_splits)
qed simp

lemma split_on_subset: "w \<in> set (split_on c s) \<Longrightarrow> set w \<subseteq> set s"
proof (induction s arbitrary: w)
  case (Cons x xs)
  obtain v vs where "split_on c xs = v # vs" by (cases "split_on c xs") auto
  with Cons show ?case by (fastforce split: if_splits)
qed simp

lemma split_on_word: "c \<notin> set w \<Longrightarrow> split_on c w = [w]"
  by (induction w) auto

lemma split_on_append: "c \<notin> set w \<Longrightarrow> split_on c (w @ c # s) = w # split_on c s"
  by (induction w) auto

section \<open>Numbers\<close>

definition digit :: "nat \<Rightarrow> char" where
  "digit d = char_of (48 + d)"

fun nat_str :: "nat \<Rightarrow> string" where                       \<comment> \<open>\<open>str(n)\<close>, \<open>n >= 0\<close>\<close>
  "nat_str n = (if n < 10 then [digit n] else nat_str (n div 10) @ [digit (n mod 10)])"

declare nat_str.simps [simp del]

definition int_str :: "int \<Rightarrow> string" where                 \<comment> \<open>\<open>str(i)\<close>\<close>
  "int_str i = (if i < 0 then CHR ''-'' # nat_str (nat (- i)) else nat_str (nat i))"

definition digits_val :: "string \<Rightarrow> nat" where             \<comment> \<open>\<open>int(ds)\<close> of decimal digits\<close>
  "digits_val s = foldl (\<lambda>n c. 10 * n + (of_char c - 48)) 0 s"

lemma is_digit_digit: "d < 10 \<Longrightarrow> is_digit (digit d)"
  by (simp add: is_digit_def digit_def of_char_of)

lemma nat_str_digits: "list_all is_digit (nat_str n)"
proof (induction n rule: nat_str.induct)
  case (1 n)
  then show ?case by (subst nat_str.simps) (auto simp: is_digit_digit)
qed

lemma nat_str_not_Nil [simp]: "nat_str n \<noteq> []"
  by (subst nat_str.simps) simp

lemma digits_val_nat_str [simp]: "digits_val (nat_str n) = n"
proof (induction n rule: nat_str.induct)
  case (1 n)
  show ?case
  proof (cases "n < 10")
    case True
    then show ?thesis
      by (subst nat_str.simps) (simp add: digits_val_def digit_def of_char_of)
  next
    case False
    have "(of_char (digit (n mod 10)) :: nat) = 48 + n mod 10"
      by (simp add: digit_def of_char_of)
    with False 1 show ?thesis
      by (subst nat_str.simps) (simp add: digits_val_def)
  qed
qed

lemma nat_str_inj: "nat_str m = nat_str n \<Longrightarrow> m = n"
  by (metis digits_val_nat_str)

lemma int_str_chars: "c \<in> set (int_str i) \<Longrightarrow> is_digit c \<or> c = CHR ''-''"
  using nat_str_digits by (auto simp: int_str_def list_all_iff split: if_splits)

text \<open>Hexadecimal formats: \<open>f"{v:0wX}"\<close> and \<open>f"{v:#04x}"\<close>.\<close>

definition hex_digit :: "bool \<Rightarrow> nat \<Rightarrow> char" where
  "hex_digit up d = (if d < 10 then char_of (48 + d)
                     else char_of ((if up then 55 else 87) + d))"

fun hex_nat :: "bool \<Rightarrow> nat \<Rightarrow> string" where
  "hex_nat up n = (if n < 16 then [hex_digit up n]
                   else hex_nat up (n div 16) @ [hex_digit up (n mod 16)])"

declare hex_nat.simps [simp del]

definition zfill :: "nat \<Rightarrow> string \<Rightarrow> string" where         \<comment> \<open>zero padding to a width\<close>
  "zfill w s = replicate (w - length s) CHR ''0'' @ s"

definition hex_upper :: "nat \<Rightarrow> nat \<Rightarrow> string" where       \<comment> \<open>\<open>{v:0wX}\<close>\<close>
  "hex_upper w v = zfill w (hex_nat True v)"

definition hex_04x :: "int \<Rightarrow> string" where                \<comment> \<open>\<open>{v:#04x}\<close>\<close>
  "hex_04x v = (if v < 0 then ''-0x'' @ zfill 1 (hex_nat False (nat (- v)))
                else ''0x'' @ zfill 2 (hex_nat False (nat v)))"

lemma hex_digit_word: "d < 16 \<Longrightarrow> is_word (hex_digit up d)"
  by (auto simp: hex_digit_def is_word_def is_alpha_us_def is_digit_def is_lower_def
      is_upper_def of_char_of)

lemma hex_nat_word: "list_all is_word (hex_nat up n)"
proof (induction up n rule: hex_nat.induct)
  case (1 up n)
  then show ?case by (subst hex_nat.simps) (auto simp: hex_digit_word)
qed

lemma hex_upper_word: "list_all is_word (hex_upper w v)"
  using hex_nat_word [of True v]
  by (auto simp: hex_upper_def zfill_def list_all_iff is_word_def is_digit_def)

lemma length_hex_nat: "n < 16 ^ w \<Longrightarrow> 0 < w \<Longrightarrow> length (hex_nat up n) \<le> w"
proof (induction up n arbitrary: w rule: hex_nat.induct)
  case (1 up n)
  show ?case
  proof (cases "n < 16")
    case True
    with 1(3) show ?thesis by (subst hex_nat.simps) simp
  next
    case False
    with 1(2) obtain v where w: "w = Suc v" and "0 < v"
      by (cases w; cases "w - 1") auto
    with 1(2) have "n div 16 < 16 ^ v" by (simp add: less_mult_imp_div_less mult.commute)
    with 1(1) [OF False _ \<open>0 < v\<close>] False w show ?thesis by (subst hex_nat.simps) simp
  qed
qed

lemma length_hex_upper: "v < 16 ^ w \<Longrightarrow> 0 < w \<Longrightarrow> length (hex_upper w v) = w"
  using length_hex_nat [of v w True] by (simp add: hex_upper_def zfill_def)

end
