(* ===== verification/PyRegex.thy ===== *)
theory PyRegex
  imports PyStr
begin

text \<open>
  The part of Python's \<open>re\<close> the generator uses: regular expressions over character
  classes, \<open>fullmatch\<close> and a match of a prefix (for negative lookahead), decided by
  Brzozowski derivatives. \<open>lang\<close> is their meaning, and the matcher is proved to decide
  it. The patterns of the source are written as expressions in the components that use
  them.
\<close>

datatype rexp =
    Nothing                     \<comment> \<open>no string\<close>
  | Eps                         \<comment> \<open>the empty string\<close>
  | Cls "char \<Rightarrow> bool"          \<comment> \<open>a character class\<close>
  | Alt rexp rexp
  | Seq rexp rexp
  | Star rexp

abbreviation Chr :: "char \<Rightarrow> rexp" where "Chr c \<equiv> Cls (\<lambda>x. x = c)"
abbreviation Opt :: "rexp \<Rightarrow> rexp" where "Opt r \<equiv> Alt r Eps"
abbreviation Plus1 :: "rexp \<Rightarrow> rexp" where "Plus1 r \<equiv> Seq r (Star r)"

fun Lit :: "string \<Rightarrow> rexp" where
  "Lit [] = Eps"
| "Lit (c # cs) = Seq (Chr c) (Lit cs)"

section \<open>Meaning\<close>

inductive lang :: "rexp \<Rightarrow> string \<Rightarrow> bool" where
  Eps: "lang Eps []"
| Cls: "p c \<Longrightarrow> lang (Cls p) [c]"
| AltL: "lang r s \<Longrightarrow> lang (Alt r q) s"
| AltR: "lang q s \<Longrightarrow> lang (Alt r q) s"
| Seq: "lang r s \<Longrightarrow> lang q t \<Longrightarrow> lang (Seq r q) (s @ t)"
| Star0: "lang (Star r) []"
| StarS: "lang r s \<Longrightarrow> lang (Star r) t \<Longrightarrow> lang (Star r) (s @ t)"

inductive_simps lang_Nothing [simp]: "lang Nothing s"
inductive_simps lang_Eps [simp]: "lang Eps s"
inductive_simps lang_Cls [simp]: "lang (Cls p) s"
inductive_simps lang_Alt [simp]: "lang (Alt r q) s"
inductive_simps lang_Seq: "lang (Seq r q) s"
inductive_cases lang_StarE: "lang (Star r) s"

lemma lang_Star_Cls: "lang (Star (Cls p)) s \<longleftrightarrow> list_all p s"
proof
  show "lang (Star (Cls p)) s \<Longrightarrow> list_all p s"
    by (induction "Star (Cls p)" s rule: lang.induct) auto
next
  show "list_all p s \<Longrightarrow> lang (Star (Cls p)) s"
  proof (induction s)
    case (Cons c s)
    then have "lang (Star (Cls p)) ([c] @ s)" by (intro lang.StarS) auto
    then show ?case by simp
  qed (rule lang.Star0)
qed

lemma lang_Lit: "lang (Lit w) s \<longleftrightarrow> s = w"
  by (induction w arbitrary: s) (auto simp: lang_Seq)

lemma lang_Seq_Cls: "lang (Seq (Cls p) r) s \<longleftrightarrow> (\<exists>c t. s = c # t \<and> p c \<and> lang r t)"
proof
  show "lang (Seq (Cls p) r) s \<Longrightarrow> \<exists>c t. s = c # t \<and> p c \<and> lang r t"
    by (auto simp: lang_Seq)
next
  assume "\<exists>c t. s = c # t \<and> p c \<and> lang r t"
  then obtain c t where "s = [c] @ t" and "p c" and "lang r t" by auto
  then show "lang (Seq (Cls p) r) s" by (metis lang.Seq lang.Cls)
qed

section \<open>Matching\<close>

fun nullable :: "rexp \<Rightarrow> bool" where
  "nullable Nothing = False"
| "nullable Eps = True"
| "nullable (Cls p) = False"
| "nullable (Alt r q) = (nullable r \<or> nullable q)"
| "nullable (Seq r q) = (nullable r \<and> nullable q)"
| "nullable (Star r) = True"

fun deriv :: "char \<Rightarrow> rexp \<Rightarrow> rexp" where
  "deriv c Nothing = Nothing"
| "deriv c Eps = Nothing"
| "deriv c (Cls p) = (if p c then Eps else Nothing)"
| "deriv c (Alt r q) = Alt (deriv c r) (deriv c q)"
| "deriv c (Seq r q) =
     (if nullable r then Alt (Seq (deriv c r) q) (deriv c q) else Seq (deriv c r) q)"
| "deriv c (Star r) = Seq (deriv c r) (Star r)"

fun fullmatch :: "rexp \<Rightarrow> string \<Rightarrow> bool" where        \<comment> \<open>\<open>p.fullmatch(s)\<close> is a match\<close>
  "fullmatch r [] = nullable r"
| "fullmatch r (c # s) = fullmatch (deriv c r) s"

fun prefixmatch :: "rexp \<Rightarrow> string \<Rightarrow> bool" where      \<comment> \<open>some prefix of \<open>s\<close> matches\<close>
  "prefixmatch r [] = nullable r"
| "prefixmatch r (c # s) = (nullable r \<or> prefixmatch (deriv c r) s)"

lemma nullable_lang: "nullable r \<longleftrightarrow> lang r []"
  by (induction r) (auto simp: lang_Seq intro: lang.Star0)

lemma lang_Star_Cons:
  "lang (Star r) (c # s) \<longleftrightarrow> (\<exists>u v. s = u @ v \<and> lang r (c # u) \<and> lang (Star r) v)"
proof
  show "lang (Star r) (c # s) \<Longrightarrow> \<exists>u v. s = u @ v \<and> lang r (c # u) \<and> lang (Star r) v"
    by (induction "Star r" "c # s" rule: lang.induct) (auto simp: append_eq_Cons_conv)
next
  assume "\<exists>u v. s = u @ v \<and> lang r (c # u) \<and> lang (Star r) v"
  then show "lang (Star r) (c # s)" by (auto dest: lang.StarS)
qed

lemma deriv_lang: "lang (deriv c r) s \<longleftrightarrow> lang r (c # s)"
proof (induction r arbitrary: s)
  case (Seq r q)
  then show ?case
    by (auto simp: lang_Seq nullable_lang append_eq_Cons_conv Cons_eq_append_conv)
next
  case (Star r)
  then show ?case by (auto simp: lang_Seq lang_Star_Cons)
qed auto

theorem fullmatch_lang: "fullmatch r s \<longleftrightarrow> lang r s"
  by (induction s arbitrary: r) (simp_all add: nullable_lang deriv_lang)

theorem prefixmatch_lang: "prefixmatch r s \<longleftrightarrow> (\<exists>u v. s = u @ v \<and> lang r u)"
proof (induction s arbitrary: r)
  case Nil
  show ?case by (simp add: nullable_lang)
next
  case (Cons c s)
  have "(\<exists>u v. c # s = u @ v \<and> lang r u) \<longleftrightarrow> lang r [] \<or> (\<exists>u v. s = u @ v \<and> lang r (c # u))"
    by (auto simp: Cons_eq_append_conv)
  then show ?case by (simp add: Cons.IH nullable_lang deriv_lang)
qed

section \<open>Identifiers\<close>

definition identifier_re :: rexp where   \<comment> \<open>\<open>^[A-Za-z_][A-Za-z0-9_]*$\<close>\<close>
  "identifier_re = Seq (Cls is_alpha_us) (Star (Cls is_word))"

lemma identifier_re_iff:
  "fullmatch identifier_re s \<longleftrightarrow> (\<exists>c t. s = c # t \<and> is_alpha_us c \<and> list_all is_word t)"
  by (simp add: fullmatch_lang identifier_re_def lang_Seq_Cls lang_Star_Cls)

lemma identifier_word: "fullmatch identifier_re s \<Longrightarrow> s \<noteq> [] \<and> list_all is_word s"
  by (auto simp: identifier_re_iff is_word_def)

end
