(* ===== verification/UserCode.thy ===== *)
theory UserCode
  imports PyRegex "HOL-Library.AList"
begin

text \<open>
  The USER CODE blocks of generated files and the way files are written. A generator's
  output is a list of segments: text it writes itself, and blocks whose content is taken
  from the file of the previous run. The main lemma is the round trip: extracting the
  blocks of a rendered file gives back the content of every block, so hand-written code
  survives regeneration.
\<close>

section \<open>Finding a substring\<close>

fun split_at_sub :: "string \<Rightarrow> string \<Rightarrow> (string \<times> string) option" where
  \<comment> \<open>the text before and after the first occurrence of \<open>pat\<close>: the lazy \<open>(.*?)pat\<close>\<close>
  "split_at_sub pat s =
     (if take (length pat) s = pat then Some ([], drop (length pat) s)
      else case s of
        [] \<Rightarrow> None
      | c # cs \<Rightarrow> map_option (\<lambda>(a, b). (c # a, b)) (split_at_sub pat cs))"

declare split_at_sub.simps [simp del]

lemma take_prefix: "n \<le> length xs \<Longrightarrow> take n (xs @ t) = take n xs"
  by simp

lemma split_at_sub_Nil: "pat \<noteq> [] \<Longrightarrow> split_at_sub pat [] = None"
  by (subst split_at_sub.simps) simp

lemma split_at_sub_Cons:
  "split_at_sub pat (c # cs) =
     (if take (length pat) (c # cs) = pat then Some ([], drop (length pat) (c # cs))
      else map_option (\<lambda>(a, b). (c # a, b)) (split_at_sub pat cs))"
  by (subst split_at_sub.simps) simp

lemma split_at_sub_Some: "split_at_sub pat s = Some (a, b) \<Longrightarrow> s = a @ pat @ b"
proof (induction s arbitrary: a)
  case Nil
  then show ?case by (auto simp: split_at_sub.simps split: if_splits)
next
  case (Cons c cs)
  show ?case
  proof (cases "take (length pat) (c # cs) = pat")
    case True
    with Cons.prems have "a = []" and b: "b = drop (length pat) (c # cs)"
      by (auto simp: split_at_sub_Cons)
    moreover from True have "c # cs = pat @ drop (length pat) (c # cs)"
      by (metis append_take_drop_id)
    ultimately show ?thesis by simp
  next
    case False
    with Cons show ?thesis by (auto simp: split_at_sub_Cons)
  qed
qed

lemma split_at_sub_length: "split_at_sub pat s = Some (a, b) \<Longrightarrow> length b \<le> length s"
  by (auto dest: split_at_sub_Some)

text \<open>Text after the occurrence does not matter.\<close>

lemma split_at_sub_append:
  "split_at_sub pat s = Some (a, b) \<Longrightarrow> split_at_sub pat (s @ t) = Some (a, b @ t)"
proof (induction s arbitrary: a)
  case Nil
  then show ?case by (auto simp: split_at_sub.simps split: if_splits list.splits)
next
  case (Cons c cs)
  show ?case
  proof (cases "take (length pat) (c # cs) = pat")
    case True
    then have "length pat \<le> length (c # cs)" by (metis length_take min.cobounded1 min.commute)
    then have "take (length pat) ((c # cs) @ t) = pat"
      and d: "drop (length pat) ((c # cs) @ t) = drop (length pat) (c # cs) @ t"
      using True by (simp_all only: take_append drop_append diff_is_0_eq' take_0 drop_0 append_Nil2)
    then have "split_at_sub pat ((c # cs) @ t) = Some ([], drop (length pat) (c # cs) @ t)"
      by (subst split_at_sub.simps) (simp only: if_True simp_thms)
    moreover from True Cons.prems have "a = []" and "b = drop (length pat) (c # cs)"
      by (auto simp: split_at_sub_Cons)
    ultimately show ?thesis by simp
  next
    case False
    with Cons.prems obtain a' where s: "split_at_sub pat cs = Some (a', b)" and a: "a = c # a'"
      by (auto simp: split_at_sub_Cons)
    from split_at_sub_Some [OF s] have "length pat \<le> length (c # cs)" by simp
    then have "take (length pat) ((c # cs) @ t) = take (length pat) (c # cs)" by (rule take_prefix)
    with False a Cons.IH [OF s] show ?thesis by (simp add: split_at_sub_Cons)
  qed
qed

section \<open>Marks\<close>

definition BEGIN_PREFIX :: string where "BEGIN_PREFIX = ''/* USER CODE BEGIN ''"
definition MARK_SUFFIX :: string where "MARK_SUFFIX = '' */''"

definition begin_mark :: "string \<Rightarrow> string" where
  "begin_mark key = BEGIN_PREFIX @ key @ MARK_SUFFIX"

definition end_mark :: "string \<Rightarrow> string" where
  "end_mark key = ''/* USER CODE END '' @ key @ MARK_SUFFIX"

section \<open>Extraction\<close>

text \<open>The pattern at the start of \<open>s\<close>: key, code, and what follows the match.\<close>

definition match_block :: "string \<Rightarrow> (string \<times> string \<times> string) option" where
  "match_block s =
     (if take (length BEGIN_PREFIX) s = BEGIN_PREFIX then
        let r = drop (length BEGIN_PREFIX) s; key = takeWhile is_word r; r' = dropWhile is_word r
        in if key \<noteq> [] \<and> take (length MARK_SUFFIX) r' = MARK_SUFFIX then
             map_option (\<lambda>(code, rest). (key, code, rest))
               (split_at_sub (end_mark key) (drop (length MARK_SUFFIX) r'))
           else None
      else None)"

lemma match_block_length:
  assumes "match_block s = Some (key, code, rest)"
  shows "length rest < length s"
proof -
  from assms have t: "take (length BEGIN_PREFIX) s = BEGIN_PREFIX"
    by (auto simp: match_block_def split: if_splits)
  have sp: "split_at_sub (end_mark key) (drop (length MARK_SUFFIX)
      (dropWhile is_word (drop (length BEGIN_PREFIX) s))) = Some (code, rest)"
    using assms by (auto simp: match_block_def Let_def split: if_splits)
  have "length rest \<le> length (dropWhile is_word (drop (length BEGIN_PREFIX) s))"
    using split_at_sub_length [OF sp] by simp
  also have "\<dots> \<le> length (drop (length BEGIN_PREFIX) s)"
    by (rule length_dropWhile_le)
  also have "\<dots> < length s"
    using t by (cases s) (auto simp: BEGIN_PREFIX_def)
  finally show ?thesis .
qed

text \<open>\<open>pattern.findall(content)\<close>: leftmost matches that do not overlap.\<close>

function find_blocks :: "string \<Rightarrow> (string \<times> string) list" where
  "find_blocks s =
     (case match_block s of
        Some (key, code, rest) \<Rightarrow> (key, code) # find_blocks rest
      | None \<Rightarrow> (case s of [] \<Rightarrow> [] | c # cs \<Rightarrow> find_blocks cs))"
  by pat_completeness auto
termination
  by (relation "measure length") (auto dest: match_block_length)

declare find_blocks.simps [simp del]

definition blocks_of :: "string \<Rightarrow> (string \<times> string) list" where
  "blocks_of content = foldl (\<lambda>d (k, c). AList.update k c d) [] (find_blocks content)"

text \<open>Reading in text mode turns every line end into a newline.\<close>

fun universal_newlines :: "string \<Rightarrow> string" where
  "universal_newlines [] = []"
| "universal_newlines (c # cs) =
     (if c = CHR 0x0D then
        CHR 0x0A # (case cs of [] \<Rightarrow> []
          | d # ds \<Rightarrow> if d = CHR 0x0A then universal_newlines ds else universal_newlines cs)
      else c # universal_newlines cs)"

type_synonym fs = "string \<Rightarrow> string option"   \<comment> \<open>the contents of the files that exist\<close>

definition read_text :: "fs \<Rightarrow> string \<Rightarrow> string option" where
  "read_text fs p = map_option universal_newlines (fs p)"

definition extract_user_code :: "fs \<Rightarrow> string \<Rightarrow> (string \<times> string) list" where
  "extract_user_code fs file_path =
     (case read_text fs file_path of None \<Rightarrow> [] | Some content \<Rightarrow> blocks_of content)"

section \<open>Rendering\<close>

definition block_content :: "(string \<times> string) list \<Rightarrow> string \<Rightarrow> string" where
  "block_content blocks key = (case map_of blocks key of None \<Rightarrow> ''\<newline>'' | Some c \<Rightarrow> c)"

definition render_block :: "(string \<times> string) list \<Rightarrow> string \<Rightarrow> string" where
  "render_block blocks key =
     ''/* USER CODE BEGIN '' @ key @ '' */'' @ block_content blocks key @
     ''/* USER CODE END '' @ key @ '' */\<newline>''"

datatype seg = Txt string | Blk string

fun render_seg :: "(string \<times> string) list \<Rightarrow> seg \<Rightarrow> string" where
  "render_seg blocks (Txt t) = t"
| "render_seg blocks (Blk key) = render_block blocks key"

definition render :: "(string \<times> string) list \<Rightarrow> seg list \<Rightarrow> string" where
  "render blocks segs = concat (map (render_seg blocks) segs)"

fun seg_keys :: "seg list \<Rightarrow> string list" where
  "seg_keys [] = []"
| "seg_keys (Txt t # segs) = seg_keys segs"
| "seg_keys (Blk k # segs) = k # seg_keys segs"

lemma seg_keys_append [simp]: "seg_keys (xs @ ys) = seg_keys xs @ seg_keys ys"
  by (induction xs rule: seg_keys.induct) auto

lemma render_append: "render b (xs @ ys) = render b xs @ render b ys"
  by (simp add: render_def)

lemma seg_keys_concat: "seg_keys (concat xss) = concat (map seg_keys xss)"
  by (induction xss) auto

section \<open>Writing\<close>

definition tmp_path :: "string \<Rightarrow> string" where "tmp_path p = p @ ''.tmp''"

text \<open>Write to a temporary file and rename it over the target; skip an unchanged file.\<close>

definition write_generated_file :: "fs \<Rightarrow> string \<Rightarrow> string \<Rightarrow> fs" where
  "write_generated_file fs output_path content =
     (if read_text fs output_path = Some content then fs
      else let written = fs(tmp_path output_path \<mapsto> content)
           in written(output_path := written (tmp_path output_path),
                      tmp_path output_path := None))"

definition no_cr :: "string \<Rightarrow> bool" where "no_cr s \<longleftrightarrow> CHR 0x0D \<notin> set s"

lemma universal_newlines_id: "no_cr s \<Longrightarrow> universal_newlines s = s"
  by (induction s rule: universal_newlines.induct) (auto simp: no_cr_def)

lemma universal_newlines_no_cr: "no_cr (universal_newlines s)"
  by (induction s rule: universal_newlines.induct) (auto simp: no_cr_def split: list.splits)

text \<open>
  What a store of text files promises its client: a written text reads back, provided the
  text is one the store keeps as it is, and the other files keep their contents.
\<close>

locale text_store =
  fixes get :: "'s \<Rightarrow> 'p \<Rightarrow> 't option"
    and put :: "'s \<Rightarrow> 'p \<Rightarrow> 't \<Rightarrow> 's"
    and faithful :: "'t \<Rightarrow> bool"
    and scratch :: "'p \<Rightarrow> 'p"
  assumes read_write_same: "faithful t \<Longrightarrow> get (put s p t) p = Some t"
    and read_write_other: "q \<noteq> p \<Longrightarrow> q \<noteq> scratch p \<Longrightarrow> get (put s p t) q = get s q"
    and write_skip: "get s p = Some t \<Longrightarrow> put s p t = s"
begin

lemma write_idem: "faithful t \<Longrightarrow> put (put s p t) p t = put s p t"
  by (rule write_skip) (rule read_write_same)

text \<open>A batch of writes to files that do not share scratch files.\<close>

lemma read_writes:
  assumes "distinct (map fst jobs)" and "\<forall>(p, t) \<in> set jobs. faithful t"
    and "\<forall>p \<in> fst ` set jobs. \<forall>q \<in> fst ` set jobs. q \<noteq> scratch p"
    and "(p, t) \<in> set jobs"
  shows "get (foldl (\<lambda>s (p, t). put s p t) s jobs) p = Some t"
  using assms
proof (induction jobs arbitrary: s)
  case (Cons j js)
  obtain p' t' where j: "j = (p', t')" by (cases j)
  have keep: "get (foldl (\<lambda>s (p, t). put s p t) s js) p' = get s p'" for s
    using Cons.prems(1,3) j
  proof (induction js arbitrary: s)
    case (Cons k ks)
    obtain q u where "k = (q, u)" by (cases k)
    with Cons show ?case by (auto simp: read_write_other)
  qed simp
  show ?case
  proof (cases "(p, t) = j")
    case True
    with j keep Cons.prems(2) show ?thesis by (auto simp: read_write_same)
  next
    case False
    with Cons show ?thesis by (auto simp: j)
  qed
qed simp

end

lemma tmp_path_neq [simp]: "tmp_path p \<noteq> p" "p \<noteq> tmp_path p"
  by (simp_all add: tmp_path_def)

interpretation gen_store: text_store read_text write_generated_file no_cr tmp_path
  by unfold_locales (auto simp: read_text_def write_generated_file_def universal_newlines_id)

section \<open>Round trip\<close>

text \<open>
  Text in which no block can begin: it is empty or ends a line, and the fixed part of the
  begin mark does not occur in it.
\<close>

definition quiet :: "string \<Rightarrow> bool" where
  "quiet t \<longleftrightarrow> (t = [] \<or> last t = CHR 0x0A) \<and> split_at_sub BEGIN_PREFIX t = None"

text \<open>Content of a block that the lazy match reads back in full.\<close>

definition clean :: "string \<Rightarrow> string \<Rightarrow> bool" where
  "clean key code \<longleftrightarrow> split_at_sub (end_mark key) (code @ end_mark key) = Some (code, [])"

definition key_ok :: "string \<Rightarrow> bool" where
  "key_ok key \<longleftrightarrow> key \<noteq> [] \<and> list_all is_word key"

lemma BEGIN_PREFIX_line: "CHR 0x0A \<notin> set BEGIN_PREFIX"
  by (simp add: BEGIN_PREFIX_def)

lemma take_pat_last:
  assumes "take (length pat) (v @ u) = pat" and "v \<noteq> []" and "last v \<notin> set pat"
  shows "take (length pat) v = pat \<and> length pat \<le> length v"
proof (cases "length pat \<le> length v")
  case True
  with assms(1) show ?thesis by simp
next
  case False
  with assms(1) have "pat = v @ take (length pat - length v) u" by simp
  with assms(2) have "last v \<in> set pat" by (metis Un_iff last_in_set set_append)
  with assms(3) show ?thesis by simp
qed

lemma skip_quiet_gen:
  assumes "split_at_sub BEGIN_PREFIX t = None" and "t = [] \<or> last t = CHR 0x0A"
  shows "find_blocks (t @ u) = find_blocks u"
  using assms
proof (induction t)
  case (Cons c cs)
  have no: "take (length BEGIN_PREFIX) (c # cs) \<noteq> BEGIN_PREFIX"
    and cs: "split_at_sub BEGIN_PREFIX cs = None"
    using Cons.prems(1) by (auto simp: split_at_sub_Cons split: if_splits)
  have "take (length BEGIN_PREFIX) ((c # cs) @ u) \<noteq> BEGIN_PREFIX"
    using take_pat_last [of BEGIN_PREFIX "c # cs" u] no Cons.prems(2) BEGIN_PREFIX_line by auto
  then have "match_block ((c # cs) @ u) = None" by (simp add: match_block_def)
  then have "find_blocks ((c # cs) @ u) = find_blocks (cs @ u)"
    by (subst find_blocks.simps) simp
  also have "\<dots> = find_blocks u"
    using Cons.IH [OF cs] Cons.prems(2) by (auto split: if_splits)
  finally show ?case .
qed simp

lemma skip_quiet: "quiet t \<Longrightarrow> find_blocks (t @ u) = find_blocks u"
  by (auto simp: quiet_def intro: skip_quiet_gen)

lemma space_not_word: "\<not> is_word CHR '' ''"
  by (simp add: is_word_def is_alpha_us_def is_lower_def is_upper_def is_digit_def)

lemma match_render:
  assumes "key_ok key" and "clean key code"
  shows "match_block (begin_mark key @ code @ end_mark key @ u) = Some (key, code, u)"
proof -
  have w: "list_all is_word key" using assms(1) by (simp add: key_ok_def)
  have tw: "takeWhile is_word (key @ MARK_SUFFIX @ v) = key"
    "dropWhile is_word (key @ MARK_SUFFIX @ v) = MARK_SUFFIX @ v" for v
    using w space_not_word by (induction key) (auto simp: MARK_SUFFIX_def)
  have "split_at_sub (end_mark key) ((code @ end_mark key) @ u) = Some (code, [] @ u)"
    using assms(2) by (intro split_at_sub_append) (simp add: clean_def)
  then show ?thesis
    using assms(1) tw by (simp add: match_block_def begin_mark_def key_ok_def)
qed

lemma find_blocks_Nil: "find_blocks [] = []"
  by (subst find_blocks.simps) (simp add: match_block_def BEGIN_PREFIX_def)

lemma newline_quiet: "quiet [CHR 0x0A]"
  by (simp add: quiet_def split_at_sub_Cons split_at_sub_Nil BEGIN_PREFIX_def)

lemma render_block_eq:
  "render_block b k = begin_mark k @ block_content b k @ end_mark k @ [CHR 0x0A]"
  by (simp add: render_block_def begin_mark_def end_mark_def BEGIN_PREFIX_def MARK_SUFFIX_def)

definition seg_ok :: "(string \<times> string) list \<Rightarrow> seg \<Rightarrow> bool" where
  "seg_ok b sg = (case sg of Txt t \<Rightarrow> quiet t | Blk k \<Rightarrow> key_ok k \<and> clean k (block_content b k))"

lemma find_blocks_render:
  "list_all (seg_ok b) segs \<Longrightarrow>
     find_blocks (render b segs) = map (\<lambda>k. (k, block_content b k)) (seg_keys segs)"
proof (induction segs)
  case Nil
  show ?case by (simp add: render_def find_blocks_Nil)
next
  case (Cons sg segs)
  have IH: "find_blocks (render b segs) = map (\<lambda>k. (k, block_content b k)) (seg_keys segs)"
    using Cons by simp
  show ?case
  proof (cases sg)
    case (Txt t)
    then have "quiet t" using Cons.prems by (simp add: seg_ok_def)
    then have "find_blocks (t @ render b segs) = find_blocks (render b segs)" by (rule skip_quiet)
    with Txt IH show ?thesis by (simp add: render_def)
  next
    case (Blk k)
    then have "key_ok k" and "clean k (block_content b k)"
      using Cons.prems by (simp_all add: seg_ok_def)
    then have m: "match_block (render b (sg # segs))
        = Some (k, block_content b k, [CHR 0x0A] @ render b segs)"
      using match_render [of k "block_content b k" "[CHR 0x0A] @ render b segs"]
      by (simp add: render_def Blk render_block_eq)
    have "find_blocks (render b (sg # segs))
        = (k, block_content b k) # find_blocks ([CHR 0x0A] @ render b segs)"
      by (subst find_blocks.simps) (simp add: m)
    also have "find_blocks ([CHR 0x0A] @ render b segs) = find_blocks (render b segs)"
      by (rule skip_quiet [OF newline_quiet])
    finally show ?thesis using Blk IH by simp
  qed
qed

lemma map_of_foldl_update:
  "map_of (foldl (\<lambda>d (k, c). AList.update k c d) d kcs) k =
     (case map_of (rev kcs) k of None \<Rightarrow> map_of d k | Some c \<Rightarrow> Some c)"
  by (induction kcs arbitrary: d) (auto simp: update_conv' map_add_def split: option.splits)

lemma map_of_map_content:
  "map_of (map (\<lambda>k. (k, f k)) ks) k = (if k \<in> set ks then Some (f k) else None)"
  by (induction ks) auto

theorem blocks_of_render:
  assumes "list_all (seg_ok b) segs"
  shows "map_of (blocks_of (render b segs)) k =
    (if k \<in> set (seg_keys segs) then Some (block_content b k) else None)"
  unfolding blocks_of_def find_blocks_render [OF assms] map_of_foldl_update rev_map
  by (simp add: map_of_map_content)

text \<open>Rendering depends on the blocks only through the keys that occur.\<close>

lemma render_cong:
  "(\<And>k. k \<in> set (seg_keys segs) \<Longrightarrow> block_content b k = block_content b' k) \<Longrightarrow>
     render b segs = render b' segs"
  by (induction segs rule: seg_keys.induct) (auto simp: render_def render_block_def)

theorem render_fixpoint:
  assumes "list_all (seg_ok b) segs"
  shows "render (blocks_of (render b segs)) segs = render b segs"
  by (rule render_cong) (simp add: block_content_def [of "blocks_of _"] blocks_of_render [OF assms])

text \<open>Whatever a file holds, the blocks extracted from it satisfy the hypothesis.\<close>

lemma split_at_sub_clean:
  "split_at_sub pat s = Some (a, b) \<Longrightarrow> pat \<noteq> [] \<Longrightarrow> split_at_sub pat (a @ pat) = Some (a, [])"
proof (induction s arbitrary: a)
  case Nil
  then show ?case by (simp add: split_at_sub_Nil)
next
  case (Cons c cs)
  show ?case
  proof (cases "take (length pat) (c # cs) = pat")
    case True
    with Cons.prems have "a = []" by (simp add: split_at_sub_Cons)
    then show ?thesis by (subst split_at_sub.simps) simp
  next
    case False
    with Cons.prems obtain a' where s: "split_at_sub pat cs = Some (a', b)" and a: "a = c # a'"
      by (auto simp: split_at_sub_Cons)
    have "take (length pat) ((c # a' @ pat) @ b) = take (length pat) (c # a' @ pat)"
      by (rule take_prefix) simp
    with split_at_sub_Some [OF s]
    have "take (length pat) (c # cs) = take (length pat) (c # a' @ pat)" by simp
    with False a Cons.IH [OF s Cons.prems(2)] show ?thesis
      by (simp add: split_at_sub_Cons)
  qed
qed

lemma match_block_clean:
  assumes "match_block s = Some (key, code, rest)"
  shows "key_ok key \<and> clean key code"
proof -
  from assms have "split_at_sub (end_mark key) (drop (length MARK_SUFFIX)
      (dropWhile is_word (drop (length BEGIN_PREFIX) s))) = Some (code, rest)"
    and "key \<noteq> []" and "key = takeWhile is_word (drop (length BEGIN_PREFIX) s)"
    by (auto simp: match_block_def Let_def split: if_splits)
  moreover have "end_mark key \<noteq> []" by (simp add: end_mark_def)
  ultimately show ?thesis
    by (auto simp: clean_def key_ok_def list_all_iff dest: split_at_sub_clean set_takeWhileD)
qed

lemma find_blocks_clean: "(k, c) \<in> set (find_blocks s) \<Longrightarrow> key_ok k \<and> clean k c"
proof (induction s rule: find_blocks.induct)
  case (1 s)
  show ?case
  proof (cases "match_block s")
    case None
    with 1(3) obtain d ds where s: "s = d # ds" and "(k, c) \<in> set (find_blocks ds)"
      by (cases s) (auto simp: find_blocks_Nil find_blocks.simps [of "_ # _"])
    then show ?thesis using 1(1) [OF None s] by simp
  next
    case (Some m)
    obtain k' c' rest where m: "match_block s = Some (k', c', rest)"
      using Some by (cases m) auto
    with 1(3) have "(k, c) = (k', c') \<or> (k, c) \<in> set (find_blocks rest)"
      by (simp add: find_blocks.simps [of s])
    then show ?thesis using match_block_clean [OF m] 1(2) [OF m refl refl] by auto
  qed
qed

lemma newline_clean: "clean k ''\<newline>''"
proof -
  have "take (length (end_mark k)) (''\<newline>'' @ end_mark k) \<noteq> end_mark k"
    by (simp add: end_mark_def)
  moreover have "split_at_sub (end_mark k) (end_mark k) = Some ([], [])"
    by (subst split_at_sub.simps) simp
  ultimately show ?thesis by (simp add: clean_def split_at_sub_Cons)
qed

lemma blocks_of_clean: "clean k (block_content (blocks_of s) k)"
  unfolding block_content_def blocks_of_def map_of_foldl_update
  by (auto split: option.splits dest!: map_of_SomeD intro: newline_clean
      dest: find_blocks_clean)

lemma extract_clean: "clean k (block_content (extract_user_code fs p) k)"
  by (auto simp: extract_user_code_def blocks_of_clean newline_clean block_content_def [of "[]"]
      split: option.splits)

text \<open>Blocks are pieces of the text they are found in.\<close>

lemma match_block_parts:
  assumes "match_block s = Some (key, code, rest)"
  shows "set code \<subseteq> set s \<and> set rest \<subseteq> set s"
proof -
  let ?t = "drop (length MARK_SUFFIX) (dropWhile is_word (drop (length BEGIN_PREFIX) s))"
  from assms have "split_at_sub (end_mark key) ?t = Some (code, rest)"
    by (auto simp: match_block_def Let_def split: if_splits)
  then have "set code \<union> set rest \<subseteq> set ?t" by (auto dest: split_at_sub_Some)
  moreover have "set ?t \<subseteq> set s"
    by (auto dest!: in_set_dropD set_dropWhileD)
  ultimately show ?thesis by blast
qed

lemma find_blocks_parts: "(k, c) \<in> set (find_blocks s) \<Longrightarrow> set c \<subseteq> set s"
proof (induction s rule: find_blocks.induct)
  case (1 s)
  show ?case
  proof (cases "match_block s")
    case None
    with 1(3) obtain d ds where s: "s = d # ds" and "(k, c) \<in> set (find_blocks ds)"
      by (cases s) (auto simp: find_blocks_Nil find_blocks.simps [of "_ # _"])
    then show ?thesis using 1(1) [OF None s] by auto
  next
    case (Some m)
    obtain k' c' rest where m: "match_block s = Some (k', c', rest)"
      using Some by (cases m) auto
    with 1(3) have "(k, c) = (k', c') \<or> (k, c) \<in> set (find_blocks rest)"
      by (simp add: find_blocks.simps [of s])
    then show ?thesis using match_block_parts [OF m] 1(2) [OF m refl refl] by auto
  qed
qed

lemma blocks_of_no_cr: "no_cr s \<Longrightarrow> no_cr (block_content (blocks_of s) k)"
  unfolding block_content_def blocks_of_def map_of_foldl_update
  by (auto simp: no_cr_def split: option.splits dest!: map_of_SomeD dest: find_blocks_parts [THEN subsetD])

lemma extract_no_cr: "no_cr (block_content (extract_user_code fs p) k)"
  by (auto simp: extract_user_code_def read_text_def blocks_of_no_cr universal_newlines_no_cr
      block_content_def [of "[]"] no_cr_def [of "_ # _"] split: option.splits)

section \<open>Quiet text\<close>

lemma split_at_sub_None_append:
  assumes "split_at_sub pat s = None" and "split_at_sub pat t = None"
    and "s = [] \<or> last s \<notin> set pat" and "pat \<noteq> []"
  shows "split_at_sub pat (s @ t) = None"
  using assms
proof (induction s)
  case (Cons c cs)
  have "take (length pat) (c # cs) \<noteq> pat" and cs: "split_at_sub pat cs = None"
    using Cons.prems(1) by (auto simp: split_at_sub_Cons split: if_splits)
  then have "take (length pat) ((c # cs) @ t) \<noteq> pat"
    using take_pat_last [of pat "c # cs" t] Cons.prems(3) by auto
  moreover have "split_at_sub pat (cs @ t) = None"
    using Cons.IH [OF cs Cons.prems(2)] Cons.prems(3,4) by (auto split: if_splits)
  ultimately show ?case by (simp add: split_at_sub_Cons)
qed simp

lemma quiet_Nil [simp]: "quiet []"
  by (simp add: quiet_def split_at_sub_Nil BEGIN_PREFIX_def)

lemma quiet_append: "quiet s \<Longrightarrow> quiet t \<Longrightarrow> quiet (s @ t)"
  using BEGIN_PREFIX_line
  by (auto simp: quiet_def last_append BEGIN_PREFIX_def intro!: split_at_sub_None_append)

lemma quiet_concat: "list_all quiet ts \<Longrightarrow> quiet (concat ts)"
  by (induction ts) (auto intro: quiet_append)

lemma missing_char_no_sub: "c \<in> set pat \<Longrightarrow> c \<notin> set s \<Longrightarrow> split_at_sub pat s = None"
proof (induction s)
  case Nil
  then have "pat \<noteq> []" by auto
  then show ?case by (rule split_at_sub_Nil)
next
  case (Cons d s)
  have "take (length pat) (d # s) \<noteq> pat"
    using Cons.prems by (metis in_set_takeD)
  with Cons show ?case by (simp add: split_at_sub_Cons)
qed

text \<open>A line without a slash, or without a star, cannot hold a mark.\<close>

lemma quiet_lineI:
  assumes "CHR ''/'' \<notin> set s \<or> CHR ''*'' \<notin> set s \<or> CHR ''B'' \<notin> set s"
  shows "quiet (s @ [CHR 0x0A])"
proof -
  have "split_at_sub BEGIN_PREFIX (s @ [CHR 0x0A]) = None"
    using assms
    by (auto intro: missing_char_no_sub [of "CHR ''/''"] missing_char_no_sub [of "CHR ''*''"]
        missing_char_no_sub [of "CHR ''B''"] simp: BEGIN_PREFIX_def)
  then show ?thesis by (simp add: quiet_def)
qed

end
