(* ===== verification/PyVal.thy ===== *)
theory PyVal
  imports PyStr
begin

text \<open>
  The Python values \<open>yaml.safe_load\<close> can return and the operations the generator
  applies to them: \<open>.get\<close>, subscripts, membership, item assignment, truth value,
  \<open>isinstance\<close> tests, \<open>str()\<close> and \<open>repr()\<close>. A dict is its list of items in
  insertion order. A float carries the text of its \<open>repr\<close>; no code path compares it
  with an integer.
\<close>

section \<open>Values\<close>

datatype pyval =
    PNone
  | PBool bool
  | PInt int
  | PFloat string
  | PStr string
  | PList "pyval list"
  | PDict "(pyval \<times> pyval) list"

type_synonym items = "(pyval \<times> pyval) list"

abbreviation K :: "string \<Rightarrow> pyval" where "K \<equiv> PStr"

fun is_str :: "pyval \<Rightarrow> bool" where "is_str (PStr _) = True" | "is_str _ = False"
fun is_list :: "pyval \<Rightarrow> bool" where "is_list (PList _) = True" | "is_list _ = False"
fun is_dict :: "pyval \<Rightarrow> bool" where "is_dict (PDict _) = True" | "is_dict _ = False"
fun is_bool :: "pyval \<Rightarrow> bool" where "is_bool (PBool _) = True" | "is_bool _ = False"

text \<open>\<open>isinstance(v, int)\<close>: in Python \<open>bool\<close> is a subclass of \<open>int\<close>.\<close>

fun as_int :: "pyval \<Rightarrow> int option" where
  "as_int (PInt i) = Some i"
| "as_int (PBool b) = Some (of_bool b)"
| "as_int _ = None"

definition is_int :: "pyval \<Rightarrow> bool" where "is_int v \<longleftrightarrow> as_int v \<noteq> None"

text \<open>\<open>isinstance(v, int) and not isinstance(v, bool)\<close>, the guard of every integer option.\<close>

fun strict_int :: "pyval \<Rightarrow> int option" where
  "strict_int (PInt i) = Some i"
| "strict_int _ = None"

fun truthy :: "pyval \<Rightarrow> bool" where
  "truthy PNone = False"
| "truthy (PBool b) = b"
| "truthy (PInt i) = (i \<noteq> 0)"
| "truthy (PFloat r) = (r \<noteq> ''0.0'' \<and> r \<noteq> ''-0.0'')"
| "truthy (PStr s) = (s \<noteq> [])"
| "truthy (PList xs) = (xs \<noteq> [])"
| "truthy (PDict kvs) = (kvs \<noteq> [])"

fun hashable :: "pyval \<Rightarrow> bool" where
  "hashable (PList _) = False"
| "hashable (PDict _) = False"
| "hashable _ = True"

section \<open>Dicts\<close>

text \<open>Keys that compare equal in Python: \<open>True == 1\<close> and \<open>False == 0\<close>.\<close>

fun norm_key :: "pyval \<Rightarrow> pyval" where
  "norm_key (PBool b) = PInt (of_bool b)"
| "norm_key v = v"

fun dict_find :: "items \<Rightarrow> pyval \<Rightarrow> pyval option" where
  "dict_find [] k = None"
| "dict_find ((k', v) # kvs) k = (if norm_key k' = norm_key k then Some v else dict_find kvs k)"

fun dict_set :: "items \<Rightarrow> pyval \<Rightarrow> pyval \<Rightarrow> items" where      \<comment> \<open>\<open>d[k] = v\<close>\<close>
  "dict_set [] k v = [(k, v)]"
| "dict_set ((k', v') # kvs) k v =
     (if norm_key k' = norm_key k then (k', v) # kvs else (k', v') # dict_set kvs k v)"

definition dget :: "items \<Rightarrow> string \<Rightarrow> pyval \<Rightarrow> pyval" where  \<comment> \<open>\<open>d.get(k, default)\<close>\<close>
  "dget d k dflt = (case dict_find d (K k) of None \<Rightarrow> dflt | Some v \<Rightarrow> v)"

definition dhas :: "items \<Rightarrow> string \<Rightarrow> bool" where            \<comment> \<open>\<open>k in d\<close>\<close>
  "dhas d k \<longleftrightarrow> dict_find d (K k) \<noteq> None"

text \<open>The same operations on a value that may not be a dict.\<close>

fun py_get :: "pyval \<Rightarrow> string \<Rightarrow> pyval \<Rightarrow> pyval res" where   \<comment> \<open>\<open>v.get(k, default)\<close>\<close>
  "py_get (PDict d) k dflt = Inr (dget d k dflt)"
| "py_get _ k dflt = Inl AttributeError"

fun py_item :: "pyval \<Rightarrow> string \<Rightarrow> pyval res" where           \<comment> \<open>\<open>v['k']\<close>\<close>
  "py_item (PDict d) k =
     (case dict_find d (K k) of None \<Rightarrow> Inl (KeyError k) | Some v \<Rightarrow> Inr v)"
| "py_item _ k = Inl TypeError"

fun py_iter :: "pyval \<Rightarrow> pyval list res" where              \<comment> \<open>\<open>for x in v\<close>\<close>
  "py_iter (PList xs) = Inr xs"
| "py_iter (PDict d) = Inr (map fst d)"
| "py_iter (PStr s) = Inr (map (\<lambda>c. PStr [c]) s)"
| "py_iter _ = Inl TypeError"

lemma dict_find_set_same [simp]: "dict_find (dict_set d k v) k = Some v"
  by (induction d k v rule: dict_set.induct) auto

lemma dict_find_set_other:
  "norm_key k \<noteq> norm_key k' \<Longrightarrow> dict_find (dict_set d k v) k' = dict_find d k'"
  by (induction d k v rule: dict_set.induct) auto

lemma dget_set:
  "dget (dict_set d (K k) v) k' dflt = (if k = k' then v else dget d k' dflt)"
  by (auto simp: dget_def dict_find_set_other)

lemma dhas_set: "dhas (dict_set d (K k) v) k' \<longleftrightarrow> k = k' \<or> dhas d k'"
  by (cases "k = k'") (auto simp: dhas_def dict_find_set_other)

lemma dict_find_set_str:
  "dict_find (dict_set d (K k) v) (K k') = (if k = k' then Some v else dict_find d (K k'))"
  by (auto simp: dict_find_set_other)

lemma py_item_eq_Inr: "py_item v k = Inr x \<longleftrightarrow> (\<exists>d. v = PDict d \<and> dict_find d (K k) = Some x)"
  by (cases v) (auto split: option.splits)

lemma py_get_eq_Inr: "py_get v k c = Inr x \<longleftrightarrow> (\<exists>d. v = PDict d \<and> dget d k c = x)"
  by (cases v) auto

lemma dget_find: "dict_find d (K k) = Some v \<Longrightarrow> dget d k c = v"
  by (simp add: dget_def)

lemma dget_not_None: "dget d k PNone \<noteq> PNone \<Longrightarrow> dict_find d (K k) = Some (dget d k PNone)"
  by (auto simp: dget_def split: option.splits)

text \<open>
  The mapping contract the rest of the generator relies on: what a lookup returns after an
  item assignment. Stated once for any representation, and discharged for item lists.
\<close>

locale py_mapping =
  fixes find :: "'d \<Rightarrow> 'k \<Rightarrow> 'v option"
    and put :: "'d \<Rightarrow> 'k \<Rightarrow> 'v \<Rightarrow> 'd"
  assumes find_put_same: "find (put d k v) k = Some v"
    and find_put_other: "k \<noteq> k' \<Longrightarrow> find (put d k v) k' = find d k'"
begin

lemma find_put: "find (put d k v) k' = (if k = k' then Some v else find d k')"
  by (simp add: find_put_same find_put_other)

lemma put_twice: "find (put (put d k v) k w) k' = find (put d k w) k'"
  by (simp add: find_put)

lemma put_commute:
  "k1 \<noteq> k2 \<Longrightarrow> find (put (put d k1 v1) k2 v2) k' = find (put (put d k2 v2) k1 v1) k'"
  by (auto simp: find_put)

text \<open>A loop of assignments: the last write to a key wins, other keys are untouched.\<close>

lemma find_fold_put:
  "find (foldl (\<lambda>d (k, v). put d k v) d kvs) k =
     (case map_of (rev kvs) k of None \<Rightarrow> find d k | Some v \<Rightarrow> Some v)"
  by (induction kvs arbitrary: d)
    (auto simp: find_put map_add_def split: option.splits)

end

interpretation sd: py_mapping "\<lambda>d k. dict_find d (K k)" "\<lambda>d k. dict_set d (K k)"
  by unfold_locales (auto simp: dict_find_set_other)

section \<open>Text of a value\<close>

text \<open>\<open>repr\<close> of a string: single quotes unless it holds one and no double quote.\<close>

definition repr_char :: "char \<Rightarrow> char \<Rightarrow> string" where
  "repr_char q c =
     (let n = (of_char c :: nat) in
      if c = q \<or> c = CHR 0x5C then [CHR 0x5C, c]
      else if n = 10 then [CHR 0x5C, CHR ''n'']
      else if n = 13 then [CHR 0x5C, CHR ''r'']
      else if n = 9 then [CHR 0x5C, CHR ''t'']
      else if n < 32 \<or> n = 127 then
        CHR 0x5C # CHR ''x'' # [hex_digit False (n div 16), hex_digit False (n mod 16)]
      else [c])"

definition py_repr_str :: "string \<Rightarrow> string" where
  "py_repr_str s =
     (let q = (if CHR 0x27 \<in> set s \<and> CHR 0x22 \<notin> set s then CHR 0x22 else CHR 0x27)
      in q # concat (map (repr_char q) s) @ [q])"

fun py_repr :: "pyval \<Rightarrow> string" where
  "py_repr PNone = ''None''"
| "py_repr (PBool b) = (if b then ''True'' else ''False'')"
| "py_repr (PInt i) = int_str i"
| "py_repr (PFloat r) = r"
| "py_repr (PStr s) = py_repr_str s"
| "py_repr (PList xs) = ''['' @ join '', '' (map py_repr xs) @ '']''"
| "py_repr (PDict kvs) =
     ''{'' @ join '', '' (map (\<lambda>(k, v). py_repr k @ '': '' @ py_repr v) kvs) @ ''}''"

fun py_str :: "pyval \<Rightarrow> string" where
  "py_str (PStr s) = s"
| "py_str v = py_repr v"

lemma py_str_int [simp]: "py_str (PInt i) = int_str i"
  by simp

end
