(* ===== verification/Schema.thy ===== *)
theory Schema
  imports PyVal "HOL-Library.List_Lexorder"
begin

text \<open>
  The message schema of \<open>scripts/codegen.py\<close>: supported C types and their sizes, the
  three built-in system messages, reserved identifiers, the merge of business and system
  messages by ID, and the payload sizes. Messages are raw Python dicts here, as in the
  code: every access may raise.
\<close>

section \<open>Tables\<close>

definition C_TYPE_SIZES :: "(string \<times> int) list" where
  "C_TYPE_SIZES =
    [(''uint8_t'', 1), (''uint16_t'', 2), (''uint32_t'', 4), (''int32_t'', 4), (''float'', 4)]"

definition msg_Ack :: pyval where
  "msg_Ack = PDict
      [(K ''name'', PStr ''Ack''), (K ''id'', PInt 0xFD), (K ''direction'', PStr ''both''),
       (K ''debug_log_mode'', PStr ''off''),
       (K ''notes'', PStr (utf8 [0x6846, 0x67B6, 0x5185, 0x7F6E, 0xFF1A, 0x53EF, 0x9760, 0x6D88, 0x606F, 0x7684, 0x786E, 0x8BA4, 0x5305, 0xFF0C, 0x7531, 0x534F, 0x8BAE, 0x5C42, 0x81EA, 0x52A8, 0x6536, 0x53D1, 0x3002])),
       (K ''fields'', PList
       [PDict [(K ''proto'', PStr ''acked_id''), (K ''type'', PStr ''uint8_t'')],
        PDict [(K ''proto'', PStr ''ack_seq''), (K ''type'', PStr ''uint8_t'')]])]"

definition msg_Heartbeat :: pyval where
  "msg_Heartbeat = PDict
      [(K ''name'', PStr ''Heartbeat''), (K ''id'', PInt 0xFE), (K ''direction'', PStr ''both''),
       (K ''debug_log_mode'', PStr ''off''),
       (K ''notes'', PStr (utf8 [0x6846, 0x67B6, 0x5185, 0x7F6E, 0xFF1A, 0x5FC3, 0x8DF3, 0x5305, 0xFF0C, 0x5BF9, 0x7AEF, 0x539F, 0x6837, 0x56DE, 0x4F20] @ '' count'' @ utf8 [0x3002])),
       (K ''fields'', PList
       [PDict [(K ''proto'', PStr ''count''), (K ''type'', PStr ''uint32_t'')]])]"

definition msg_Handshake :: pyval where
  "msg_Handshake = PDict
      [(K ''name'', PStr ''Handshake''), (K ''id'', PInt 0xFF), (K ''direction'', PStr ''both''),
       (K ''debug_log_mode'', PStr ''off''),
       (K ''notes'', PStr (utf8 [0x6846, 0x67B6, 0x5185, 0x7F6E, 0xFF1A, 0x63E1, 0x624B, 0x5305, 0xFF0C, 0x643A, 0x5E26, 0x534F, 0x8BAE, 0x54C8, 0x5E0C, 0x3002])),
       (K ''fields'', PList
       [PDict [(K ''proto'', PStr ''protocol_hash''), (K ''type'', PStr ''uint32_t'')]])]"

definition SYSTEM_MESSAGES :: "pyval list" where
  "SYSTEM_MESSAGES = [msg_Ack, msg_Heartbeat, msg_Handshake]"

text \<open>\<open>{message['name'] for \<dots>}\<close> and \<open>{message['id']: message['name'] for \<dots>}\<close>.\<close>

definition str_item :: "string \<Rightarrow> pyval \<Rightarrow> string" where
  "str_item k m = (case py_item m k of Inr (PStr s) \<Rightarrow> s | _ \<Rightarrow> [])"

definition int_item :: "string \<Rightarrow> pyval \<Rightarrow> int" where
  "int_item k m = (case py_item m k of Inr v \<Rightarrow> (case as_int v of Some i \<Rightarrow> i | None \<Rightarrow> 0) | _ \<Rightarrow> 0)"

definition SYSTEM_MESSAGE_NAMES :: "string list" where
  "SYSTEM_MESSAGE_NAMES = map (str_item ''name'') SYSTEM_MESSAGES"

definition RESERVED_IDS :: "(int \<times> string) list" where
  "RESERVED_IDS = map (\<lambda>m. (int_item ''id'' m, str_item ''name'' m)) SYSTEM_MESSAGES"

definition C_CPP_KEYWORDS :: "string list" where
  "C_CPP_KEYWORDS =
    [''_Alignas'', ''_Alignof'', ''_Atomic'', ''_Bool'', ''_Complex'', ''_Generic'',
     ''_Imaginary'', ''_Noreturn'', ''_Static_assert'', ''_Thread_local'', ''alignas'',
     ''alignof'', ''and'', ''and_eq'', ''asm'', ''auto'', ''bitand'', ''bitor'', ''bool'',
     ''break'', ''case'', ''catch'', ''char'', ''char16_t'', ''char32_t'', ''class'',
     ''compl'', ''concept'', ''const'', ''constexpr'', ''const_cast'', ''continue'',
     ''co_await'', ''co_return'', ''co_yield'', ''decltype'', ''default'', ''delete'',
     ''do'', ''double'', ''dynamic_cast'', ''else'', ''enum'', ''explicit'', ''export'',
     ''extern'', ''false'', ''float'', ''for'', ''friend'', ''goto'', ''if'', ''inline'',
     ''int'', ''long'', ''mutable'', ''namespace'', ''new'', ''noexcept'', ''not'',
     ''not_eq'', ''nullptr'', ''operator'', ''or'', ''or_eq'', ''private'', ''protected'',
     ''public'', ''register'', ''reinterpret_cast'', ''requires'', ''restrict'', ''return'',
     ''short'', ''signed'', ''sizeof'', ''static'', ''static_assert'', ''static_cast'',
     ''struct'', ''switch'', ''template'', ''this'', ''thread_local'', ''throw'', ''true'',
     ''try'', ''typedef'', ''typeid'', ''typename'', ''union'', ''unsigned'', ''using'',
     ''virtual'', ''void'', ''volatile'', ''wchar_t'', ''while'', ''xor'', ''xor_eq'']"

definition is_reserved_c_cpp_identifier :: "string \<Rightarrow> bool" where
  "is_reserved_c_cpp_identifier name \<longleftrightarrow>
     List.member C_CPP_KEYWORDS name \<or> take 2 name = ''__'' \<or>
     (1 < length name \<and> name ! 0 = CHR ''_'' \<and> is_upper (name ! 1))"

lemmas system_message_defs = msg_Ack_def msg_Heartbeat_def msg_Handshake_def

lemma SYSTEM_MESSAGE_NAMES_eq: "SYSTEM_MESSAGE_NAMES = [''Ack'', ''Heartbeat'', ''Handshake'']"
  by (simp add: SYSTEM_MESSAGE_NAMES_def SYSTEM_MESSAGES_def str_item_def system_message_defs)

lemma RESERVED_IDS_eq:
  "RESERVED_IDS = [(253, ''Ack''), (254, ''Heartbeat''), (255, ''Handshake'')]"
  by (simp add: RESERVED_IDS_def SYSTEM_MESSAGES_def str_item_def int_item_def system_message_defs)

section \<open>Types and sizes\<close>

definition get_c_type :: "pyval \<Rightarrow> pyval \<Rightarrow> pyval res" where
  "get_c_type yaml_type type_mappings =
     (case type_mappings of
        PDict d \<Rightarrow>
          if hashable yaml_type
          then Inr (case dict_find d yaml_type of None \<Rightarrow> yaml_type | Some c \<Rightarrow> c)
          else Inl TypeError
      | _ \<Rightarrow> Inl AttributeError)"

definition c_type_size :: "pyval \<Rightarrow> int res" where   \<comment> \<open>\<open>_C_TYPE_SIZES.get(c_type, 1)\<close>\<close>
  "c_type_size c =
     (if hashable c
      then Inr (case c of
                  PStr s \<Rightarrow> (case map_of C_TYPE_SIZES s of None \<Rightarrow> 1 | Some n \<Rightarrow> n)
                | _ \<Rightarrow> 1)
      else Inl TypeError)"

definition field_size :: "pyval \<Rightarrow> pyval \<Rightarrow> int res" where
  "field_size type_mappings field =
     bindE (py_item field ''type'') (\<lambda>t. bindE (get_c_type t type_mappings) c_type_size)"

definition message_payload_size :: "pyval \<Rightarrow> pyval \<Rightarrow> int res" where
  "message_payload_size message type_mappings =
     bindE (py_item message ''fields'') (\<lambda>v.
     bindE (py_iter v) (\<lambda>fields.
     bindE (mapE (field_size type_mappings) fields) (\<lambda>ns. Inr (sum_list ns))))"

definition message_wire_payload_size :: "pyval \<Rightarrow> pyval \<Rightarrow> int res" where
  "message_wire_payload_size message type_mappings =
     bindE (message_payload_size message type_mappings) (\<lambda>base_size.
     bindE (py_get message ''reliable'' (PBool False)) (\<lambda>r.
     Inr (if truthy r then base_size + 1 else base_size)))"

section \<open>Merging business and system messages\<close>

text \<open>\<open>sorted(ms, key=lambda m: m['id'])\<close>: stable, and a \<open>TypeError\<close> on a non-integer ID.\<close>

definition sort_by_id :: "pyval list \<Rightarrow> pyval list res" where
  "sort_by_id ms =
     bindE (mapE (\<lambda>m. py_item m ''id'') ms) (\<lambda>ks.
     case those (map as_int ks) of
       None \<Rightarrow> Inl TypeError
     | Some ids \<Rightarrow> Inr (map snd (sort_key fst (zip ids ms))))"

definition merge_messages :: "pyval \<Rightarrow> pyval list res" where
  "merge_messages config_data =
     bindE (py_get config_data ''messages'' (PList [])) (\<lambda>v.
     bindE (if truthy v then py_iter v else Inr []) (\<lambda>business.
     sort_by_id (business @ SYSTEM_MESSAGES)))"

text \<open>The package of one entry; entries that are not dicts or name no type are skipped.\<close>

definition ros_package :: "pyval \<Rightarrow> string list" where
  "ros_package m =
     (case m of
        PDict d \<Rightarrow> (case dget d ''ros_msg'' PNone of
            PStr r \<Rightarrow> [takeWhile (\<lambda>c. c \<noteq> CHR ''/'') r]
          | _ \<Rightarrow> [])
      | _ \<Rightarrow> [])"

definition ros_message_packages :: "pyval \<Rightarrow> string list res" where
  "ros_message_packages config_data =
     bindE (py_get config_data ''messages'' (PList [])) (\<lambda>v.
     bindE (if truthy v then py_iter v else Inr []) (\<lambda>messages.
     Inr (sorted_list_of_set (set (concat (map ros_package messages))))))"

text \<open>What a message needs for the merge: a dict with an integer ID.\<close>

definition has_id :: "pyval \<Rightarrow> bool" where
  "has_id m \<longleftrightarrow> (\<exists>v. py_item m ''id'' = Inr v \<and> as_int v \<noteq> None)"

abbreviation msg_id :: "pyval \<Rightarrow> int" where "msg_id \<equiv> int_item ''id''"

lemma has_id_item: "has_id m \<Longrightarrow> \<exists>v. py_item m ''id'' = Inr v \<and> as_int v = Some (msg_id m)"
  by (auto simp: has_id_def int_item_def)

lemma system_has_id: "m \<in> set SYSTEM_MESSAGES \<Longrightarrow> has_id m"
  by (auto simp: SYSTEM_MESSAGES_def system_message_defs has_id_def)

lemma those_map_Some: "those (map (\<lambda>x. Some (f x)) xs) = Some (map f xs)"
  by (induction xs) auto

lemma insort_key_map: "insort_key f (g x) (map g xs) = map g (insort_key (\<lambda>x. f (g x)) x xs)"
  by (induction xs) auto

lemma sort_key_map: "sort_key f (map g xs) = map g (sort_key (\<lambda>x. f (g x)) xs)"
  by (induction xs) (auto simp: insort_key_map)

lemma sort_by_id_ok:
  assumes "\<forall>m \<in> set ms. has_id m"
  shows "sort_by_id ms = Inr (sort_key msg_id ms)"
proof -
  have "\<forall>m \<in> set ms. \<exists>v. py_item m ''id'' = Inr v \<and> as_int v = Some (msg_id m)"
    using assms has_id_item by blast
  then obtain g where
    g: "\<forall>m \<in> set ms. py_item m ''id'' = Inr (g m) \<and> as_int (g m) = Some (msg_id m)"
    by (rule bchoice [THEN exE])
  have "mapE (\<lambda>m. py_item m ''id'') ms = Inr (map g ms)"
    by (intro mapE_Inr) (use g in auto)
  moreover have "map as_int (map g ms) = map (\<lambda>m. Some (msg_id m)) ms"
    using g by simp
  then have "those (map as_int (map g ms)) = Some (map msg_id ms)"
    by (simp only: those_map_Some)
  moreover have "zip (map msg_id ms) ms = map (\<lambda>m. (msg_id m, m)) ms"
    by (induction ms) auto
  moreover have "map snd (sort_key fst (map (\<lambda>m. (msg_id m, m)) ms)) = sort_key msg_id ms"
    by (simp add: sort_key_map comp_def)
  ultimately show ?thesis
    by (simp only: sort_by_id_def bindE.simps option.case)
qed

lemma merge_messages_eq:
  assumes "py_get cd ''messages'' (PList []) = Inr (PList ms)" and "\<forall>m \<in> set ms. has_id m"
  shows "merge_messages cd = Inr (sort_key msg_id (ms @ SYSTEM_MESSAGES))"
proof -
  have "\<forall>m \<in> set (ms @ SYSTEM_MESSAGES). has_id m"
    using assms(2) system_has_id by auto
  then show ?thesis
    using assms(1) by (auto simp: merge_messages_def sort_by_id_ok)
qed

text \<open>The sizes of the supported C types; anything else counts one byte.\<close>

lemma c_type_size_pos: "c_type_size c = Inr n \<Longrightarrow> 1 \<le> n \<and> n \<le> 4"
  by (auto simp: c_type_size_def C_TYPE_SIZES_def split: if_splits pyval.splits)

lemma field_size_pos: "field_size tm f = Inr n \<Longrightarrow> 1 \<le> n \<and> n \<le> 4"
  by (auto simp: field_size_def bindE_eq_Inr dest: c_type_size_pos)

lemma message_payload_size_bounds:
  assumes "py_item m ''fields'' = Inr (PList fs)" and "message_payload_size m tm = Inr n"
  shows "int (length fs) \<le> n \<and> n \<le> 4 * int (length fs)"
proof -
  from assms obtain ns where ns: "mapE (field_size tm) fs = Inr ns" and n: "n = sum_list ns"
    by (auto simp: message_payload_size_def bindE_eq_Inr)
  have "\<forall>k \<in> set ns. 1 \<le> k \<and> k \<le> 4"
    using mapE_InrD2 [OF ns] field_size_pos by blast
  then have "int (length ns) \<le> sum_list ns \<and> sum_list ns \<le> 4 * int (length ns)"
    by (induction ns) auto
  with mapE_length [OF ns] n show ?thesis by simp
qed

lemma message_wire_payload_size_eq:
  assumes "message_wire_payload_size m tm = Inr w"
  obtains d n where "m = PDict d" and "message_payload_size m tm = Inr n"
    and "w = (if truthy (dget d ''reliable'' (PBool False)) then n + 1 else n)"
  using assms by (auto simp: message_wire_payload_size_def bindE_eq_Inr py_get_eq_Inr)

end
