(* ===== verification/Emit.thy ===== *)
theory Emit
  imports UserCode Schema
begin

text \<open>
  How the generators write text. A generator fills a \<open>StringIO\<close> with \<open>f.write\<close> calls and
  loops over messages and fields; every f-string evaluates its replacement fields from left to
  right and may raise. Here a call is \<open>wr\<close> of the pieces of its f-string, \<open>blk\<close> for a USER
  CODE block, and statements are put together by \<open>parts\<close>, \<open>each\<close> and \<open>ifE\<close>. The value of a
  generator is its list of segments, or the first exception.
\<close>

section \<open>Pieces of an f-string\<close>

type_synonym piece = "string res"
type_synonym blocks = "(string \<times> string) list"

definition T :: "string \<Rightarrow> piece" where "T s = Inr s"                     \<comment> \<open>literal text\<close>

definition V :: "pyval \<Rightarrow> piece" where "V v = Inr (py_str v)"             \<comment> \<open>\<open>{v}\<close>\<close>

definition item_str :: "pyval \<Rightarrow> string \<Rightarrow> piece" where                   \<comment> \<open>\<open>{m['k']}\<close>\<close>
  "item_str m k = bindE (py_item m k) (\<lambda>v. Inr (py_str v))"

definition upper_of :: "pyval \<Rightarrow> piece" where                             \<comment> \<open>\<open>v.upper()\<close>\<close>
  "upper_of v = (case v of PStr s \<Rightarrow> Inr (upper s) | _ \<Rightarrow> Inl AttributeError)"

definition item_upper :: "pyval \<Rightarrow> string \<Rightarrow> piece" where          \<comment> \<open>\<open>{m['k'].upper()}\<close>\<close>
  "item_upper m k = bindE (py_item m k) upper_of"

definition fmt_04x :: "pyval \<Rightarrow> piece" where                              \<comment> \<open>\<open>{v:#04x}\<close>\<close>
  "fmt_04x v = (case as_int v of
      Some i \<Rightarrow> Inr (hex_04x i)
    | None \<Rightarrow> Inl (case v of PStr _ \<Rightarrow> ValueError | PFloat _ \<Rightarrow> ValueError | _ \<Rightarrow> TypeError))"

definition item_eq :: "pyval \<Rightarrow> string \<Rightarrow> string \<Rightarrow> bool res" where        \<comment> \<open>\<open>m['k'] == s\<close>\<close>
  "item_eq m k s = bindE (py_item m k) (\<lambda>v. Inr (v = PStr s))"

definition get_true :: "pyval \<Rightarrow> string \<Rightarrow> pyval \<Rightarrow> bool res" where    \<comment> \<open>\<open>if m.get(k, d)\<close>\<close>
  "get_true m k dflt = bindE (py_get m k dflt) (\<lambda>v. Inr (truthy v))"

definition item_list :: "pyval \<Rightarrow> string \<Rightarrow> pyval list res" where     \<comment> \<open>\<open>for x in m['k']\<close>\<close>
  "item_list m k = bindE (py_item m k) py_iter"

section \<open>Statements\<close>

definition wr :: "piece list \<Rightarrow> seg list res" where                 \<comment> \<open>\<open>f.write(f"\<dots>")\<close>\<close>
  "wr ps = bindE (mapE (\<lambda>p. p) ps) (\<lambda>ss. Inr [Txt (concat ss)])"

definition blk :: "piece \<Rightarrow> seg list res" where    \<comment> \<open>\<open>f.write(render_block(user_blocks, key))\<close>\<close>
  "blk p = bindE p (\<lambda>key. Inr [Blk key])"

definition parts :: "seg list res list \<Rightarrow> seg list res" where        \<comment> \<open>statements in order\<close>
  "parts ps = bindE (mapE (\<lambda>p. p) ps) (\<lambda>sss. Inr (concat sss))"

definition each :: "('a \<Rightarrow> seg list res) \<Rightarrow> 'a list \<Rightarrow> seg list res" where    \<comment> \<open>a \<open>for\<close> loop\<close>
  "each body xs = bindE (mapE body xs) (\<lambda>sss. Inr (concat sss))"

definition ifE :: "bool res \<Rightarrow> 'a res \<Rightarrow> 'a res \<Rightarrow> 'a res" where
  "ifE c a b = bindE c (\<lambda>t. if t then a else b)"

definition andE :: "bool res \<Rightarrow> bool res \<Rightarrow> bool res" where          \<comment> \<open>\<open>a and b\<close>, short-circuit\<close>
  "andE a b = bindE a (\<lambda>t. if t then b else Inr False)"

abbreviation pass :: "seg list res" where "pass \<equiv> Inr []"

definition whenE :: "bool res \<Rightarrow> seg list res \<Rightarrow> seg list res" where
  "whenE c a = ifE c a pass"

section \<open>Evaluation when nothing raises\<close>

definition total :: "'a res \<Rightarrow> bool" where "total r \<longleftrightarrow> (\<exists>x. r = Inr x)"

lemma total_Inr [simp]: "total (Inr x)"
  by (simp add: total_def)

lemma total_T [simp]: "total (T s)"
  by (simp add: T_def)

lemma total_V [simp]: "total (V s)"
  by (simp add: V_def)

lemma total_bind: "total m \<Longrightarrow> (\<And>x. m = Inr x \<Longrightarrow> total (f x)) \<Longrightarrow> total (bindE m f)"
  by (auto simp: total_def)

lemma total_mapE [simp]: "total (mapE f xs) \<longleftrightarrow> (\<forall>x \<in> set xs. total (f x))"
proof (induction xs)
  case (Cons x xs)
  then show ?case by (auto simp: total_def bindE_eq_Inr)
qed (simp add: total_def)

lemma total_bind_Inr: "total (bindE m (\<lambda>x. Inr (f x))) \<longleftrightarrow> total m"
  by (cases m) (auto simp: total_def)

lemma total_wr [simp]: "total (wr ps) \<longleftrightarrow> list_all total ps"
  by (simp add: wr_def total_bind_Inr list_all_iff)

lemma total_parts [simp]: "total (parts ps) \<longleftrightarrow> list_all total ps"
  by (simp add: parts_def total_bind_Inr list_all_iff)

lemma total_each [simp]: "total (each body xs) \<longleftrightarrow> (\<forall>x \<in> set xs. total (body x))"
  by (simp add: each_def total_bind_Inr)

lemma total_ifE: "total c \<Longrightarrow> (c = Inr True \<Longrightarrow> total a) \<Longrightarrow> (c = Inr False \<Longrightarrow> total b) \<Longrightarrow> total (ifE c a b)"
  by (auto simp: ifE_def total_def)

lemma total_andE: "total a \<Longrightarrow> (a = Inr True \<Longrightarrow> total b) \<Longrightarrow> total (andE a b)"
  by (auto simp: andE_def total_def split: if_splits)

lemma total_whenE: "total c \<Longrightarrow> (c = Inr True \<Longrightarrow> total a) \<Longrightarrow> total (whenE c a)"
  unfolding whenE_def by (intro total_ifE total_Inr) auto

lemma total_blk [simp]: "total (blk p) \<longleftrightarrow> total p"
  by (simp add: blk_def total_bind_Inr)

section \<open>Texts without marks\<close>

text \<open>
  \<open>quiet_code r\<close>: the statement does not raise, and the text it writes is quiet and free
  of carriage returns (which reading in text mode would change).
  \<open>block_keys r\<close>: its USER CODE blocks in order.
\<close>

definition seg_quiet :: "seg \<Rightarrow> bool" where
  "seg_quiet sg = (case sg of Txt t \<Rightarrow> quiet t \<and> no_cr t | Blk k \<Rightarrow> key_ok k)"

definition quiet_code :: "seg list res \<Rightarrow> bool" where
  "quiet_code r \<longleftrightarrow> (\<exists>segs. r = Inr segs \<and> list_all seg_quiet segs)"

definition block_keys :: "seg list res \<Rightarrow> string list" where
  "block_keys r = (case r of Inr segs \<Rightarrow> seg_keys segs | Inl _ \<Rightarrow> [])"

lemma quiet_code_total: "quiet_code r \<Longrightarrow> total r"
  by (auto simp: quiet_code_def total_def)

lemma quiet_pass [simp]: "quiet_code pass" and keys_pass [simp]: "block_keys pass = []"
  by (simp_all add: quiet_code_def block_keys_def)

lemma quiet_blk [simp]: "quiet_code (blk p) \<longleftrightarrow> (\<exists>k. p = Inr k \<and> key_ok k)"
  and keys_blk: "p = Inr k \<Longrightarrow> block_keys (blk p) = [k]"
  and keys_blk_T [simp]: "block_keys (blk (T k)) = [k]"
  by (cases p; simp add: quiet_code_def blk_def seg_quiet_def)
    (simp_all add: block_keys_def blk_def T_def)

lemma quiet_parts [simp]: "quiet_code (parts ps) \<longleftrightarrow> list_all quiet_code ps"
proof (induction ps)
  case (Cons p ps)
  then show ?case by (auto simp: quiet_code_def parts_def bindE_eq_Inr)
qed (simp add: quiet_code_def parts_def)

lemma keys_parts:
  "list_all quiet_code ps \<Longrightarrow> block_keys (parts ps) = concat (map block_keys ps)"
proof (induction ps)
  case (Cons p ps)
  then have "total (parts ps)" by (auto simp: list_all_iff intro: quiet_code_total)
  with Cons show ?case
    by (auto simp: quiet_code_def block_keys_def parts_def total_def bindE_eq_Inr)
qed (simp add: block_keys_def parts_def)

lemma quiet_each [simp]: "quiet_code (each body xs) \<longleftrightarrow> (\<forall>x \<in> set xs. quiet_code (body x))"
proof (induction xs)
  case (Cons x xs)
  then show ?case by (auto simp: quiet_code_def each_def bindE_eq_Inr)
qed (simp add: quiet_code_def each_def)

lemma keys_each:
  "\<forall>x \<in> set xs. quiet_code (body x) \<Longrightarrow> block_keys (each body xs) = concat (map (\<lambda>x. block_keys (body x)) xs)"
proof (induction xs)
  case (Cons x xs)
  then have "total (each body xs)" by (auto intro: quiet_code_total)
  with Cons show ?case
    by (auto simp: quiet_code_def block_keys_def each_def total_def bindE_eq_Inr)
qed (simp add: block_keys_def each_def)

lemma keys_wr [simp]: "block_keys (wr ps) = []"
  by (cases "mapE (\<lambda>p. p) ps") (simp_all add: block_keys_def wr_def)

lemma quiet_ifE: "total c \<Longrightarrow> quiet_code a \<Longrightarrow> quiet_code b \<Longrightarrow> quiet_code (ifE c a b)"
  by (auto simp: ifE_def total_def)

lemma quiet_whenE: "total c \<Longrightarrow> quiet_code a \<Longrightarrow> quiet_code (whenE c a)"
  by (simp add: whenE_def quiet_ifE)

lemma keys_bind_Nil: "(\<And>x. block_keys (f x) = []) \<Longrightarrow> block_keys (bindE m f) = []"
  by (cases m) (simp_all add: block_keys_def)

lemma keys_each_Nil: "(\<And>x. block_keys (body x) = []) \<Longrightarrow> block_keys (each body xs) = []"
proof (induction xs)
  case (Cons x xs)
  then have "block_keys (each body xs) = []" and "block_keys (body x) = []" by simp_all
  then show ?case
    by (cases "body x"; cases "mapE body xs") (simp_all add: block_keys_def each_def)
qed (simp add: block_keys_def each_def)

lemma keys_parts_Nil: "list_all (\<lambda>p. block_keys p = []) ps \<Longrightarrow> block_keys (parts ps) = []"
proof (induction ps)
  case (Cons p ps)
  then have "block_keys (parts ps) = []" and "block_keys p = []" by simp_all
  then show ?case
    by (cases p; cases "mapE (\<lambda>p. p) ps") (simp_all add: block_keys_def parts_def)
qed (simp add: block_keys_def parts_def)

lemma keys_ifE: "block_keys a = [] \<Longrightarrow> block_keys b = [] \<Longrightarrow> block_keys (ifE c a b) = []"
  by (cases c) (auto simp: ifE_def block_keys_def)

lemma keys_whenE: "block_keys a = [] \<Longrightarrow> block_keys (whenE c a) = []"
  by (simp add: whenE_def keys_ifE)

text \<open>One character of the begin mark that a text lacks.\<close>

definition piece_free :: "char \<Rightarrow> piece \<Rightarrow> bool" where
  "piece_free c p \<longleftrightarrow> (\<exists>s. p = Inr s \<and> c \<notin> set s)"

definition ends_line :: "piece \<Rightarrow> bool" where
  "ends_line p \<longleftrightarrow> (\<exists>s. p = Inr s \<and> s \<noteq> [] \<and> last s = CHR 0x0A)"

lemma piece_free_T [simp]: "piece_free c (T s) \<longleftrightarrow> c \<notin> set s"
  by (simp add: piece_free_def T_def)

lemma ends_line_T [simp]: "ends_line (T s) \<longleftrightarrow> s \<noteq> [] \<and> last s = CHR 0x0A"
  by (simp add: ends_line_def T_def)

lemma quiet_wr:
  assumes "list_all (piece_free c) ps" and "ps \<noteq> []" and "ends_line (last ps)"
    and "c \<in> set BEGIN_PREFIX" and "list_all (piece_free CHR 0x0D) ps"
  shows "quiet_code (wr ps)"
proof -
  have "\<exists>ss. mapE (\<lambda>p. p) ps = Inr ss \<and> c \<notin> set (concat ss) \<and> concat ss \<noteq> [] \<and>
      last (concat ss) = CHR 0x0A \<and> no_cr (concat ss)"
    using assms(1-3,5)
  proof (induction ps)
    case (Cons p ps)
    from Cons.prems(1,4) obtain s where s: "p = Inr s" "c \<notin> set s" "no_cr s"
      by (auto simp: piece_free_def no_cr_def)
    show ?case
    proof (cases "ps = []")
      case True
      with s Cons.prems(3) show ?thesis by (auto simp: ends_line_def)
    next
      case False
      with Cons obtain ss where "mapE (\<lambda>p. p) ps = Inr ss" "c \<notin> set (concat ss)"
        "concat ss \<noteq> []" "last (concat ss) = CHR 0x0A" "no_cr (concat ss)" by auto
      with s show ?thesis by (auto simp: last_append no_cr_def)
    qed
  qed simp
  then obtain ss where ss: "mapE (\<lambda>p. p) ps = Inr ss" "c \<notin> set (concat ss)" "concat ss \<noteq> []"
    "last (concat ss) = CHR 0x0A" "no_cr (concat ss)" by blast
  then have "quiet (concat ss)"
    unfolding quiet_def using missing_char_no_sub [OF assms(4) ss(2)] by blast
  with ss(1,5) show ?thesis by (simp add: quiet_code_def wr_def seg_quiet_def)
qed

lemmas no_keys = keys_bind_Nil keys_each_Nil keys_parts_Nil keys_ifE keys_whenE

section \<open>Writing the file\<close>

definition write_segments :: "fs \<Rightarrow> string \<Rightarrow> blocks \<Rightarrow> seg list \<Rightarrow> fs" where
  "write_segments fs output_path user_blocks segs =
     write_generated_file fs output_path (render user_blocks segs)"

text \<open>
  The main fact about regeneration: when the texts of a generator are quiet, the blocks read
  back from its output are the blocks it was given, for every key it renders.
\<close>

lemma quiet_seg_ok:
  assumes "quiet_code (Inr segs)" and "\<And>k. clean k (block_content b k)"
  shows "list_all (seg_ok b) segs"
  using assms by (auto simp: quiet_code_def list_all_iff seg_quiet_def seg_ok_def split: seg.splits)

lemma quiet_round_trip:
  assumes "quiet_code (Inr segs)" and "\<And>k. clean k (block_content b k)"
    and "k \<in> set (block_keys (Inr segs))"
  shows "map_of (blocks_of (render b segs)) k = Some (block_content b k)"
  using blocks_of_render [OF quiet_seg_ok [OF assms(1,2)], of k] assms(3)
  by (simp add: block_keys_def)

lemma quiet_fixpoint:
  assumes "quiet_code (Inr segs)" and "\<And>k. clean k (block_content b k)"
  shows "render (blocks_of (render b segs)) segs = render b segs"
  by (rule render_fixpoint [OF quiet_seg_ok [OF assms]])

lemma no_cr_append [simp]: "no_cr (s @ t) \<longleftrightarrow> no_cr s \<and> no_cr t"
  by (auto simp: no_cr_def)

lemma render_no_cr:
  assumes "quiet_code (Inr segs)" and "\<And>k. no_cr (block_content b k)"
  shows "no_cr (render b segs)"
proof -
  have "no_cr (render_seg b sg)" if "sg \<in> set segs" for sg
  proof (cases sg)
    case (Txt t)
    with assms(1) that show ?thesis by (auto simp: quiet_code_def list_all_iff seg_quiet_def)
  next
    case (Blk k)
    with assms(1) that have "list_all is_word k"
      by (auto simp: quiet_code_def list_all_iff [of seg_quiet] seg_quiet_def key_ok_def)
    then have "no_cr k" by (auto simp: no_cr_def list_all_iff is_word_def is_alpha_us_def
          is_lower_def is_upper_def is_digit_def)
    with Blk assms(2) show ?thesis by (simp add: render_block_def no_cr_def)
  qed
  then show ?thesis by (auto simp: render_def no_cr_def)
qed

text \<open>
  Regeneration over an existing file: the blocks extracted from it come back out of the new
  file, and generating again changes nothing.
\<close>

lemma regenerate_keeps_blocks:
  assumes "quiet_code (Inr segs)" and "k \<in> set (block_keys (Inr segs))"
  shows "map_of (extract_user_code (write_segments fs p (extract_user_code fs p) segs) p) k
    = Some (block_content (extract_user_code fs p) k)"
proof -
  let ?b = "extract_user_code fs p"
  have "read_text (write_segments fs p ?b segs) p = Some (render ?b segs)"
    unfolding write_segments_def
    by (rule gen_store.read_write_same) (rule render_no_cr [OF assms(1) extract_no_cr])
  then show ?thesis
    using quiet_round_trip [OF assms(1) extract_clean assms(2)]
    by (simp add: extract_user_code_def [of "write_segments _ _ _ _"])
qed

lemma regenerate_idem:
  assumes "quiet_code (Inr segs)"
  shows "write_segments (write_segments fs p (extract_user_code fs p) segs) p
      (extract_user_code (write_segments fs p (extract_user_code fs p) segs) p) segs
    = write_segments fs p (extract_user_code fs p) segs"
proof -
  let ?b = "extract_user_code fs p" and ?fs' = "write_segments fs p (extract_user_code fs p) segs"
  have r: "read_text ?fs' p = Some (render ?b segs)"
    unfolding write_segments_def
    by (rule gen_store.read_write_same) (rule render_no_cr [OF assms(1) extract_no_cr])
  then have "render (extract_user_code ?fs' p) segs = render ?b segs"
    using quiet_fixpoint [OF assms extract_clean]
    by (simp add: extract_user_code_def [of ?fs'])
  with r show ?thesis
    unfolding write_segments_def [of ?fs'] by (simp add: gen_store.write_skip)
qed

end
