(* ===== verification/Md5.thy ===== *)
theory Md5
  imports PyStr "HOL-Library.Word"
begin

text \<open>
  \<open>hashlib.md5\<close> (RFC 1321) on byte lists, with 32-bit words: the digest the protocol hash
  is cut from.
\<close>

unbundle bit_operations_syntax

type_synonym u32 = "32 word"

definition md5_K :: "u32 list" where
  "md5_K =
    [0xd76aa478, 0xe8c7b756, 0x242070db, 0xc1bdceee, 0xf57c0faf, 0x4787c62a,
     0xa8304613, 0xfd469501, 0x698098d8, 0x8b44f7af, 0xffff5bb1, 0x895cd7be,
     0x6b901122, 0xfd987193, 0xa679438e, 0x49b40821, 0xf61e2562, 0xc040b340,
     0x265e5a51, 0xe9b6c7aa, 0xd62f105d, 0x02441453, 0xd8a1e681, 0xe7d3fbc8,
     0x21e1cde6, 0xc33707d6, 0xf4d50d87, 0x455a14ed, 0xa9e3e905, 0xfcefa3f8,
     0x676f02d9, 0x8d2a4c8a, 0xfffa3942, 0x8771f681, 0x6d9d6122, 0xfde5380c,
     0xa4beea44, 0x4bdecfa9, 0xf6bb4b60, 0xbebfbc70, 0x289b7ec6, 0xeaa127fa,
     0xd4ef3085, 0x04881d05, 0xd9d4d039, 0xe6db99e5, 0x1fa27cf8, 0xc4ac5665,
     0xf4292244, 0x432aff97, 0xab9423a7, 0xfc93a039, 0x655b59c3, 0x8f0ccc92,
     0xffeff47d, 0x85845dd1, 0x6fa87e4f, 0xfe2ce6e0, 0xa3014314, 0x4e0811a1,
     0xf7537e82, 0xbd3af235, 0x2ad7d2bb, 0xeb86d391]"

definition md5_S :: "nat list" where
  "md5_S = concat (map (\<lambda>r. concat (replicate 4 r))
     [[7, 12, 17, 22], [5, 9, 14, 20], [4, 11, 16, 23], [6, 10, 15, 21]])"

definition rol32 :: "u32 \<Rightarrow> nat \<Rightarrow> u32" where
  "rol32 x n = push_bit n x OR drop_bit (32 - n) x"

fun le_bytes :: "nat \<Rightarrow> int \<Rightarrow> int list" where   \<comment> \<open>\<open>k\<close> bytes, least significant first\<close>
  "le_bytes 0 n = []"
| "le_bytes (Suc k) n = n mod 256 # le_bytes k (n div 256)"

definition md5_pad :: "int list \<Rightarrow> int list" where
  "md5_pad m =
     m @ [128] @ replicate (nat ((119 - int (length m)) mod 64)) 0 @
     le_bytes 8 (8 * int (length m))"

fun le_word :: "int list \<Rightarrow> int" where
  "le_word [] = 0"
| "le_word (b # bs) = b + 256 * le_word bs"

fun chunks :: "nat \<Rightarrow> 'a list \<Rightarrow> 'a list list" where
  "chunks n xs = (if n = 0 \<or> xs = [] then [] else take n xs # chunks n (drop n xs))"

declare chunks.simps [simp del]

type_synonym md5_state = "u32 \<times> u32 \<times> u32 \<times> u32"

definition md5_round :: "u32 list \<Rightarrow> int \<Rightarrow> md5_state \<Rightarrow> md5_state" where
  "md5_round M i st =
     (case st of (a, b, c, d) \<Rightarrow>
       let (f, g) =
         (if i < 16 then ((b AND c) OR (NOT b AND d), i)
          else if i < 32 then ((d AND b) OR (NOT d AND c), (5 * i + 1) mod 16)
          else if i < 48 then (b XOR c XOR d, (3 * i + 5) mod 16)
          else (c XOR (b OR NOT d), (7 * i) mod 16));
         x = f + a + md5_K ! nat i + M ! nat g
       in (d, b + rol32 x (md5_S ! nat i), b, c))"

definition md5_block :: "md5_state \<Rightarrow> int list \<Rightarrow> md5_state" where
  "md5_block st bs =
     (let M = map (\<lambda>w. word_of_int (le_word w)) (chunks 4 bs);
          (a, b, c, d) = st;
          (a', b', c', d') = fold (md5_round M) [0..63] st
      in (a + a', b + b', c + c', d + d'))"

definition md5_digest :: "int list \<Rightarrow> int list" where
  "md5_digest m =
     (case foldl md5_block (0x67452301, 0xefcdab89, 0x98badcfe, 0x10325476) (chunks 64 (md5_pad m))
      of (a, b, c, d) \<Rightarrow> concat (map (\<lambda>w. le_bytes 4 (uint w)) [a, b, c, d]))"

definition hex_byte :: "int \<Rightarrow> string" where
  "hex_byte n = [hex_digit False (nat (n div 16)), hex_digit False (nat (n mod 16))]"

definition md5_hexdigest :: "int list \<Rightarrow> string" where
  "md5_hexdigest m = concat (map hex_byte (md5_digest m))"

text \<open>\<open>int(s, 16)\<close> of hexadecimal digits.\<close>

definition hex_val_char :: "char \<Rightarrow> nat" where
  "hex_val_char c =
     (let n = of_char c in
      if is_digit c then n - 48 else if is_lower c then n - 87 else n - 55)"

definition hex_val :: "string \<Rightarrow> nat" where
  "hex_val s = foldl (\<lambda>n c. 16 * n + hex_val_char c) 0 s"

section \<open>Shape of the digest\<close>

lemma length_le_bytes [simp]: "length (le_bytes k n) = k"
  by (induction k n rule: le_bytes.induct) auto

lemma le_bytes_range: "b \<in> set (le_bytes k n) \<Longrightarrow> 0 \<le> b \<and> b < 256"
  by (induction k n rule: le_bytes.induct) auto

lemma md5_digest_bytes:
  "length (md5_digest m) = 16 \<and> (\<forall>b \<in> set (md5_digest m). 0 \<le> b \<and> b < 256)"
proof -
  obtain a b c d where st: "foldl md5_block (0x67452301, 0xefcdab89, 0x98badcfe, 0x10325476)
      (chunks 64 (md5_pad m)) = (a, b, c, d)"
    by (metis prod.collapse)
  show ?thesis unfolding md5_digest_def st
    by (auto simp del: le_bytes.simps dest: le_bytes_range)
qed

text \<open>RFC 1321 pads to a whole number of 64-byte blocks.\<close>

lemma md5_pad_blocks: "length (md5_pad m) mod 64 = 0"
proof -
  have "(int (length m) + 9 + (119 - int (length m)) mod 64) mod 64 = 0"
    by (subst mod_add_right_eq) simp
  then have "int (length (md5_pad m)) mod 64 = 0"
    by (simp add: md5_pad_def algebra_simps)
  then have "int (length (md5_pad m) mod 64) = 0"
    by (simp only: zmod_int of_nat_numeral)
  then show ?thesis by (simp only: of_nat_eq_0_iff)
qed

lemma length_md5_hexdigest: "length (md5_hexdigest m) = 32"
proof -
  have "length (concat (map hex_byte bs)) = 2 * length bs" for bs
    by (induction bs) (auto simp: hex_byte_def)
  then show ?thesis using md5_digest_bytes [of m] by (simp add: md5_hexdigest_def)
qed

lemma hex_val_hex_digit: "d < 16 \<Longrightarrow> hex_val_char (hex_digit up d) = d"
  by (auto simp: hex_val_char_def hex_digit_def is_digit_def is_lower_def Let_def of_char_of)

lemma hex_val_bound:
  assumes "\<forall>c \<in> set s. hex_val_char c < 16"
  shows "hex_val s < 16 ^ length s"
proof -
  have "foldl (\<lambda>n c. 16 * n + hex_val_char c) k s < (k + 1) * 16 ^ length s" for k
    using assms
  proof (induction s arbitrary: k)
    case (Cons c s)
    then have "foldl (\<lambda>n c. 16 * n + hex_val_char c) (16 * k + hex_val_char c) s
        < (16 * k + hex_val_char c + 1) * 16 ^ length s" by simp
    also have "\<dots> \<le> (16 * k + 16) * 16 ^ length s"
      using Cons.prems by (intro mult_right_mono) auto
    finally show ?case by (simp add: algebra_simps)
  qed simp
  from this [of 0] show ?thesis by (simp add: hex_val_def)
qed

lemma md5_hexdigest_digits: "c \<in> set (md5_hexdigest m) \<Longrightarrow> hex_val_char c < 16"
  using md5_digest_bytes [of m]
  by (force simp: md5_hexdigest_def hex_byte_def hex_val_hex_digit)

text \<open>A test vector of the RFC.\<close>


lemma md5_abc: "md5_hexdigest [97, 98, 99] = ''900150983cd24fb0d6963f7d28e17f72''"
  by code_simp

end
