(* ===== verification/Hash.thy ===== *)
theory Hash
  imports Schema Md5
begin

text \<open>
  The protocol hash: the part of the configuration that is the wire contract
  (\<open>_protocol_hash_input\<close>), its canonical text, and the 32-bit number both peers compare in
  the handshake. \<open>yaml.safe_load\<close> and \<open>yaml.safe_dump\<close> are third-party code and
  parameters of the definitions that call them.
\<close>

section \<open>The wire contract\<close>

definition msg_hash_entry :: "pyval \<Rightarrow> pyval \<Rightarrow> pyval res" where
  "msg_hash_entry type_mappings message =
     bindE (py_item message ''id'') (\<lambda>mid.
     bindE (py_item message ''direction'') (\<lambda>dir.
     bindE (py_get message ''reliable'' (PBool False)) (\<lambda>rel.
     bindE (py_get message ''fields'' (PList [])) (\<lambda>fv.
     bindE (py_iter fv) (\<lambda>fields.
     bindE (mapE (\<lambda>f. bindE (py_item f ''type'') (\<lambda>t. get_c_type t type_mappings)) fields)
       (\<lambda>types.
     Inr (PDict [(K ''id'', mid), (K ''direction'', dir), (K ''reliable'', PBool (truthy rel)),
                 (K ''field_types'', PList types)])))))))"

definition protocol_hash_input :: "pyval \<Rightarrow> pyval res" where
  "protocol_hash_input config_data =
     bindE (py_get config_data ''config'' (PDict [])) (\<lambda>cfg.
     bindE (py_get config_data ''type_mappings'' (PDict [])) (\<lambda>type_mappings.
     bindE (merge_messages config_data) (\<lambda>merged.
     bindE (mapE (msg_hash_entry type_mappings) merged) (\<lambda>messages.
     bindE (py_item cfg ''head_byte_1'') (\<lambda>h1.
     bindE (py_item cfg ''head_byte_2'') (\<lambda>h2.
     bindE (py_get cfg ''checksum'' (PStr ''CRC8'')) (\<lambda>cs.
     bindE (py_get cfg ''require_handshake'' (PBool True)) (\<lambda>rh.
     Inr (PDict [(K ''head_byte_1'', h1), (K ''head_byte_2'', h2),
                 (K ''checksum'', PStr (upper (py_str cs))),
                 (K ''require_handshake'', PBool (truthy rh)),
                 (K ''messages'', PList messages)])))))))))"

definition canonicalize_protocol_hash_input ::
  "(string \<Rightarrow> pyval res) \<Rightarrow> (pyval \<Rightarrow> string) \<Rightarrow> pyval \<Rightarrow> string res" where
  "canonicalize_protocol_hash_input safe_load safe_dump protocol_source =
     bindE (case protocol_source of PStr s \<Rightarrow> safe_load s | _ \<Rightarrow> Inr protocol_source) (\<lambda>config_data.
     bindE (protocol_hash_input config_data) (\<lambda>v. Inr (safe_dump v)))"

definition utf8_bytes :: "string \<Rightarrow> int list" where
  "utf8_bytes s = map of_char s"

definition calculate_protocol_hash ::
  "(string \<Rightarrow> pyval res) \<Rightarrow> (pyval \<Rightarrow> string) \<Rightarrow> pyval \<Rightarrow> nat res" where
  "calculate_protocol_hash safe_load safe_dump protocol_source =
     bindE (canonicalize_protocol_hash_input safe_load safe_dump protocol_source) (\<lambda>content.
     Inr (hex_val (take 8 (md5_hexdigest (utf8_bytes content)))))"

section \<open>Range\<close>

lemma hash_32bit:
  assumes "calculate_protocol_hash ld dp src = Inr h"
  shows "h < 2 ^ 32"
proof -
  from assms obtain c where h: "h = hex_val (take 8 (md5_hexdigest c))"
    by (auto simp: calculate_protocol_hash_def bindE_eq_Inr)
  have "\<forall>x \<in> set (take 8 (md5_hexdigest c)). hex_val_char x < 16"
    using md5_hexdigest_digits by (metis in_set_takeD)
  from hex_val_bound [OF this] h show ?thesis by (simp add: length_md5_hexdigest)
qed

section \<open>What the hash ignores\<close>

text \<open>Two messages that are the same on the wire: ID, direction, reliability, field types.\<close>

definition same_wire :: "pyval \<Rightarrow> pyval \<Rightarrow> pyval \<Rightarrow> bool" where
  "same_wire type_mappings m m' \<longleftrightarrow>
     has_id m \<and> has_id m' \<and> msg_id m = msg_id m' \<and>
     msg_hash_entry type_mappings m = msg_hash_entry type_mappings m'"

lemma list_all2_insort_key:
  assumes "list_all2 R xs ys" and "R x y" and "\<And>a b. R a b \<Longrightarrow> k a = k b"
  shows "list_all2 R (insort_key k x xs) (insort_key k y ys)"
  using assms(1)
proof (induction xs ys rule: list_all2_induct)
  case (Cons a as b bs)
  then show ?case using assms(2,3) by (auto dest: assms(3))
qed (simp add: assms(2))

lemma list_all2_sort_key:
  assumes "list_all2 R xs ys" and "\<And>a b. R a b \<Longrightarrow> k a = k b"
  shows "list_all2 R (sort_key k xs) (sort_key k ys)"
  using assms(1)
  by (induction xs ys rule: list_all2_induct) (auto intro: list_all2_insort_key assms(2))

lemma mapE_list_all2:
  "list_all2 (\<lambda>x y. f x = f y) xs ys \<Longrightarrow> mapE f xs = mapE f ys"
  by (induction xs ys rule: list_all2_induct) auto

lemma same_wire_system: "list_all2 (same_wire tm) SYSTEM_MESSAGES SYSTEM_MESSAGES"
  by (auto simp: list_all2_same same_wire_def system_has_id)

text \<open>
  Messages in any order, and any change of a message that leaves its wire contract alone:
  the same hash input. \<open>ms''\<close> is the second list brought into the order of the first.
\<close>

lemma hash_input_cong:
  assumes cd: "py_get cd ''messages'' (PList []) = Inr (PList ms)"
    and cd': "py_get cd' ''messages'' (PList []) = Inr (PList ms')"
    and tm: "py_get cd ''type_mappings'' (PDict []) = Inr tm"
    and same: "py_get cd' ''type_mappings'' (PDict []) = Inr tm"
      "py_get cd' ''config'' (PDict []) = py_get cd ''config'' (PDict [])"
    and wire: "list_all2 (same_wire tm) ms ms''" and perm: "mset ms'' = mset ms'"
    and dist: "distinct (map msg_id (ms @ SYSTEM_MESSAGES))"
  shows "protocol_hash_input cd' = protocol_hash_input cd"
proof -
  let ?sort = "\<lambda>xs. sort_key msg_id (xs @ SYSTEM_MESSAGES)"
  have "\<forall>m \<in> set ms''. has_id m" and ids1: "\<forall>m \<in> set ms. has_id m"
    and ms'': "map msg_id ms'' = map msg_id ms"
    using wire by (induction rule: list_all2_induct) (auto simp: same_wire_def)
  then have ids2: "\<forall>m \<in> set ms'. has_id m"
    using mset_eq_setD [OF perm] by simp
  have "list_all2 (same_wire tm) (ms @ SYSTEM_MESSAGES) (ms'' @ SYSTEM_MESSAGES)"
    using wire same_wire_system by (rule list_all2_appendI)
  then have "list_all2 (same_wire tm) (?sort ms) (?sort ms'')"
    by (rule list_all2_sort_key) (simp add: same_wire_def)
  then have "mapE (msg_hash_entry tm) (?sort ms) = mapE (msg_hash_entry tm) (?sort ms'')"
    by (intro mapE_list_all2) (erule list_all2_mono, simp add: same_wire_def)
  moreover have "?sort ms'' = ?sort ms'"
  proof (rule sort_key_perm_unique)
    show "mset (ms'' @ SYSTEM_MESSAGES) = mset (ms' @ SYSTEM_MESSAGES)" using perm by simp
    have "distinct (map msg_id (ms'' @ SYSTEM_MESSAGES))" using dist ms'' by simp
    then show "inj_on msg_id (set (ms'' @ SYSTEM_MESSAGES))" by (simp only: distinct_map)
  qed
  ultimately show ?thesis
    using tm same by (simp add: protocol_hash_input_def merge_messages_eq [OF cd ids1]
        merge_messages_eq [OF cd' ids2])
qed

end
