(* ===== verification/GenHeader.thy ===== *)
theory GenHeader
  imports Emit Checksum Hash
begin

text \<open>
  \<open>generate_mcu_header\<close>: the text of \<open>protocol.h\<close>, write by write. \<open>GenSource\<close> does the same
  for \<open>protocol.c\<close>; what the emitted C code does is in \<open>McuFsm\<close>.
\<close>

section \<open>Texts and values shared by the generators\<close>

definition GENERATED_NOTICE :: string where
  \<open>GENERATED_NOTICE = ''// Auto-generated by scripts/codegen.py from config/protocol.yaml.\<newline>''\<close>

definition MCU_FILE_BANNER :: string where
  \<open>MCU_FILE_BANNER = GENERATED_NOTICE @
     ''//\<newline>'' @ ''// '' @
     utf8 [0x8B66, 0x544A, 0xFF1A, 0x672C, 0x6587, 0x4EF6, 0x751F, 0x6210, 0x5728] @
     '' build '' @
     utf8 [0x76EE, 0x5F55, 0x4E2D, 0xFF0C, 0x6E05, 0x7406, 0x6784, 0x5EFA, 0x76EE] @
     utf8 [0x5F55, 0xFF08] @ ''rm -rf build'' @ utf8 [0x3001] @ ''\<newline>'' @
     ''// colcon build --cmake-clean-first '' @ utf8 [0x7B49, 0xFF09, 0x4F1A, 0x8FDE, 0x540C] @
     '' USER CODE '' @
     utf8 [0x5757, 0x4E2D, 0x7684, 0x624B, 0x5199, 0x4EE3, 0x7801, 0x4E00, 0x8D77] @
     utf8 [0x4E22, 0x5931, 0x3002] @ ''\<newline>'' @ ''// '' @
     utf8 [0x957F, 0x671F, 0x7EF4, 0x62A4, 0x7684] @ '' MCU '' @
     utf8 [0x4E1A, 0x52A1, 0x4EE3, 0x7801, 0x8BF7, 0x4FDD, 0x5B58, 0x5728, 0x4F60] @
     utf8 [0x7684] @ '' MCU '' @
     utf8 [0x5DE5, 0x7A0B, 0x91CC, 0xFF0C, 0x672C, 0x6587, 0x4EF6, 0x53EA, 0x505A] @
     utf8 [0x96C6, 0x6210, 0x62F7, 0x8D1D, 0x3002] @ ''\<newline>''\<close>

definition checksum_algo_of :: "pyval \<Rightarrow> string res" where
  \<comment> \<open>\<open>str(config.get('checksum', 'CRC8')).upper()\<close>\<close>
  "checksum_algo_of config = bindE (py_get config ''checksum'' (PStr ''CRC8'')) (\<lambda>v. Inr (upper (py_str v)))"

definition field_c_type :: "pyval \<Rightarrow> pyval \<Rightarrow> piece" where
  "field_c_type field type_mappings =
     bindE (py_item field ''type'') (\<lambda>t. bindE (get_c_type t type_mappings) V)"

definition crc8_table_lines :: "string \<Rightarrow> string" where
  "crc8_table_lines indent =
     join ''\<newline>'' (map (\<lambda>i. indent @
       join '', '' (map (\<lambda>v. ''0x'' @ hex_upper 2 (nat v)) (take 16 (drop (16 * i) generate_crc8_table)))
       @ '','') [0..<16])"

section \<open>The header\<close>

definition header_options ::
  "string \<Rightarrow> pyval \<Rightarrow> pyval \<Rightarrow> pyval \<Rightarrow> pyval \<Rightarrow> pyval \<Rightarrow> pyval \<Rightarrow> pyval \<Rightarrow> nat \<Rightarrow> seg list res" where
  \<open>header_options checksum_algo require_handshake ignore_version_mismatch strict_heartbeat
     heartbeat_interval_ms heartbeat_timeout_ms reliable_retry_interval_ms reliable_max_retries
     protocol_hash = parts
     [wr [T MCU_FILE_BANNER],
      wr [T ''#pragma once\<newline>''],
      wr [T ''#include <stdint.h>\<newline>''],
      wr [T ''#include <stddef.h>\<newline>''],
      wr [T ''\<newline>''],
      blk (T ''Includes''),
      wr [T ''\<newline>''],
      wr [T (''// '' @ utf8 [0x534F, 0x8BAE, 0x54C8, 0x5E0C, 0x6821, 0x9A8C, 0x7801] @ ''\<newline>'')],
      wr [T ''#define PROTOCOL_HASH 0x'', T (hex_upper 8 protocol_hash), T ''\<newline>''],
      wr [T ''\<newline>''],
      wr [T (''// '' @ utf8 [0x6821, 0x9A8C, 0x7B97, 0x6CD5] @ '': ''), T checksum_algo,
          T ''\<newline>''],
      wr [T ''#define CHECKSUM_ALGO_'', T checksum_algo, T '' 1\<newline>''],
      wr [T ''\<newline>''],
      wr [T (''// '' @ utf8 [0x63E1, 0x624B, 0x914D, 0x7F6E] @ ''\<newline>'')],
      wr [T ''#define CFG_REQUIRE_HANDSHAKE '',
          T (if truthy require_handshake then ''1'' else ''0''), T ''\<newline>''],
      wr [T ''#define CFG_IGNORE_VERSION_MISMATCH '',
          T (if truthy ignore_version_mismatch then ''1'' else ''0''), T ''\<newline>''],
      wr [T ''\<newline>''],
      wr [T (''// '' @ utf8 [0x5FC3, 0x8DF3, 0x914D, 0x7F6E, 0xFF08, 0x5FC3, 0x8DF3, 0x59CB, 0x7EC8, 0x5F00, 0x542F, 0xFF0C, 0x7531] @ '' ROS '' @ utf8 [0x7AEF, 0x5468, 0x671F, 0x53D1, 0x8D77, 0xFF0C] @ ''MCU '' @ utf8 [0x7AEF, 0x7531, 0x534F, 0x8BAE, 0x5C42, 0x81EA, 0x52A8, 0x56DE, 0x5305, 0xFF09] @ ''\<newline>'')],
      wr [T ''#define CFG_STRICT_HEARTBEAT '',
          T (if truthy strict_heartbeat then ''1'' else ''0''), T ''\<newline>''],
      wr [T ''#define CFG_HEARTBEAT_INTERVAL_MS '', V heartbeat_interval_ms, T ''\<newline>''],
      wr [T ''#define CFG_HEARTBEAT_TIMEOUT_MS '', V heartbeat_timeout_ms, T ''\<newline>''],
      wr [T ''\<newline>''],
      wr [T ''// '', T (utf8 [0x53EF, 0x9760, 0x4F20, 0x8F93, 0x914D, 0x7F6E, 0xFF1A]),
          T ''MAX_RETRIES '',
          T (utf8 [0x662F, 0x91CD, 0x590D, 0x544A, 0x8B66, 0x9608, 0x503C, 0xFF0C, 0x6D88]),
          T (utf8 [0x606F, 0x5728, 0x6536, 0x5230]), T '' ACK '',
          T (utf8 [0x524D, 0x6301, 0x7EED, 0x91CD, 0x8BD5]), T ''\<newline>''],
      wr [T ''#define CFG_RELIABLE_RETRY_INTERVAL_MS '', V reliable_retry_interval_ms,
          T ''\<newline>''],
      wr [T ''#define CFG_RELIABLE_MAX_RETRIES '', V reliable_max_retries, T ''\<newline>''],
      wr [T ''\<newline>''],
      blk (T ''Private_Defines''),
      wr [T ''\<newline>'']]\<close>

definition header_types :: "pyval \<Rightarrow> pyval list \<Rightarrow> pyval \<Rightarrow> seg list res" where
  \<open>header_types config messages type_mappings = parts
     [wr [T (''// '' @ utf8 [0x5E27, 0x5934, 0x5B9A, 0x4E49] @ ''\<newline>'')],
      wr [T ''#define FRAME_HEADER1 '', item_str config ''head_byte_1'', T ''\<newline>''],
      wr [T ''#define FRAME_HEADER2 '', item_str config ''head_byte_2'', T ''\<newline>''],
      wr [T ''\<newline>''],
      wr [T (''// '' @ utf8 [0x6570, 0x636E, 0x5305] @ ''ID'' @ utf8 [0x5B9A, 0x4E49] @ ''\<newline>'')],
      wr [T ''typedef enum {\<newline>''],
      each (\<lambda>msg.
        wr [T ''    PACKET_ID_'', item_upper msg ''name'', T '' = '', item_str msg ''id'',
            T '',\<newline>'']) messages,
      wr [T ''} PacketID;\<newline>''],
      wr [T ''\<newline>''],
      wr [T ''#pragma pack(1)\<newline>''],
      each (\<lambda>msg. parts
        [wr [T ''typedef struct {\<newline>''],
         bindE (item_list msg ''fields'') (each (\<lambda>field.
           wr [T ''    '', field_c_type field type_mappings, T '' '', item_str field ''proto'',
               T '';\<newline>''])),
         wr [T ''} Packet_'', item_str msg ''name'', T '';\<newline>''],
         wr [T ''\<newline>'']]) messages,
      wr [T ''#pragma pack()\<newline>''],
      wr [T ''\<newline>'']]\<close>

definition header_decls :: "pyval list \<Rightarrow> seg list res" where
  \<open>header_decls messages = parts
     [wr [T (''// '' @ utf8 [0x534F, 0x8BAE, 0x8F85, 0x52A9, 0x51FD, 0x6570, 0x58F0, 0x660E] @ ''\<newline>'')],
      wr [T ''uint8_t calculate_checksum(const uint8_t* data, size_t len);\<newline>''],
      wr [T ''void protocol_fsm_feed(uint8_t byte);\<newline>''],
      wr [T ''\<newline>''],
      wr [T (''// '' @ utf8 [0x7528, 0x6237, 0x53EF, 0x8986, 0x76D6, 0x7684, 0x63A5, 0x6536, 0x56DE, 0x8C03, 0x4E0E, 0x81EA, 0x52A8, 0x751F, 0x6210, 0x7684, 0x53D1, 0x9001, 0x51FD, 0x6570, 0x58F0, 0x660E] @ ''\<newline>'')],
      each (\<lambda>msg. parts
        [wr [T ''void on_receive_'', item_str msg ''name'', T ''(const Packet_'',
             item_str msg ''name'', T ''* pkt);\<newline>''],
         wr [T ''void send_'', item_str msg ''name'', T ''(const Packet_'',
             item_str msg ''name'', T ''* pkt);\<newline>'']]) messages,
      wr [T ''\<newline>''],
      blk (T ''User_Types'')]\<close>

definition mcu_header_segs :: "pyval \<Rightarrow> pyval list \<Rightarrow> pyval \<Rightarrow> nat \<Rightarrow> seg list res" where
  "mcu_header_segs config messages type_mappings protocol_hash =
     bindE (checksum_algo_of config) (\<lambda>checksum_algo.
     bindE (py_get config ''require_handshake'' (PBool True)) (\<lambda>require_handshake.
     bindE (py_get config ''ignore_version_mismatch'' (PBool False)) (\<lambda>ignore_version_mismatch.
     bindE (py_get config ''strict_heartbeat'' (PBool True)) (\<lambda>strict_heartbeat.
     bindE (py_get config ''heartbeat_interval_ms'' (PInt 1000)) (\<lambda>heartbeat_interval_ms.
     bindE (py_get config ''heartbeat_timeout_ms'' (PInt 3000)) (\<lambda>heartbeat_timeout_ms.
     bindE (py_get config ''reliable_retry_interval_ms'' (PInt 100)) (\<lambda>reliable_retry_interval_ms.
     bindE (py_get config ''reliable_max_retries'' (PInt 3)) (\<lambda>reliable_max_retries.
     parts
       [header_options checksum_algo require_handshake ignore_version_mismatch strict_heartbeat
          heartbeat_interval_ms heartbeat_timeout_ms reliable_retry_interval_ms
          reliable_max_retries protocol_hash,
        header_types config messages type_mappings,
        header_decls messages]))))))))"

definition generate_mcu_header ::
  "pyval \<Rightarrow> pyval list \<Rightarrow> pyval \<Rightarrow> nat \<Rightarrow> string \<Rightarrow> blocks \<Rightarrow> fs \<Rightarrow> fs res" where
  "generate_mcu_header config messages type_mappings protocol_hash output_path user_blocks fs =
     bindE (mcu_header_segs config messages type_mappings protocol_hash) (\<lambda>segs.
     Inr (write_segments fs output_path user_blocks segs))"

end
