(* ===== verification/GenSource.thy ===== *)
theory GenSource
  imports GenHeader
begin

text \<open>
  \<open>generate_mcu_source\<close>: the text of \<open>protocol.c\<close>, write by write. The C code it emits is given
  a meaning in \<open>McuFsm\<close>.
\<close>

definition max_of :: "('a \<Rightarrow> int res) \<Rightarrow> 'a list \<Rightarrow> int res" where   \<comment> \<open>\<open>max(f(x) for x in xs)\<close>\<close>
  "max_of f xs =
     bindE (mapE f xs) (\<lambda>ns. case ns of [] \<Rightarrow> Inl ValueError | n # ns' \<Rightarrow> Inr (foldl max n ns'))"

fun any_reliable :: "pyval list \<Rightarrow> bool res" where     \<comment> \<open>\<open>any(m.get('reliable', False) for m in messages)\<close>\<close>
  "any_reliable [] = Inr False"
| "any_reliable (m # ms) =
     bindE (get_true m ''reliable'' (PBool False)) (\<lambda>t. if t then Inr True else any_reliable ms)"

definition on_receive_name :: "pyval \<Rightarrow> piece" where
  "on_receive_name msg = bindE (item_str msg ''name'') (\<lambda>n. Inr (''on_receive_'' @ n))"

definition source_preamble :: "int \<Rightarrow> int \<Rightarrow> seg list res" where
  \<open>source_preamble max_struct_payload max_wire_payload = parts
     [wr [T MCU_FILE_BANNER],
      wr [T ''#include "protocol.h"\<newline>''],
      wr [T ''#include <string.h>\<newline>'', T ''\<newline>''],
      blk (T ''Includes''),
      wr [T ''\<newline>''],
      wr [T ''\<newline>'',
          T (''// '' @ utf8 [0x89E3, 0x6790, 0x5668, 0x72B6, 0x6001, 0x5B9A, 0x4E49] @ ''\<newline>''),
          T ''typedef enum {\<newline>'', T ''    STATE_WAIT_HEADER1,\<newline>'',
          T ''    STATE_WAIT_HEADER2,\<newline>'', T ''    STATE_WAIT_ID,\<newline>'',
          T ''    STATE_WAIT_LEN,\<newline>'', T ''    STATE_WAIT_DATA,\<newline>'',
          T ''    STATE_WAIT_CRC\<newline>'', T ''} State;\<newline>'', T ''\<newline>'',
          T (''// '' @ utf8 [0x5355, 0x5305] @ '' payload '' @ utf8 [0x89E3, 0x6790, 0x7F13, 0x51B2, 0x533A] @ '' ('' @ utf8 [0x6700, 0x5927, 0x7ED3, 0x6784, 0x4F53] @ '' payload=''),
          T (int_str max_struct_payload),
          T ('', '' @ utf8 [0x6700, 0x5927] @ '' wire payload=''), T (int_str max_wire_payload),
          T '')\<newline>'', T ''static State rx_state = STATE_WAIT_HEADER1;\<newline>'',
          T ''static uint8_t rx_buffer['', T (int_str max_wire_payload), T ''];\<newline>'',
          T ''static uint16_t rx_cnt = 0;\<newline>'',
          T ''static uint8_t rx_data_len = 0;\<newline>'',
          T ''static uint8_t rx_id = 0;\<newline>'',
          T ''static uint8_t rx_checksum = 0;\<newline>'', T ''\<newline>'']]\<close>

definition source_checksum :: "string \<Rightarrow> seg list res" where
  \<open>source_checksum checksum_algo = parts
     [ifE (Inr (checksum_algo = ''CRC8''))
        (parts
         [wr [T (''// CRC8 '' @ utf8 [0x67E5, 0x627E, 0x8868] @ '' ('' @ utf8 [0x591A, 0x9879, 0x5F0F] @ '' 0x31)\<newline>'')],
          wr [T ''static const uint8_t CRC8_TABLE[256] = {\<newline>''],
          wr [T (crc8_table_lines ''    ''), T ''\<newline>'', T ''};\<newline>'', T ''\<newline>''],
          wr [T (''// CRC8 '' @ utf8 [0x6821, 0x9A8C, 0x51FD, 0x6570] @ '' ('' @ utf8 [0x67E5, 0x8868, 0x6CD5] @ '', '' @ utf8 [0x591A, 0x9879, 0x5F0F] @ '' 0x31)\<newline>''),
              T ''static uint8_t checksum_update(uint8_t current, uint8_t byte) {\<newline>'',
              T ''    return CRC8_TABLE[current ^ byte];\<newline>'', T ''}\<newline>'']])
        (
         ifE (Inr (checksum_algo = ''SUM8''))
           (
            wr [T (''// SUM8 '' @ utf8 [0x6821, 0x9A8C, 0x51FD, 0x6570] @ '' ('' @ utf8 [0x7D2F, 0x52A0, 0x548C] @ '')\<newline>''),
                T ''static uint8_t checksum_update(uint8_t current, uint8_t byte) {\<newline>'',
                T ''    return (uint8_t)(current + byte);\<newline>'', T ''}\<newline>''])
           (
            ifE (Inr (checksum_algo = ''XOR8''))
              (
               wr [T (''// XOR8 '' @ utf8 [0x6821, 0x9A8C, 0x51FD, 0x6570] @ '' ('' @ utf8 [0x5F02, 0x6216] @ '')\<newline>''),
                   T ''static uint8_t checksum_update(uint8_t current, uint8_t byte) {\<newline>'',
                   T ''    return current ^ byte;\<newline>'', T ''}\<newline>''])
              (
               wr [T (''// '' @ utf8 [0x65E0, 0x6821, 0x9A8C] @ ''\<newline>''),
                   T ''static uint8_t checksum_update(uint8_t current, uint8_t byte) {\<newline>'',
                   T ''    (void)current; (void)byte;\<newline>'', T ''    return 0;\<newline>'',
                   T ''}\<newline>'']))),
      wr [T ''\<newline>'',
          T ''uint8_t calculate_checksum(const uint8_t* data, size_t len) {\<newline>'',
          T ''    uint8_t cs = 0;\<newline>'',
          T ''    for (size_t i = 0; i < len; i++) {\<newline>'',
          T ''        cs = checksum_update(cs, data[i]);\<newline>'', T ''    }\<newline>'',
          T ''    return cs;\<newline>'', T ''}\<newline>'']]\<close>

definition source_ack :: "bool \<Rightarrow> seg list res" where
  \<open>source_ack has_reliable = 
     whenE (Inr has_reliable)
       (parts
        [wr [T ''// '',
             T (utf8 [0x53EF, 0x9760, 0x4F20, 0x8F93, 0x5E8F, 0x5217, 0x53F7, 0xFF1A]),
             T ''ROS '', T (utf8 [0x7AEF, 0x5728]), T '' reliable '', T (utf8 [0x5305]),
             T '' payload '', T (utf8 [0x672B, 0x5C3E, 0x8FFD, 0x52A0]), T '' 1 '',
             T (utf8 [0x5B57, 0x8282]), T '' seq'', T (utf8 [0xFF0C]), T ''\<newline>''],
         wr [T ''// MCU '',
             T (utf8 [0x6536, 0x5230, 0x540E, 0x5B58, 0x5165, 0x6B64, 0x53D8, 0x91CF, 0xFF0C]),
             T ''ACK '', T (utf8 [0x56DE, 0x4F20, 0x65F6, 0x643A, 0x5E26, 0x8BE5]), T '' seq '',
             T (utf8 [0x4EE5, 0x533A, 0x5206, 0x540C]), T '' ID '',
             T (utf8 [0x7684, 0x4E0D, 0x540C, 0x7248, 0x672C, 0x3002]), T ''\<newline>''],
         wr [T ''static uint8_t g_last_reliable_seq = 0;\<newline>'', T ''\<newline>''],
         wr [T ''static inline void send_reliable_ack(PacketID id) {\<newline>''],
         wr [T ''    Packet_Ack ack;\<newline>''],
         wr [T ''    ack.acked_id = (uint8_t)id;\<newline>''],
         wr [T ''    ack.ack_seq = g_last_reliable_seq;\<newline>''],
         wr [T ''    send_Ack(&ack);\<newline>''],
         wr [T ''}\<newline>'', T ''\<newline>'']])\<close>

definition source_hooks :: "pyval list \<Rightarrow> seg list res" where
  \<open>source_hooks messages = parts
     [wr [T ''\<newline>''],
      blk (T ''Private_Variables''),
      wr [T ''\<newline>''],
      wr [T ''\<newline>'',
          T (''// '' @ utf8 [0x7528, 0x6237, 0x53EF, 0x9009, 0x5B9E, 0x73B0, 0x7684, 0x56DE, 0x8C03, 0x94A9, 0x5B50, 0x3002] @ ''\<newline>'')],
      wr [T ''// '', T (utf8 [0x7CFB, 0x7EDF, 0x6D88, 0x606F]),
          T '' (Ack/Heartbeat/Handshake) '',
          T (utf8 [0x7684, 0x534F, 0x8BAE, 0x884C, 0x4E3A, 0x5DF2, 0x7531]), T '' FSM '',
          T (utf8 [0x5185, 0x7F6E, 0xFF0C]), T ''\<newline>''],
      wr [T (''// '' @ utf8 [0x8986, 0x76D6, 0x8FD9, 0x4E9B, 0x94A9, 0x5B50, 0x53EA, 0x7528, 0x4E8E, 0x89C2, 0x5BDF, 0xFF0C, 0x4E0D, 0x9700, 0x8981, 0x4E5F, 0x4E0D, 0x5E94, 0x8BE5, 0x5728, 0x5176, 0x4E2D, 0x56DE, 0x5305, 0x3002] @ ''\<newline>'')],
      each (\<lambda>msg. parts
        [wr [T ''__attribute__((weak)) void '', on_receive_name msg, T ''(const Packet_'',
             item_str msg ''name'', T ''* pkt) {\<newline>''],
         wr [T ''    (void)pkt;\<newline>''],
         blk (on_receive_name msg),
         wr [T ''}\<newline>'']]) messages,
      wr [T ''\<newline>''],
      blk (T ''Code_0''),
      wr [T ''\<newline>'']]\<close>

definition source_fsm :: "string \<Rightarrow> pyval \<Rightarrow> pyval list \<Rightarrow> seg list res" where
  \<open>source_fsm crc_check_expr require_handshake messages = parts
     [wr [T ''\<newline>'', T ''/**\<newline>'',
          T ('' * @brief '' @ utf8 [0x534F, 0x8BAE, 0x89E3, 0x6790, 0x72B6, 0x6001, 0x673A, 0xFF0C, 0x5728, 0x4E32, 0x53E3, 0x4E2D, 0x65AD, 0x6216, 0x8F6E, 0x8BE2, 0x4E2D, 0x8C03, 0x7528, 0x6B64, 0x51FD, 0x6570, 0x5904, 0x7406, 0x6BCF, 0x4E2A, 0x63A5, 0x6536, 0x5230, 0x7684, 0x5B57, 0x8282] @ ''\<newline>''),
          T ('' * @param byte '' @ utf8 [0x63A5, 0x6536, 0x5230, 0x7684, 0x5355, 0x4E2A, 0x5B57, 0x8282] @ ''\<newline>''),
          T '' */\<newline>'', T ''void protocol_fsm_feed(uint8_t byte) {\<newline>'',
          T ''    switch (rx_state) {\<newline>'',
          T ''        case STATE_WAIT_HEADER1:\<newline>'',
          T ''            if (byte == FRAME_HEADER1) {\<newline>'',
          T ''                rx_state = STATE_WAIT_HEADER2;\<newline>'',
          T ''            }\<newline>'', T ''            break;\<newline>'', T ''\<newline>'',
          T ''        case STATE_WAIT_HEADER2:\<newline>'',
          T ''            if (byte == FRAME_HEADER2) {\<newline>'',
          T ''                rx_state = STATE_WAIT_ID;\<newline>'',
          T ''            } else if (byte != FRAME_HEADER1) {\<newline>'',
          T ''                // '',
          T (utf8 [0x82E5, 0x8BE5, 0x5B57, 0x8282, 0x662F, 0x65B0, 0x7684]), T '' HEADER1'',
          T (utf8 [0xFF0C, 0x5219, 0x505C, 0x7559, 0x5728, 0x672C, 0x72B6, 0x6001, 0x7EE7]),
          T (utf8 [0x7EED, 0x7B49, 0x5F85]), T '' HEADER2\<newline>'',
          T ''                rx_state = STATE_WAIT_HEADER1;\<newline>'',
          T ''            }\<newline>'', T ''            break;\<newline>'', T ''\<newline>'',
          T ''        case STATE_WAIT_ID:\<newline>'', T ''            rx_id = byte;\<newline>'',
          T ''            rx_checksum = checksum_update(0, rx_id); // '',
          T (utf8 [0x6821, 0x9A8C, 0x5305, 0x542B]), T '' ID\<newline>'',
          T ''            rx_state = STATE_WAIT_LEN;\<newline>'',
          T ''            break;\<newline>'', T ''\<newline>'',
          T ''        case STATE_WAIT_LEN:\<newline>'',
          T ''            if (byte > sizeof(rx_buffer)) {\<newline>'', T ''                // '',
          T (utf8 [0x8D85, 0x51FA, 0x534F, 0x8BAE, 0x5185, 0x6700, 0x5927]), T '' payload'',
          T (utf8 [0xFF0C, 0x76F4, 0x63A5, 0x653E, 0x5F03, 0x5F53, 0x524D, 0x5019, 0x9009]),
          T (utf8 [0x5E27, 0x5E76, 0x91CD, 0x65B0, 0x89E3, 0x6790, 0x8BE5, 0x5B57, 0x8282]),
          T ''\<newline>'', T ''                rx_state = STATE_WAIT_HEADER1;\<newline>'',
          T ''                protocol_fsm_feed(byte);\<newline>'',
          T ''                return;\<newline>'', T ''            }\<newline>'',
          T ''            rx_data_len = byte;\<newline>'',
          T ''            rx_checksum = checksum_update(rx_checksum, rx_data_len); // '',
          T (utf8 [0x6821, 0x9A8C, 0x5305, 0x542B]), T '' Len\<newline>'',
          T ''            rx_cnt = 0;\<newline>'',
          T ''            rx_state = (rx_data_len > 0) ? STATE_WAIT_DATA : '',
          T ''STATE_WAIT_CRC;\<newline>'', T ''            break;\<newline>'', T ''\<newline>'',
          T ''        case STATE_WAIT_DATA:\<newline>'',
          T ''            rx_buffer[rx_cnt++] = byte;\<newline>'',
          T ''            rx_checksum = checksum_update(rx_checksum, byte);\<newline>'',
          T ''            if (rx_cnt >= rx_data_len) {\<newline>'',
          T ''                rx_state = STATE_WAIT_CRC;\<newline>'',
          T ''            }\<newline>'', T ''            break;\<newline>'', T ''\<newline>'',
          T ''        case STATE_WAIT_CRC:\<newline>'', T ''            if ('', T crc_check_expr,
          T '') {\<newline>'',
          T (''                // '' @ utf8 [0x6821, 0x9A8C, 0x901A, 0x8FC7, 0xFF0C, 0x5206, 0x53D1, 0x6570, 0x636E] @ ''\<newline>''),
          T ''                switch (rx_id) {\<newline>''],
      each (\<lambda>msg. parts
        [wr [T ''                    case PACKET_ID_'', item_upper msg ''name'', T '':\<newline>''],
         ifE (get_true msg ''reliable'' (PBool False))
           (parts
            [wr [T ''                        if (rx_data_len == sizeof(Packet_'',
                 item_str msg ''name'', T '') + 1) {\<newline>''],
             wr [T ''                            on_receive_'', item_str msg ''name'',
                 T ''((Packet_'', item_str msg ''name'', T ''*)rx_buffer);\<newline>''],
             wr [T ''                            g_last_reliable_seq = rx_buffer[sizeof(Packet_'',
                 item_str msg ''name'', T '')];\<newline>''],
             wr [T ''                            send_reliable_ack(PACKET_ID_'',
                 item_upper msg ''name'', T '');\<newline>''],
             wr [T ''                        }\<newline>'']])
           (parts
            [wr [T ''                        if (rx_data_len == sizeof(Packet_'',
                 item_str msg ''name'', T '')) {\<newline>''],
             whenE (item_eq msg ''name'' ''Heartbeat'')
               (parts
                [wr [T ''                            // '',
                     T (utf8 [0x6846, 0x67B6, 0x5185, 0x7F6E, 0xFF1A, 0x539F, 0x6837, 0x56DE, 0x4F20]),
                     T (utf8 [0x5FC3, 0x8DF3, 0x5305, 0x4F5C, 0x4E3A]), T '' ACK\<newline>''],
                 wr [T ''                            send_Heartbeat((const '',
                     T ''Packet_Heartbeat*)rx_buffer);\<newline>'']]),
             whenE (andE (item_eq msg ''name'' ''Handshake'') (Inr (truthy require_handshake)))
               (parts
                [wr [T ''                            // '',
                     T (utf8 [0x6846, 0x67B6, 0x5185, 0x7F6E, 0xFF1A, 0x56DE, 0x4F20, 0x672C, 0x673A]),
                     T (utf8 [0x534F, 0x8BAE, 0x54C8, 0x5E0C, 0xFF0C, 0x7531]), T '' ROS '',
                     T (utf8 [0x7AEF, 0x6821, 0x9A8C, 0x662F, 0x5426, 0x5339, 0x914D]),
                     T ''\<newline>''],
                 wr [T ''                            {\<newline>''],
                 wr [T ''                                Packet_Handshake handshake_reply;\<newline>''],
                 wr [T ''                                handshake_reply.protocol_hash = '',
                     T ''PROTOCOL_HASH;\<newline>''],
                 wr [T ''                                send_Handshake(&handshake_reply);\<newline>''],
                 wr [T ''                            }\<newline>'']]),
             wr [T ''                            on_receive_'', item_str msg ''name'',
                 T ''((Packet_'', item_str msg ''name'', T ''*)rx_buffer);\<newline>''],
             wr [T ''                        }\<newline>'']]),
         wr [T ''                        break;\<newline>'']]) messages,
      wr [T ''\<newline>'', T ''                    default:\<newline>'',
          T ''                        break;\<newline>'', T ''                }\<newline>'',
          T ''            }\<newline>'',
          T ''            rx_state = STATE_WAIT_HEADER1;\<newline>'',
          T ''            break;\<newline>'', T ''\<newline>'', T ''        default:\<newline>'',
          T ''            rx_state = STATE_WAIT_HEADER1;\<newline>'',
          T ''            break;\<newline>'', T ''    }\<newline>'', T ''}\<newline>'']]\<close>

definition source_send :: "pyval list \<Rightarrow> seg list res" where
  \<open>source_send messages = parts
     [wr [T ''\<newline>'',
          T (''// --- '' @ utf8 [0x53D1, 0x9001, 0x51FD, 0x6570] @ '' ---\<newline>'')],
      wr [T ''// '',
          T (utf8 [0x5916, 0x90E8, 0x4F9D, 0x8D56, 0xFF1A, 0x7528, 0x6237, 0x5FC5, 0x987B]),
          T (utf8 [0x5B9E, 0x73B0]),
          T '' void serial_write(const uint8_t* data, uint16_t len);\<newline>''],
      wr [T ''// '', T (utf8 [0x6CE8, 0x610F, 0xFF1A, 0x534F, 0x8BAE, 0x5C42, 0x4F1A, 0x5728]),
          T '' protocol_fsm_feed() '',
          T (utf8 [0x7684, 0x8C03, 0x7528, 0x4E0A, 0x4E0B, 0x6587, 0x4E2D, 0x53D1, 0x9001]),
          T (utf8 [0x56DE, 0x5305, 0xFF08, 0x5FC3, 0x8DF3]), T ''/'', T (utf8 [0x63E1, 0x624B]),
          T ''/ACK'', T (utf8 [0xFF09, 0x3002]), T ''\<newline>''],
      wr [T ''// '', T (utf8 [0x82E5]), T '' protocol_fsm_feed() '',
          T (utf8 [0x5728, 0x4E2D, 0x65AD, 0x4E2D, 0x8C03, 0x7528, 0xFF0C, 0x800C, 0x4E1A]),
          T (utf8 [0x52A1, 0x4EE3, 0x7801, 0x4E5F, 0x5728, 0x4E3B, 0x5FAA, 0x73AF, 0x8C03]),
          T (utf8 [0x7528]), T '' send_xxx()'', T (utf8 [0xFF0C]), T ''\<newline>''],
      wr [T ''// '', T (utf8 [0x5219]), T '' serial_write() '',
          T (utf8 [0x5FC5, 0x987B, 0x81EA, 0x884C, 0x4FDD, 0x8BC1, 0x53EF, 0x91CD, 0x5165]),
          T ''/'',
          T (utf8 [0x5E76, 0x53D1, 0x5B89, 0x5168, 0xFF08, 0x5982, 0x5173, 0x4E2D, 0x65AD]),
          T (utf8 [0x6216, 0x4F7F, 0x7528, 0x53D1, 0x9001, 0x961F, 0x5217, 0xFF09, 0x3002]),
          T ''\<newline>''],
      wr [T ''extern void serial_write(const uint8_t* data, uint16_t len);\<newline>'',
          T ''\<newline>''],
      each (\<lambda>msg. parts
        [wr [T ''void send_'', item_str msg ''name'', T ''(const Packet_'',
             item_str msg ''name'', T ''* pkt) {\<newline>''],
         wr [T ''    uint8_t buffer[4 + sizeof(Packet_'', item_str msg ''name'',
             T '') + 1];\<newline>''],
         wr [T ''    uint16_t idx = 0;\<newline>''],
         wr [T ''    \<newline>''],
         wr [T ''    buffer[idx++] = FRAME_HEADER1;\<newline>''],
         wr [T ''    buffer[idx++] = FRAME_HEADER2;\<newline>''],
         wr [T ''    buffer[idx++] = PACKET_ID_'', item_upper msg ''name'', T '';\<newline>''],
         wr [T ''    buffer[idx++] = sizeof(Packet_'', item_str msg ''name'', T '');\<newline>''],
         wr [T ''    \<newline>''],
         wr [T ''    memcpy(&buffer[idx], pkt, sizeof(Packet_'', item_str msg ''name'',
             T ''));\<newline>''],
         wr [T ''    idx += sizeof(Packet_'', item_str msg ''name'', T '');\<newline>''],
         wr [T ''    \<newline>''],
         wr [T ''    buffer[idx] = calculate_checksum(&buffer[2], idx - 2);\<newline>''],
         wr [T ''    idx++;\<newline>''],
         wr [T ''    \<newline>''],
         wr [T ''    serial_write(buffer, idx);\<newline>''],
         wr [T ''}\<newline>'']]) messages,
      wr [T ''\<newline>''],
      blk (T ''Code_1''),
      wr [T ''\<newline>''],
      wr [T ''// '', T (utf8 [0x5FC3, 0x8DF3, 0x7531]), T '' ROS '',
          T (utf8 [0x7AEF, 0x5468, 0x671F, 0x53D1, 0x8D77]), T '' ('', T (utf8 [0x95F4, 0x9694]),
          T '' CFG_HEARTBEAT_INTERVAL_MS)'', T (utf8 [0xFF0C]), T ''\<newline>''],
      wr [T (''// '' @ utf8 [0x534F, 0x8BAE, 0x5C42, 0x6536, 0x5230, 0x540E, 0x81EA, 0x52A8, 0x539F, 0x6837, 0x56DE, 0x5305, 0xFF0C] @ ''MCU '' @ utf8 [0x4FA7, 0x65E0, 0x9700, 0x4E3B, 0x52A8, 0x53D1, 0x9001, 0x5FC3, 0x8DF3, 0x3002] @ ''\<newline>'')],
      wr [T ''\<newline>'']]\<close>

definition mcu_source_segs :: "pyval \<Rightarrow> pyval list \<Rightarrow> pyval \<Rightarrow> seg list res" where
  "mcu_source_segs config messages type_mappings =
     bindE (checksum_algo_of config) (\<lambda>checksum_algo.
     bindE (py_get config ''require_handshake'' (PBool True)) (\<lambda>require_handshake.
     bindE (max_of (\<lambda>msg. message_payload_size msg type_mappings) messages) (\<lambda>max_struct_payload.
     bindE (max_of (\<lambda>msg. message_wire_payload_size msg type_mappings) messages) (\<lambda>max_wire_payload.
     parts
       [source_preamble max_struct_payload max_wire_payload,
        source_checksum checksum_algo,
        bindE (any_reliable messages) source_ack,
        source_hooks messages,
        source_fsm (if checksum_algo = ''NONE'' then ''1'' else ''byte == rx_checksum'')
          require_handshake messages,
        source_send messages]))))"

definition generate_mcu_source ::
  "pyval \<Rightarrow> pyval list \<Rightarrow> pyval \<Rightarrow> string \<Rightarrow> blocks \<Rightarrow> fs \<Rightarrow> fs res" where
  "generate_mcu_source config messages type_mappings output_path user_blocks fs =
     bindE (mcu_source_segs config messages type_mappings) (\<lambda>segs.
     Inr (write_segments fs output_path user_blocks segs))"

end
