(* ===== verification/RosPath.thy ===== *)
theory RosPath
  imports PyRegex "HOL-Library.AList"
begin

text \<open>
  ROS field paths: \<open>_analyze_ros_path\<close> turns \<open>data[2].x\<close> into the C++ expression the
  binding code reads or writes, and collects how long each indexed container must be. The
  generated handlers check these requirements before any access.
\<close>

section \<open>Segments\<close>

definition digits_re :: rexp where "digits_re = Plus1 (Cls is_digit)"   \<comment> \<open>\<open>\d+\<close>\<close>

definition segment_re :: rexp where
  \<comment> \<open>\<open>([A-Za-z_][A-Za-z0-9_]*)(?:\[(\d+)\])?$\<close>\<close>
  "segment_re =
     Seq (Seq (Cls is_alpha_us) (Star (Cls is_word)))
         (Opt (Seq (Chr CHR ''['') (Seq digits_re (Chr CHR '']''))))"

text \<open>The two groups of a match: the name, and the digits of the index if there is one.\<close>

definition segment_groups :: "string \<Rightarrow> (string \<times> string option) option" where
  "segment_groups seg =
     (if fullmatch segment_re seg then
        let name = takeWhile is_word seg; rest = dropWhile is_word seg
        in Some (name, if rest = [] then None else Some (butlast (tl rest)))
      else None)"

lemma digit_word: "is_digit c \<Longrightarrow> is_word c"
  by (simp add: is_word_def)

lemma bracket_not_word [simp]: "\<not> is_word CHR ''[''" "\<not> is_digit CHR '']''"
  by (simp_all add: is_word_def is_alpha_us_def is_lower_def is_upper_def is_digit_def)

lemma lang_digits: "lang digits_re ds \<longleftrightarrow> ds \<noteq> [] \<and> list_all is_digit ds"
  by (auto simp: digits_re_def lang_Seq_Cls lang_Star_Cls neq_Nil_conv)

lemma lang_index:
  "lang (Seq (Chr CHR ''['') (Seq digits_re (Chr CHR '']''))) t \<longleftrightarrow>
     (\<exists>ds. t = ''['' @ ds @ '']'' \<and> ds \<noteq> [] \<and> list_all is_digit ds)"
proof -
  have "lang (Seq digits_re (Chr CHR '']'')) u \<longleftrightarrow>
      (\<exists>ds. u = ds @ '']'' \<and> lang digits_re ds)" for u
    by (subst lang_Seq) auto
  then show ?thesis by (auto simp only: lang_Seq_Cls lang_digits append.simps)
qed

lemma segment_re_iff:
  "fullmatch segment_re seg \<longleftrightarrow>
     (\<exists>name. fullmatch identifier_re name \<and>
        (seg = name \<or>
         (\<exists>ds. seg = name @ ''['' @ ds @ '']'' \<and> ds \<noteq> [] \<and> list_all is_digit ds)))"
proof -
  have "lang segment_re seg \<longleftrightarrow> (\<exists>name t. seg = name @ t \<and> lang identifier_re name \<and>
      (t = [] \<or> lang (Seq (Chr CHR ''['') (Seq digits_re (Chr CHR '']''))) t))"
    unfolding segment_re_def identifier_re_def
    by (subst lang_Seq) (simp only: lang_Alt lang_Eps, blast)
  then show ?thesis unfolding fullmatch_lang lang_index by (metis append_Nil2)
qed

lemma takeWhile_append_stop:
  "list_all p xs \<Longrightarrow> \<not> p y \<Longrightarrow> takeWhile p (xs @ y # ys) = xs \<and> dropWhile p (xs @ y # ys) = y # ys"
  by (induction xs) auto

lemma segment_groups_plain:
  assumes "fullmatch identifier_re name"
  shows "segment_groups name = Some (name, None)"
proof -
  have "list_all is_word name" using assms identifier_word by blast
  then have "takeWhile is_word name = name" and "dropWhile is_word name = []"
    by (auto simp: list_all_iff)
  then show ?thesis
    using assms segment_re_iff [of name] by (auto simp: segment_groups_def)
qed

lemma segment_groups_index:
  assumes "fullmatch identifier_re name" and "ds \<noteq> []" and "list_all is_digit ds"
  shows "segment_groups (name @ ''['' @ ds @ '']'') = Some (name, Some ds)"
proof -
  have "list_all is_word name" using assms(1) identifier_word by blast
  then have "takeWhile is_word (name @ ''['' @ ds @ '']'') = name"
    and "dropWhile is_word (name @ ''['' @ ds @ '']'') = ''['' @ ds @ '']''"
    using takeWhile_append_stop [of is_word name "CHR ''[''" "ds @ '']''"] by auto
  moreover have "fullmatch segment_re (name @ ''['' @ ds @ '']'')"
    using assms segment_re_iff by blast
  ultimately show ?thesis
    by (simp add: segment_groups_def butlast_append)
qed

lemma segment_groups_cases:
  assumes "segment_groups seg = Some (name, idx)"
  shows "fullmatch identifier_re name \<and>
    (idx = None \<and> seg = name \<or>
     (\<exists>ds. idx = Some ds \<and> ds \<noteq> [] \<and> list_all is_digit ds \<and> seg = name @ ''['' @ ds @ '']''))"
proof -
  have "fullmatch segment_re seg" using assms by (auto simp: segment_groups_def split: if_splits)
  then obtain nm ds where nm: "fullmatch identifier_re nm"
    and "seg = nm \<or> seg = nm @ ''['' @ ds @ '']'' \<and> ds \<noteq> [] \<and> list_all is_digit ds"
    using segment_re_iff by blast
  then show ?thesis
    using assms segment_groups_plain [OF nm] segment_groups_index [OF nm, of ds] by auto
qed

section \<open>Container requirements\<close>

type_synonym reqs = "(string \<times> nat) list"

definition req_of :: "reqs \<Rightarrow> string \<Rightarrow> nat" where       \<comment> \<open>\<open>reqs.get(expr, 0)\<close>\<close>
  "req_of reqs e = (case map_of reqs e of None \<Rightarrow> 0 | Some n \<Rightarrow> n)"

definition req_max :: "string \<Rightarrow> nat \<Rightarrow> reqs \<Rightarrow> reqs" where
  "req_max e n reqs = AList.update e (max (req_of reqs e) n) reqs"

definition merge_vector_requirements :: "reqs \<Rightarrow> reqs \<Rightarrow> reqs" where
  "merge_vector_requirements dest updates = foldl (\<lambda>d (e, n). req_max e n d) dest updates"

definition vector_label :: "string \<Rightarrow> string" where
  "vector_label expr =
     (if take 5 expr = ''msg->'' then drop 5 expr
      else if take 4 expr = ''msg.'' then drop 4 expr
      else expr)"

lemma req_of_req_max:
  "req_of (req_max e n reqs) e' = (if e = e' then max (req_of reqs e) n else req_of reqs e')"
  by (auto simp: req_max_def req_of_def update_conv')

lemma set_req_max: "fst ` set (req_max e n reqs) = insert e (fst ` set reqs)"
  by (simp add: req_max_def dom_update)

lemma distinct_req_max:
  "distinct (map fst reqs) \<Longrightarrow> distinct (map fst (req_max e n reqs))"
  by (simp add: req_max_def distinct_update)

lemma req_of_Cons: "req_of ((e', n) # us) e = (if e' = e then n else req_of us e)"
  by (simp add: req_of_def)

lemma merge_Cons:
  "merge_vector_requirements dest ((e, n) # us) = merge_vector_requirements (req_max e n dest) us"
  by (simp add: merge_vector_requirements_def)

lemma req_of_absent: "e \<notin> fst ` set us \<Longrightarrow> req_of us e = 0"
  by (force simp: req_of_def split: option.splits dest: map_of_SomeD)

lemma req_of_merge:
  assumes "distinct (map fst updates)"
  shows "req_of (merge_vector_requirements dest updates) e = max (req_of dest e) (req_of updates e)"
  using assms
proof (induction updates arbitrary: dest)
  case (Cons u us)
  obtain e' n where u: "u = (e', n)" by (cases u)
  have "req_of us e' = 0"
    using Cons.prems u by (intro req_of_absent) auto
  then show ?case
    using Cons.IH [of "req_max e' n dest"] Cons.prems u
    by (auto simp: merge_Cons req_of_req_max req_of_Cons)
qed (simp add: merge_vector_requirements_def req_of_def)

lemma distinct_merge:
  "distinct (map fst dest) \<Longrightarrow> distinct (map fst (merge_vector_requirements dest updates))"
  by (induction updates arbitrary: dest)
    (auto simp: merge_vector_requirements_def distinct_req_max)

section \<open>The path walk\<close>

definition separator :: "bool \<Rightarrow> nat \<Rightarrow> string" where
  "separator pointer index = (if pointer \<and> index = 0 then ''->'' else ''.'')"

fun analyze_segments :: "bool \<Rightarrow> nat \<Rightarrow> string \<Rightarrow> reqs \<Rightarrow> string list \<Rightarrow> (string \<times> reqs) res" where
  "analyze_segments pointer index current_expr reqs [] = Inr (current_expr, reqs)"
| "analyze_segments pointer index current_expr reqs (segment # segments) =
     (case segment_groups segment of
        None \<Rightarrow> Inl ValueError
      | Some (name, array_index) \<Rightarrow>
          let base_expr = current_expr @ separator pointer index @ name
          in case array_index of
               Some ds \<Rightarrow>
                 analyze_segments pointer (Suc index) (base_expr @ ''['' @ ds @ '']'')
                   (req_max base_expr (digits_val ds + 1) reqs) segments
             | None \<Rightarrow> analyze_segments pointer (Suc index) base_expr reqs segments)"

definition analyze_ros_path :: "string \<Rightarrow> string \<Rightarrow> bool \<Rightarrow> (string \<times> reqs) res" where
  "analyze_ros_path path root_var pointer =
     analyze_segments pointer 0 root_var [] (split_on CHR ''.'' path)"

text \<open>
  What evaluating the resulting expression does: the container expressions it indexes, with
  the index, read off the path segment by segment.
\<close>

fun indexed_accesses :: "bool \<Rightarrow> nat \<Rightarrow> string \<Rightarrow> string list \<Rightarrow> (string \<times> nat) list" where
  "indexed_accesses pointer index e [] = []"
| "indexed_accesses pointer index e (segment # segments) =
     (let name = takeWhile is_word segment; rest = dropWhile is_word segment;
          base = e @ separator pointer index @ name
      in (if rest = [] then [] else [(base, digits_val (butlast (tl rest)))]) @
         indexed_accesses pointer (Suc index) (base @ rest) segments)"

definition path_accesses :: "string \<Rightarrow> string \<Rightarrow> bool \<Rightarrow> (string \<times> nat) list" where
  "path_accesses path root_var pointer =
     indexed_accesses pointer 0 root_var (split_on CHR ''.'' path)"

lemma segment_groups_SomeD:
  assumes "segment_groups seg = Some (name, idx)"
  shows "name = takeWhile is_word seg"
    and "idx = None \<Longrightarrow> dropWhile is_word seg = []"
    and "idx = Some ds \<Longrightarrow> dropWhile is_word seg = ''['' @ ds @ '']''"
proof -
  show name: "name = takeWhile is_word seg"
    using assms by (auto simp: segment_groups_def Let_def split: if_splits)
  have seg: "seg = takeWhile is_word seg @ dropWhile is_word seg" by simp
  show "idx = None \<Longrightarrow> dropWhile is_word seg = []"
    using assms by (auto simp: segment_groups_def Let_def split: if_splits)
  show "idx = Some ds \<Longrightarrow> dropWhile is_word seg = ''['' @ ds @ '']''"
    using segment_groups_cases [OF assms] seg name by (metis option.distinct(1) option.inject same_append_eq)
qed

lemma analyze_segments_reqs:
  assumes "analyze_segments p i e reqs segs = Inr (acc, reqs')"
  shows "req_of reqs' x = fold (\<lambda>(b, k) m. if b = x then max m (k + 1) else m)
           (indexed_accesses p i e segs) (req_of reqs x)"
  using assms
proof (induction segs arbitrary: i e reqs)
  case (Cons seg segs)
  from Cons.prems obtain name idx where g: "segment_groups seg = Some (name, idx)"
    by (auto split: option.splits)
  show ?case
  proof (cases idx)
    case None
    have "indexed_accesses p i e (seg # segs) = indexed_accesses p (Suc i) (e @ separator p i @ name) segs"
      by (simp only: indexed_accesses.simps Let_def segment_groups_SomeD(2) [OF g None]
          segment_groups_SomeD(1) [OF g, symmetric] simp_thms if_True append_Nil append_Nil2)
    with None Cons.prems g Cons.IH show ?thesis by (simp add: Let_def)
  next
    case (Some ds)
    with Cons.prems g Cons.IH segment_groups_SomeD(1) [OF g] segment_groups_SomeD(3) [OF g Some]
    show ?thesis
      by (simp add: Let_def butlast_append req_of_req_max)
  qed
qed simp

lemma fold_max_ge:
  "m \<le> fold (\<lambda>(b, k) m. if b = x then max m (k + 1) else m) as (m :: nat)"
proof (induction as arbitrary: m)
  case (Cons a as)
  obtain b k where a: "a = (b, k)" by (cases a)
  show ?case
    using Cons.IH [of "if b = x then max m (k + 1) else m"] a by (simp split: if_splits)
qed simp

lemma fold_max_covers:
  "(x, k) \<in> set as \<Longrightarrow> k < fold (\<lambda>(b, k) m. if b = x then max m (k + 1) else m) as (m :: nat)"
proof (induction as arbitrary: m)
  case (Cons a as)
  then show ?case
    using fold_max_ge [of "max m (k + 1)" x as] by (auto split: prod.splits)
qed simp

lemma fold_max_tight:
  "fold (\<lambda>(b, k) m. if b = x then max m (k + 1) else m) as (m :: nat) = n \<Longrightarrow>
     n = m \<or> (\<exists>k. (x, k) \<in> set as \<and> n = k + 1)"
proof (induction as arbitrary: m)
  case (Cons a as)
  obtain b k where a: "a = (b, k)" by (cases a)
  show ?case
    using Cons.IH [of "if b = x then max m (k + 1) else m"] Cons.prems a
    by (auto simp: max_def split: if_splits)
qed simp

lemma analyze_ros_path_accepts:
  "(\<exists>r. analyze_segments p i e reqs segs = Inr r) \<longleftrightarrow> list_all (fullmatch segment_re) segs"
proof (induction segs arbitrary: i e reqs)
  case (Cons seg segs)
  show ?case
  proof (cases "segment_groups seg")
    case None
    then show ?thesis by (auto simp: segment_groups_def Let_def split: if_splits)
  next
    case (Some g)
    obtain name idx where "g = (name, idx)" by (cases g)
    moreover from Some have "fullmatch segment_re seg"
      by (auto simp: segment_groups_def split: if_splits)
    ultimately show ?thesis
      using Some Cons.IH by (cases idx) (simp_all add: Let_def)
  qed
qed simp

lemma analyze_segments_error: "analyze_segments p i e reqs segs = Inl x \<Longrightarrow> x = ValueError"
  by (induction p i e reqs segs rule: analyze_segments.induct)
    (auto simp: Let_def split: option.splits)

lemma analyze_segments_distinct:
  "analyze_segments p i e reqs segs = Inr (acc, reqs') \<Longrightarrow> distinct (map fst reqs) \<Longrightarrow>
     distinct (map fst reqs')"
  by (induction p i e reqs segs rule: analyze_segments.induct)
    (auto simp: Let_def distinct_req_max split: option.splits)

text \<open>The characters an accepted path can put into the generated C++.\<close>

definition is_expr_char :: "char \<Rightarrow> bool" where
  "is_expr_char c \<longleftrightarrow> is_word c \<or> c \<in> set ''.[]->''"

lemma identifier_expr: "fullmatch identifier_re s \<Longrightarrow> list_all is_expr_char s"
  using identifier_word [of s] by (auto simp: list_all_iff is_expr_char_def)

lemma digits_expr: "list_all is_digit s \<Longrightarrow> list_all is_expr_char s"
  by (auto simp: list_all_iff is_expr_char_def digit_word)

lemma expr_char_lits [simp]: "is_expr_char CHR ''.''" "is_expr_char CHR ''[''" "is_expr_char CHR '']''"
  "is_expr_char CHR ''-''" "is_expr_char CHR ''>''"
  by (simp_all add: is_expr_char_def)

lemma analyze_segments_chars:
  "analyze_segments p i e reqs segs = Inr (acc, reqs') \<Longrightarrow> list_all is_expr_char e \<Longrightarrow>
     (\<forall>b \<in> fst ` set reqs. list_all is_expr_char b) \<Longrightarrow>
     list_all is_expr_char acc \<and> (\<forall>b \<in> fst ` set reqs'. list_all is_expr_char b)"
proof (induction segs arbitrary: i e reqs)
  case (Cons seg segs)
  from Cons.prems obtain name idx where g: "segment_groups seg = Some (name, idx)"
    by (auto split: option.splits)
  let ?b = "e @ separator p i @ name"
  have b: "list_all is_expr_char ?b"
    using segment_groups_cases [OF g] Cons.prems(2)
    by (simp add: identifier_expr separator_def)
  show ?case
  proof (cases idx)
    case None
    then have "analyze_segments p (Suc i) ?b reqs segs = Inr (acc, reqs')"
      using Cons.prems(1) g by (simp add: Let_def)
    then show ?thesis by (rule Cons.IH) (use b Cons.prems(3) in blast)+
  next
    case (Some ds)
    then have "list_all is_digit ds" using segment_groups_cases [OF g] by auto
    then have b': "list_all is_expr_char (?b @ ''['' @ ds @ '']'')"
      using b by (simp add: digits_expr)
    have "analyze_segments p (Suc i) (?b @ ''['' @ ds @ '']'')
        (req_max ?b (digits_val ds + 1) reqs) segs = Inr (acc, reqs')"
      using Cons.prems(1) g Some by (simp add: Let_def)
    moreover have "\<forall>x \<in> fst ` set (req_max ?b (digits_val ds + 1) reqs). list_all is_expr_char x"
      unfolding set_req_max using b Cons.prems(3) by (simp only: ball_simps simp_thms)
    ultimately show ?thesis using b' by (intro Cons.IH)
  qed
qed simp

text \<open>An accepted path is copied as it is, after the root variable and the first separator.\<close>

lemma join_dot: "join ''.'' (w # ws) = w @ concat (map (\<lambda>v. ''.'' @ v) ws)"
  by (induction ws arbitrary: w) simp_all

lemma analyze_segments_step:
  assumes "analyze_segments p i e reqs (seg # segs) = Inr r"
  shows "\<exists>reqs'. analyze_segments p (Suc i) (e @ separator p i @ seg) reqs' segs = Inr r"
proof -
  from assms obtain name idx where g: "segment_groups seg = Some (name, idx)"
    by (auto split: option.splits)
  show ?thesis
  proof (cases idx)
    case None
    with assms g segment_groups_cases [OF g] show ?thesis by (auto simp: Let_def)
  next
    case (Some ds)
    with segment_groups_cases [OF g] have "seg = name @ ''['' @ ds @ '']''" by auto
    then have "e @ separator p i @ seg = (e @ separator p i @ name) @ ''['' @ ds @ '']''" by simp
    then show ?thesis using assms g Some by (auto simp: Let_def)
  qed
qed

lemma analyze_segments_later:
  "analyze_segments p (Suc i) e reqs segs = Inr (acc, reqs') \<Longrightarrow> acc = e @ concat (map (\<lambda>v. ''.'' @ v) segs)"
proof (induction segs arbitrary: i e reqs)
  case (Cons seg segs)
  from analyze_segments_step [OF Cons.prems] obtain r1 where
    "analyze_segments p (Suc (Suc i)) (e @ separator p (Suc i) @ seg) r1 segs = Inr (acc, reqs')" by blast
  from Cons.IH [OF this] show ?case by (simp add: separator_def)
qed simp

lemma analyze_ros_path_expr:
  assumes "analyze_ros_path path root p = Inr (acc, reqs)"
  shows "acc = root @ separator p 0 @ path"
proof -
  obtain seg segs where sp: "split_on CHR ''.'' path = seg # segs"
    by (cases "split_on CHR ''.'' path") auto
  from assms have "analyze_segments p 0 root [] (seg # segs) = Inr (acc, reqs)"
    by (simp only: analyze_ros_path_def sp)
  from analyze_segments_step [OF this] obtain r1 where
    "analyze_segments p (Suc 0) (root @ separator p 0 @ seg) r1 segs = Inr (acc, reqs)" by blast
  from analyze_segments_later [OF this]
  have "acc = root @ separator p 0 @ seg @ concat (map (\<lambda>v. ''.'' @ v) segs)" by simp
  moreover have "seg @ concat (map (\<lambda>v. ''.'' @ v) segs) = path"
    using join_split_on [of "CHR ''.''" path] join_dot [of seg segs] sp by simp
  ultimately show ?thesis by (simp only:)
qed

end
