(* ===== verification/Validate.thy ===== *)
theory Validate
  imports Schema RosPath
begin

text \<open>
  \<open>validate_protocol\<close>: every check of the configuration, in the order of the code, over
  raw YAML values. An error message of the code is a constructor of \<open>verr\<close> with the
  values the message shows; an exception the code does not catch is an \<open>Inl\<close>. The function
  also normalises the configuration in place (checksum name, debug log mode, absent message
  list), so a run that succeeds returns the updated configuration.
\<close>

section \<open>Errors and patterns\<close>

datatype verr =
    ConfigNotMapping | MessagesNotList | TypeMappingsNotMapping | ParamsNotMapping
  | BaudrateInConfig | BadBaudrate | BadPort
  | BadChecksum pyval | BadHeadByte string | BadBufferSize | EnableHeartbeat
  | NotBoolean string | NotPositive string | TimeoutBelowInterval int int
  | MessageNotMapping nat | MissingField pyval string
  | BadDirection pyval pyval | BadDebugMode pyval pyval
  | BadReliable pyval pyval | ReliableNotTx pyval pyval
  | BadId pyval | ReservedId pyval int string | DuplicateId pyval int pyval
  | BadName pyval | ReservedName string | DuplicateName string
  | SymbolConflict string string string
  | BadRosMsg pyval pyval | MissingTopic pyval pyval string | BadTopic pyval string pyval
  | LoopTopic pyval pyval | ReusedTopic pyval string string pyval
  | FieldsNotList pyval | NoFields pyval | FieldNotMapping pyval
  | BadFieldName pyval pyval | ReservedFieldName pyval string | DuplicateField pyval string
  | UnknownType pyval pyval pyval | MissingRosPath pyval pyval | BadRosPath pyval pyval
  | WireTooBig pyval int | BufferTooSmall int int

definition err_if :: "bool \<Rightarrow> verr \<Rightarrow> verr list" where
  "err_if b e = (if b then [e] else [])"

lemma err_if_Nil [simp]: "err_if b e = [] \<longleftrightarrow> \<not> b" "[] = err_if b e \<longleftrightarrow> \<not> b"
  by (auto simp: err_if_def)

definition ros_msg_re :: rexp where   \<comment> \<open>\<open>^[a-z][a-z0-9_]*/msg/[A-Z][A-Za-z0-9_]*$\<close>\<close>
  "ros_msg_re =
     Seq (Cls is_lower)
      (Seq (Star (Cls (\<lambda>c. is_lower c \<or> is_digit c \<or> c = CHR ''_'')))
       (Seq (Lit ''/msg/'') (Seq (Cls is_upper) (Star (Cls is_word)))))"

text \<open>\<open>^(?!/)(?!.*//)[A-Za-z0-9_~][A-Za-z0-9_~/]*$\<close>, with its two negative lookaheads.\<close>

definition topic_fullmatch :: "string \<Rightarrow> bool" where
  "topic_fullmatch s \<longleftrightarrow>
     \<not> prefixmatch (Chr CHR ''/'') s \<and>
     \<not> prefixmatch (Seq (Star (Cls (\<lambda>c. c \<noteq> CHR 0x0A))) (Lit ''//'')) s \<and>
     fullmatch (Seq (Cls (\<lambda>c. is_word c \<or> c = CHR ''~''))
                    (Star (Cls (\<lambda>c. is_word c \<or> c = CHR ''~'' \<or> c = CHR ''/'')))) s"

definition SUPPORTED_CHECKSUMS :: "string list" where
  "SUPPORTED_CHECKSUMS = [''NONE'', ''SUM8'', ''XOR8'', ''CRC8'']"

definition pos_int :: "pyval \<Rightarrow> bool" where
  "pos_int v \<longleftrightarrow> (case strict_int v of Some i \<Rightarrow> 0 < i | None \<Rightarrow> False)"

definition byte_int :: "pyval \<Rightarrow> bool" where
  "byte_int v \<longleftrightarrow> (case strict_int v of Some i \<Rightarrow> 0 \<le> i \<and> i \<le> 255 | None \<Rightarrow> False)"

definition str_match :: "(string \<Rightarrow> bool) \<Rightarrow> pyval \<Rightarrow> bool" where
  "str_match p v \<longleftrightarrow> (case v of PStr s \<Rightarrow> p s | _ \<Rightarrow> False)"

fun dict_items :: "pyval \<Rightarrow> items" where
  "dict_items (PDict d) = d"
| "dict_items _ = []"

fun list_items :: "pyval \<Rightarrow> pyval list" where
  "list_items (PList xs) = xs"
| "list_items _ = []"

section \<open>Top-level sections\<close>

definition checksum_name :: "items \<Rightarrow> string" where
  "checksum_name cfg = upper (py_str (dget cfg ''checksum'' (PStr ''CRC8'')))"

definition INT_OPTIONS :: "(string \<times> int) list" where
  "INT_OPTIONS =
     [(''heartbeat_interval_ms'', 1000), (''heartbeat_timeout_ms'', 3000),
      (''reliable_retry_interval_ms'', 100), (''reliable_max_retries'', 3), (''qos_depth'', 10)]"

definition BOOL_OPTIONS :: "string list" where
  "BOOL_OPTIONS = [''require_handshake'', ''ignore_version_mismatch'', ''strict_heartbeat'']"

definition section_errs :: "pyval \<Rightarrow> pyval \<Rightarrow> pyval \<Rightarrow> pyval \<Rightarrow> verr list" where
  "section_errs cfg messages type_mappings serial_params =
     err_if (\<not> is_dict cfg) ConfigNotMapping @
     err_if (messages \<noteq> PNone \<and> \<not> is_list messages) MessagesNotList @
     err_if (\<not> is_dict type_mappings) TypeMappingsNotMapping @
     err_if (\<not> is_dict serial_params) ParamsNotMapping"

definition timeout_errs :: "items \<Rightarrow> verr list" where
  "timeout_errs cfg =
     (case (strict_int (dget cfg ''heartbeat_interval_ms'' (PInt 1000)),
            strict_int (dget cfg ''heartbeat_timeout_ms'' (PInt 3000))) of
        (Some interval, Some timeout) \<Rightarrow>
          err_if (0 < interval \<and> 0 < timeout \<and> timeout < interval)
            (TimeoutBelowInterval timeout interval)
      | _ \<Rightarrow> [])"

definition config_errs :: "items \<Rightarrow> items \<Rightarrow> verr list" where
  "config_errs cfg serial_params =
     err_if (dhas cfg ''baudrate'') BaudrateInConfig @
     err_if (\<not> pos_int (dget serial_params ''baudrate'' PNone)) BadBaudrate @
     err_if (\<not> str_match (\<lambda>s. s \<noteq> []) (dget serial_params ''port'' PNone)) BadPort @
     err_if (checksum_name cfg \<notin> set SUPPORTED_CHECKSUMS)
       (BadChecksum (dget cfg ''checksum'' PNone)) @
     concat (map (\<lambda>k. err_if (\<not> byte_int (dget cfg k PNone)) (BadHeadByte k))
       [''head_byte_1'', ''head_byte_2'']) @
     err_if (\<not> pos_int (dget cfg ''buffer_size'' PNone)) BadBufferSize @
     err_if (dhas cfg ''enable_heartbeat'') EnableHeartbeat @
     concat (map (\<lambda>k. err_if (\<not> is_bool (dget cfg k (PBool True))) (NotBoolean k)) BOOL_OPTIONS) @
     concat (map (\<lambda>(k, dflt). err_if (\<not> pos_int (dget cfg k (PInt dflt))) (NotPositive k))
       INT_OPTIONS) @
     timeout_errs cfg"

section \<open>One message\<close>

record vstate =
  errors :: "verr list"
  seen_ids :: "(int \<times> pyval) list"
  seen_names :: "string list"
  seen_symbols :: "(string \<times> string) list"
  seen_sub :: "(string \<times> pyval) list"
  seen_pub :: "(string \<times> pyval) list"
  checked :: "pyval list"       \<comment> \<open>the messages so far, with their in-place updates\<close>

definition add_errs :: "verr list \<Rightarrow> vstate \<Rightarrow> vstate" where
  "add_errs es st = st\<lparr>errors := errors st @ es\<rparr>"

definition required_errs :: "pyval \<Rightarrow> items \<Rightarrow> verr list" where
  "required_errs label msg =
     concat (map (\<lambda>k. err_if (\<not> dhas msg k) (MissingField label k))
       [''name'', ''id'', ''direction'', ''ros_msg'', ''fields''])"

definition VALID_DIRECTIONS :: "pyval list" where
  "VALID_DIRECTIONS = [PStr ''tx'', PStr ''rx'', PStr ''both'']"

definition direction_errs :: "pyval \<Rightarrow> items \<Rightarrow> verr list res" where
  "direction_errs label msg =
     (let v = dget msg ''direction'' PNone in
      if hashable v then Inr (err_if (v \<notin> set VALID_DIRECTIONS) (BadDirection label v))
      else Inl TypeError)"

definition normalize_debug_log_mode :: "pyval \<Rightarrow> string" where
  "normalize_debug_log_mode v =
     (case v of PNone \<Rightarrow> ''on'' | _ \<Rightarrow> lower (strip (py_str v)))"

definition debug_mode_of :: "items \<Rightarrow> string" where
  "debug_mode_of msg = normalize_debug_log_mode (dget msg ''debug_log_mode'' (PStr ''on''))"

definition valid_debug_mode :: "items \<Rightarrow> bool" where
  "valid_debug_mode msg \<longleftrightarrow> debug_mode_of msg = ''on'' \<or> debug_mode_of msg = ''off''"

definition debug_errs :: "pyval \<Rightarrow> items \<Rightarrow> verr list" where
  "debug_errs label msg =
     err_if (\<not> valid_debug_mode msg) (BadDebugMode label (dget msg ''debug_log_mode'' PNone))"

definition debug_update :: "items \<Rightarrow> items" where
  "debug_update msg =
     (if valid_debug_mode msg
      then dict_set msg (K ''debug_log_mode'') (PStr (debug_mode_of msg)) else msg)"

definition reliable_errs :: "pyval \<Rightarrow> items \<Rightarrow> verr list" where
  "reliable_errs label msg =
     err_if (dhas msg ''reliable'' \<and> \<not> is_bool (dget msg ''reliable'' PNone))
       (BadReliable label (dget msg ''reliable'' PNone)) @
     err_if (truthy (dget msg ''reliable'' (PBool False)) \<and> dget msg ''direction'' PNone \<noteq> PStr ''tx'')
       (ReliableNotTx label (dget msg ''direction'' PNone))"

definition check_id :: "pyval \<Rightarrow> items \<Rightarrow> vstate \<Rightarrow> vstate" where
  "check_id label msg st =
     (case dget msg ''id'' PNone of
        PNone \<Rightarrow> st
      | mid \<Rightarrow>
          (if \<not> byte_int mid then add_errs [BadId label] st
           else let i = the (strict_int mid) in
             case map_of RESERVED_IDS i of
               Some nm \<Rightarrow> add_errs [ReservedId label i nm] st
             | None \<Rightarrow>
                (case map_of (seen_ids st) i of
                   Some other \<Rightarrow> add_errs [DuplicateId label i other] st
                 | None \<Rightarrow> st\<lparr>seen_ids := seen_ids st @ [(i, label)]\<rparr>)))"

definition check_name :: "items \<Rightarrow> vstate \<Rightarrow> vstate" where
  "check_name msg st =
     (case dget msg ''name'' PNone of
        PNone \<Rightarrow> st
      | PStr name \<Rightarrow>
          if \<not> fullmatch identifier_re name then add_errs [BadName (PStr name)] st
          else if name \<in> set SYSTEM_MESSAGE_NAMES then add_errs [ReservedName name] st
          else if name \<in> set (seen_names st) then add_errs [DuplicateName name] st
          else
            let st' = st\<lparr>seen_names := seen_names st @ [name]\<rparr>; symbol = upper name in
            (case map_of (seen_symbols st) symbol of
               Some other \<Rightarrow> add_errs [SymbolConflict name symbol other] st'
             | None \<Rightarrow> st'\<lparr>seen_symbols := seen_symbols st @ [(symbol, name)]\<rparr>)
      | v \<Rightarrow> add_errs [BadName v] st)"

definition ros_msg_errs :: "pyval \<Rightarrow> items \<Rightarrow> verr list" where
  "ros_msg_errs label msg =
     (let v = dget msg ''ros_msg'' PNone in
      err_if (\<not> str_match (fullmatch ros_msg_re) v) (BadRosMsg label v))"

definition sends :: "pyval \<Rightarrow> bool" where   \<comment> \<open>\<open>direction in ('tx', 'both')\<close>\<close>
  "sends direction \<longleftrightarrow> direction = PStr ''tx'' \<or> direction = PStr ''both''"

definition receives :: "pyval \<Rightarrow> bool" where   \<comment> \<open>\<open>direction in ('rx', 'both')\<close>\<close>
  "receives direction \<longleftrightarrow> direction = PStr ''rx'' \<or> direction = PStr ''both''"

definition topic_errs :: "pyval \<Rightarrow> items \<Rightarrow> verr list" where
  "topic_errs label msg =
     (let direction = dget msg ''direction'' (PStr []);
          sub = dget msg ''sub_topic'' PNone; pub = dget msg ''pub_topic'' PNone in
      err_if (sends direction \<and> \<not> dhas msg ''sub_topic'')
        (MissingTopic label direction ''sub_topic'') @
      err_if (receives direction \<and> \<not> dhas msg ''pub_topic'')
        (MissingTopic label direction ''pub_topic'') @
      concat (map (\<lambda>k. err_if (dhas msg k \<and> \<not> str_match topic_fullmatch (dget msg k PNone))
                         (BadTopic label k (dget msg k PNone)))
        [''sub_topic'', ''pub_topic'']) @
      err_if (direction = PStr ''both'' \<and> truthy sub \<and> truthy pub \<and> norm_key sub = norm_key pub)
        (LoopTopic label sub))"

definition check_topic_use :: "pyval \<Rightarrow> items \<Rightarrow> vstate \<Rightarrow> vstate" where
  "check_topic_use label msg st =
     (let st' =
        (case dget msg ''sub_topic'' PNone of
           PStr t \<Rightarrow>
             (case map_of (seen_sub st) t of
                Some other \<Rightarrow> add_errs [ReusedTopic label ''sub_topic'' t other] st
              | None \<Rightarrow> st\<lparr>seen_sub := seen_sub st @ [(t, label)]\<rparr>)
         | _ \<Rightarrow> st)
      in
        (case dget msg ''pub_topic'' PNone of
           PStr t \<Rightarrow>
             (case map_of (seen_pub st') t of
                Some other \<Rightarrow> add_errs [ReusedTopic label ''pub_topic'' t other] st'
              | None \<Rightarrow> st'\<lparr>seen_pub := seen_pub st' @ [(t, label)]\<rparr>)
         | _ \<Rightarrow> st'))"

text \<open>One field: the errors so far and the field names seen in this message.\<close>

definition field_name_step ::
  "pyval \<Rightarrow> items \<Rightarrow> verr list \<times> string list \<Rightarrow> verr list \<times> string list" where
  "field_name_step label field acc =
     (case acc of (es, seen) \<Rightarrow>
       (case dget field ''proto'' PNone of
          PStr name \<Rightarrow>
            if \<not> fullmatch identifier_re name then (es @ [BadFieldName label (PStr name)], seen)
            else if is_reserved_c_cpp_identifier name
              then (es @ [ReservedFieldName label name], seen)
            else if name \<in> set seen then (es @ [DuplicateField label name], seen)
            else (es, seen @ [name])
        | v \<Rightarrow> (es @ [BadFieldName label v], seen)))"

definition field_type_errs :: "pyval \<Rightarrow> pyval \<Rightarrow> items \<Rightarrow> verr list res" where
  "field_type_errs type_mappings label field =
     (let ftype = dget field ''type'' (PStr []) in
      bindE (get_c_type ftype type_mappings) (\<lambda>c_type.
      if hashable c_type
      then Inr (err_if (c_type \<notin> set (map (\<lambda>(s, _). PStr s) C_TYPE_SIZES))
                 (UnknownType label (dget field ''proto'' (PStr ''?'')) ftype))
      else Inl TypeError))"

definition field_ros_errs :: "pyval \<Rightarrow> items \<Rightarrow> verr list" where
  "field_ros_errs label field =
     (let shown = dget field ''proto'' (PStr ''?'') in
      case dget field ''ros'' PNone of
        PStr path \<Rightarrow>
          if path = [] then [MissingRosPath label shown]
          else (case analyze_ros_path path ''msg'' True of
                  Inl _ \<Rightarrow> [BadRosPath label shown] | Inr _ \<Rightarrow> [])
      | _ \<Rightarrow> [MissingRosPath label shown])"

definition field_step ::
  "pyval \<Rightarrow> pyval \<Rightarrow> pyval \<Rightarrow> verr list \<times> string list \<Rightarrow> (verr list \<times> string list) res" where
  "field_step type_mappings label field acc =
     (case field of
        PDict f \<Rightarrow>
          (case field_name_step label f acc of (es, seen) \<Rightarrow>
             bindE (field_type_errs type_mappings label f) (\<lambda>et.
             Inr (es @ et @ field_ros_errs label f, seen)))
      | _ \<Rightarrow> (case acc of (es, seen) \<Rightarrow> Inr (es @ [FieldNotMapping label], seen)))"

definition fields_errs :: "pyval \<Rightarrow> pyval \<Rightarrow> items \<Rightarrow> verr list res" where
  "fields_errs type_mappings label msg =
     (let v = dget msg ''fields'' (PList []);
          e0 = err_if (\<not> is_list v) (FieldsNotList label) @
               err_if (v = PList [] \<and> dhas msg ''fields'') (NoFields label) in
      bindE (foldE (field_step type_mappings label) (list_items v) (e0, [])) (\<lambda>(es, seen). Inr es))"

definition wire_errs :: "pyval \<Rightarrow> pyval \<Rightarrow> items \<Rightarrow> verr list res" where
  "wire_errs type_mappings label msg =
     (if list_items (dget msg ''fields'' (PList [])) \<noteq> [] then
        bindE (message_wire_payload_size (PDict msg) type_mappings) (\<lambda>wire_size.
        Inr (err_if (255 < wire_size) (WireTooBig label wire_size)))
      else Inr [])"

definition check_message :: "pyval \<Rightarrow> nat \<times> pyval \<Rightarrow> vstate \<Rightarrow> vstate res" where
  "check_message type_mappings entry st =
     (case entry of (i, m) \<Rightarrow>
       (case m of
          PDict msg \<Rightarrow>
            let label = dget msg ''name'' (PStr (''messages['' @ nat_str i @ '']'')) in
            bindE (direction_errs label msg) (\<lambda>e_direction.
            let msg' = debug_update msg;
                st1 = add_errs (required_errs label msg @ e_direction @ debug_errs label msg @
                                reliable_errs label msg') st;
                st2 = check_name msg' (check_id label msg' st1);
                st3 = add_errs (ros_msg_errs label msg' @ topic_errs label msg') st2;
                st4 = check_topic_use label msg' st3 in
            bindE (fields_errs type_mappings label msg') (\<lambda>e_fields.
            bindE (wire_errs type_mappings label msg') (\<lambda>e_wire.
            Inr (add_errs (e_fields @ e_wire) (st4\<lparr>checked := checked st4 @ [PDict msg']\<rparr>)))))
        | _ \<Rightarrow> Inr (add_errs [MessageNotMapping i] (st\<lparr>checked := checked st @ [m]\<rparr>))))"

section \<open>The whole configuration\<close>

definition init_vstate :: "verr list \<Rightarrow> vstate" where
  "init_vstate es = \<lparr>errors = es, seen_ids = [], seen_names = [],
     seen_symbols = map (\<lambda>n. (upper n, n)) SYSTEM_MESSAGE_NAMES,
     seen_sub = [], seen_pub = [], checked = []\<rparr>"

definition sizable :: "pyval \<Rightarrow> bool" where
  "sizable m \<longleftrightarrow> (case m of
     PDict d \<Rightarrow> is_int (dget d ''id'' PNone) \<and> is_list (dget d ''fields'' PNone) | _ \<Rightarrow> False)"

definition largest_frame :: "pyval \<Rightarrow> pyval list \<Rightarrow> int res" where
  "largest_frame type_mappings messages =
     bindE (merge_messages (PDict [(K ''messages'', PList (filter sizable messages))]))
       (\<lambda>all_messages.
     bindE (mapE (\<lambda>m. bindE (message_wire_payload_size m type_mappings) (\<lambda>w. Inr (w + 5)))
        all_messages) (\<lambda>sizes. Inr (foldl max 0 sizes)))"

definition buffer_errs :: "pyval \<Rightarrow> pyval \<Rightarrow> pyval list \<Rightarrow> verr list res" where
  "buffer_errs buffer_size type_mappings messages =
     (case strict_int buffer_size of
        Some n \<Rightarrow>
          if 0 < n then
            bindE (largest_frame type_mappings messages) (\<lambda>l.
            Inr (err_if (n < l) (BufferTooSmall n l)))
          else Inr []
      | None \<Rightarrow> Inr [])"

text \<open>The in-place updates of the root mapping.\<close>

definition updated_config :: "items \<Rightarrow> items \<Rightarrow> pyval list \<Rightarrow> items" where
  "updated_config cd cfg out =
     (let cd1 = (if dhas cd ''messages''
                 then (if is_list (dget cd ''messages'' PNone) \<or> dget cd ''messages'' PNone = PNone
                       then dict_set cd (K ''messages'') (PList out) else cd)
                 else cd)
      in if dhas cd ''config'' \<and> is_dict (dget cd ''config'' PNone)
         then dict_set cd1 (K ''config'')
                (PDict (dict_set cfg (K ''checksum'') (PStr (checksum_name cfg))))
         else cd1)"

definition validate_run :: "pyval \<Rightarrow> (verr list \<times> pyval) res" where
  "validate_run config_data =
     (case config_data of
        PDict cd \<Rightarrow>
          bindE (py_get (dget cd ''serial_controller'' (PDict [])) ''ros__parameters'' (PDict []))
            (\<lambda>params.
          let cfg_v = dget cd ''config'' (PDict []); msgs_v = dget cd ''messages'' (PList []);
              tm_v = dget cd ''type_mappings'' (PDict []);
              cfg = dict_items cfg_v; type_mappings = PDict (dict_items tm_v);
              messages = list_items msgs_v;
              es = section_errs cfg_v msgs_v tm_v params @ config_errs cfg (dict_items params) in
          bindE (foldE (check_message type_mappings) (enumerate 0 messages) (init_vstate es))
            (\<lambda>st.
          bindE (buffer_errs (dget cfg ''buffer_size'' PNone) type_mappings (checked st))
            (\<lambda>e_buffer.
          Inr (errors st @ e_buffer, PDict (updated_config cd cfg (checked st))))))
      | _ \<Rightarrow> Inl ValueError)"

definition validate_protocol :: "pyval \<Rightarrow> pyval res" where
  "validate_protocol config_data =
     bindE (validate_run config_data) (\<lambda>(es, cd').
     if es \<noteq> [] then Inl (SystemExit 1) else Inr cd')"

end
