(* ===== verification/ValidateSound.thy ===== *)
theory ValidateSound
  imports Validate
begin

text \<open>
  What a configuration that passes \<open>validate_protocol\<close> looks like (\<open>protocol_ok\<close>), and the
  proof that validation establishes it: one lemma per check, then the message loop. The whole
  run is in \<open>ValidateRun\<close>.
\<close>

section \<open>Well-formed configurations\<close>

definition field_ok :: "pyval \<Rightarrow> pyval \<Rightarrow> bool" where
  "field_ok tm f \<longleftrightarrow>
     (\<exists>d n t s p r. f = PDict d \<and>
        dict_find d (K ''proto'') = Some (PStr n) \<and> fullmatch identifier_re n \<and>
        \<not> is_reserved_c_cpp_identifier n \<and>
        dict_find d (K ''type'') = Some t \<and> get_c_type t tm = Inr (PStr s) \<and>
        s \<in> fst ` set C_TYPE_SIZES \<and>
        dict_find d (K ''ros'') = Some (PStr p) \<and> analyze_ros_path p ''msg'' True = Inr r)"

definition topic_ok :: "items \<Rightarrow> string \<Rightarrow> bool" where
  "topic_ok d k \<longleftrightarrow> (\<exists>t. dict_find d (K k) = Some (PStr t) \<and> topic_fullmatch t)"

definition fields_ok :: "pyval \<Rightarrow> items \<Rightarrow> bool" where
  "fields_ok tm d \<longleftrightarrow>
     (\<exists>fs. dict_find d (K ''fields'') = Some (PList fs) \<and> fs \<noteq> [] \<and>
        (\<forall>f \<in> set fs. field_ok tm f) \<and> distinct (map (str_item ''proto'') fs))"

definition message_ok :: "pyval \<Rightarrow> pyval \<Rightarrow> bool" where
  "message_ok tm m \<longleftrightarrow>
     (\<exists>d n i s b r w. m = PDict d \<and>
        dict_find d (K ''name'') = Some (PStr n) \<and> fullmatch identifier_re n \<and>
        n \<notin> set SYSTEM_MESSAGE_NAMES \<and>
        dict_find d (K ''id'') = Some (PInt i) \<and> 0 \<le> i \<and> i \<le> 252 \<and>
        dict_find d (K ''direction'') = Some (PStr s) \<and> PStr s \<in> set VALID_DIRECTIONS \<and>
        dget d ''debug_log_mode'' PNone \<in> {PStr ''on'', PStr ''off''} \<and>
        dget d ''reliable'' (PBool False) = PBool b \<and> (b \<longrightarrow> s = ''tx'') \<and>
        dict_find d (K ''ros_msg'') = Some (PStr r) \<and> fullmatch ros_msg_re r \<and>
        (sends (PStr s) \<longrightarrow> topic_ok d ''sub_topic'') \<and>
        (receives (PStr s) \<longrightarrow> topic_ok d ''pub_topic'') \<and>
        (\<forall>k \<in> {''sub_topic'', ''pub_topic''}. dhas d k \<longrightarrow> topic_ok d k) \<and>
        (s = ''both'' \<longrightarrow> dget d ''sub_topic'' PNone \<noteq> dget d ''pub_topic'' PNone) \<and>
        fields_ok tm d \<and>
        message_wire_payload_size m tm = Inr w \<and> w \<le> 255)"

abbreviation msg_name :: "pyval \<Rightarrow> string" where "msg_name \<equiv> str_item ''name''"

definition topic_uses :: "string \<Rightarrow> pyval \<Rightarrow> string list" where
  "topic_uses k m = (case m of
     PDict d \<Rightarrow> (case dget d k PNone of PStr t \<Rightarrow> [t] | _ \<Rightarrow> []) | _ \<Rightarrow> [])"

definition config_ok :: "items \<Rightarrow> items \<Rightarrow> bool" where
  "config_ok cfg params \<longleftrightarrow>
     (\<exists>c. dict_find cfg (K ''checksum'') = Some (PStr c) \<and> c \<in> set SUPPORTED_CHECKSUMS) \<and>
     (\<forall>k \<in> {''head_byte_1'', ''head_byte_2''}. \<exists>b.
        dict_find cfg (K k) = Some (PInt b) \<and> 0 \<le> b \<and> b \<le> 255) \<and>
     (\<exists>n. dict_find cfg (K ''buffer_size'') = Some (PInt n) \<and> 0 < n) \<and>
     (\<forall>k \<in> set BOOL_OPTIONS. is_bool (dget cfg k (PBool True))) \<and>
     (\<forall>(k, dflt) \<in> set INT_OPTIONS. \<exists>n. dget cfg k (PInt dflt) = PInt n \<and> 0 < n) \<and>
     (\<exists>i t. dget cfg ''heartbeat_interval_ms'' (PInt 1000) = PInt i \<and>
        dget cfg ''heartbeat_timeout_ms'' (PInt 3000) = PInt t \<and> i \<le> t) \<and>
     (\<exists>n. dict_find params (K ''baudrate'') = Some (PInt n) \<and> 0 < n) \<and>
     (\<exists>p. dict_find params (K ''port'') = Some (PStr p) \<and> p \<noteq> [])"

definition messages_ok :: "pyval \<Rightarrow> pyval list \<Rightarrow> bool" where
  "messages_ok tm ms \<longleftrightarrow>
     (\<forall>m \<in> set ms. message_ok tm m) \<and>
     distinct (map msg_id (ms @ SYSTEM_MESSAGES)) \<and>
     distinct (map (\<lambda>m. upper (msg_name m)) (ms @ SYSTEM_MESSAGES)) \<and>
     distinct (concat (map (topic_uses ''sub_topic'') ms)) \<and>
     distinct (concat (map (topic_uses ''pub_topic'') ms))"

definition frames_fit :: "items \<Rightarrow> pyval \<Rightarrow> pyval list \<Rightarrow> bool" where
  "frames_fit cfg tm ms \<longleftrightarrow>
     (\<forall>m \<in> set (ms @ SYSTEM_MESSAGES). \<exists>w n. message_wire_payload_size m tm = Inr w \<and>
        dict_find cfg (K ''buffer_size'') = Some (PInt n) \<and> w + 5 \<le> n)"

definition protocol_ok :: "pyval \<Rightarrow> bool" where
  "protocol_ok v \<longleftrightarrow>
     (\<exists>cd cfg tm sc params ms. v = PDict cd \<and>
        dict_find cd (K ''config'') = Some (PDict cfg) \<and>
        dget cd ''type_mappings'' (PDict []) = PDict tm \<and>
        dget cd ''serial_controller'' (PDict []) = PDict sc \<and>
        dget sc ''ros__parameters'' (PDict []) = PDict params \<and>
        dget cd ''messages'' (PList []) = PList ms \<and>
        config_ok cfg params \<and> messages_ok (PDict tm) ms \<and> frames_fit cfg (PDict tm) ms)"

section \<open>One lemma per check\<close>

lemma add_errs_simps [simp]:
  "errors (add_errs es st) = errors st @ es"
  "seen_ids (add_errs es st) = seen_ids st" "seen_names (add_errs es st) = seen_names st"
  "seen_symbols (add_errs es st) = seen_symbols st"
  "seen_sub (add_errs es st) = seen_sub st" "seen_pub (add_errs es st) = seen_pub st"
  "checked (add_errs es st) = checked st"
  by (simp_all add: add_errs_def)

lemma required_ok:
  "required_errs label d = [] \<Longrightarrow>
     k \<in> {''name'', ''id'', ''direction'', ''ros_msg'', ''fields''} \<Longrightarrow> \<exists>v. dict_find d (K k) = Some v"
  by (auto simp: required_errs_def dhas_def)

lemma direction_ok:
  assumes "direction_errs label d = Inr []"
  obtains s where "dict_find d (K ''direction'') = Some (PStr s)" and "PStr s \<in> set VALID_DIRECTIONS"
  using assms by (auto simp: direction_errs_def Let_def VALID_DIRECTIONS_def dget_def
      split: if_splits option.splits)

lemma debug_ok:
  assumes "debug_errs label d = []"
  shows "dget (debug_update d) ''debug_log_mode'' PNone \<in> {PStr ''on'', PStr ''off''}"
  using assms by (auto simp: debug_errs_def debug_update_def valid_debug_mode_def dget_set)

lemma debug_update_find:
  "k \<noteq> ''debug_log_mode'' \<Longrightarrow> dict_find (debug_update d) (K k) = dict_find d (K k)"
  by (simp add: debug_update_def dict_find_set_other)

lemma reliable_ok:
  assumes "reliable_errs label d = []"
  obtains b where "dget d ''reliable'' (PBool False) = PBool b"
    and "b \<Longrightarrow> dget d ''direction'' PNone = PStr ''tx''"
proof -
  have "is_bool (dget d ''reliable'' (PBool False))"
    using assms by (auto simp: reliable_errs_def dhas_def dget_def split: option.splits)
  then obtain b where b: "dget d ''reliable'' (PBool False) = PBool b"
    by (cases "dget d ''reliable'' (PBool False)") auto
  moreover have "b \<Longrightarrow> dget d ''direction'' PNone = PStr ''tx''"
    using assms b by (auto simp: reliable_errs_def)
  ultimately show thesis using that by blast
qed

lemma byte_intD: "byte_int v \<Longrightarrow> \<exists>i. v = PInt i \<and> 0 \<le> i \<and> i \<le> 255"
  by (cases v) (auto simp: byte_int_def)

lemma pos_intD: "pos_int v \<Longrightarrow> \<exists>i. v = PInt i \<and> 0 < i"
  by (cases v) (auto simp: pos_int_def)

lemma check_id_ok:
  assumes "errors (check_id label d st) = []" and "dict_find d (K ''id'') = Some v"
    and "v \<noteq> PNone"
  obtains i where "v = PInt i" and "0 \<le> i" and "i \<le> 252" and "i \<notin> fst ` set (seen_ids st)"
    and "check_id label d st = st\<lparr>seen_ids := seen_ids st @ [(i, label)]\<rparr>"
proof -
  have v: "dget d ''id'' PNone = v" using assms(2) by (simp add: dget_def)
  have b: "byte_int v"
    using assms(1,3) v by (cases v) (auto simp: check_id_def split: if_splits)
  then obtain i where i: "v = PInt i" "0 \<le> i" "i \<le> 255" using byte_intD by blast
  have r: "map_of RESERVED_IDS i = None"
    using assms(1) v b i by (auto simp: check_id_def Let_def split: option.splits)
  have "map_of (seen_ids st) i = None"
    using assms(1) v b i r by (auto simp: check_id_def Let_def split: option.splits)
  moreover have "i \<le> 252" using r i by (auto simp: RESERVED_IDS_eq split: if_splits)
  moreover have "check_id label d st = st\<lparr>seen_ids := seen_ids st @ [(i, label)]\<rparr>"
    using v b i r calculation by (simp add: check_id_def Let_def)
  ultimately show thesis using that i by (auto simp: map_of_eq_None_iff)
qed

lemma check_name_ok:
  assumes "errors (check_name d st) = []" and "dict_find d (K ''name'') = Some v" and "v \<noteq> PNone"
  obtains n where "v = PStr n" and "fullmatch identifier_re n" and "n \<notin> set SYSTEM_MESSAGE_NAMES"
    and "upper n \<notin> fst ` set (seen_symbols st)"
    and "check_name d st = st\<lparr>seen_names := seen_names st @ [n],
           seen_symbols := seen_symbols st @ [(upper n, n)]\<rparr>"
proof -
  have v: "dget d ''name'' PNone = v" using assms(2) by (simp add: dget_def)
  from assms(1,3) v obtain n where n: "v = PStr n"
    by (cases v) (auto simp: check_name_def)
  have "fullmatch identifier_re n \<and> n \<notin> set SYSTEM_MESSAGE_NAMES \<and> n \<notin> set (seen_names st)"
    using assms(1) v n by (auto simp: check_name_def split: if_splits)
  moreover from this have new: "map_of (seen_symbols st) (upper n) = None"
    using assms(1) v n by (auto simp: check_name_def Let_def split: option.splits)
  moreover have "check_name d st = st\<lparr>seen_names := seen_names st @ [n],
      seen_symbols := seen_symbols st @ [(upper n, n)]\<rparr>"
    using calculation v n by (simp add: check_name_def Let_def)
  ultimately show thesis
    using that [OF n] by (auto simp: map_of_eq_None_iff)
qed

lemma check_name_mono: "errors (check_name d st) = [] \<Longrightarrow> errors st = []"
  by (auto simp: check_name_def Let_def split: pyval.splits if_splits option.splits)

lemma check_id_mono: "errors (check_id label d st) = [] \<Longrightarrow> errors st = []"
  by (auto simp: check_id_def Let_def split: pyval.splits if_splits option.splits)

lemma topics_ok:
  assumes "topic_errs label d = []" and "dict_find d (K ''direction'') = Some (PStr s)"
  shows "sends (PStr s) \<Longrightarrow> topic_ok d ''sub_topic''"
    and "receives (PStr s) \<Longrightarrow> topic_ok d ''pub_topic''"
    and "\<forall>k \<in> {''sub_topic'', ''pub_topic''}. dhas d k \<longrightarrow> topic_ok d k"
    and "s = ''both'' \<Longrightarrow> dget d ''sub_topic'' PNone \<noteq> dget d ''pub_topic'' PNone"
proof -
  have dir: "dget d ''direction'' (PStr []) = PStr s" using assms(2) by (simp add: dget_def)
  have present: "topic_ok d k" if "dhas d k" "k \<in> {''sub_topic'', ''pub_topic''}" for k
  proof -
    have "str_match topic_fullmatch (dget d k PNone)"
      using assms(1) that by (auto simp: topic_errs_def Let_def)
    then show ?thesis
      using that(1) by (auto simp: str_match_def topic_ok_def dhas_def dget_def
          split: pyval.splits option.splits)
  qed
  show k: "\<forall>k \<in> {''sub_topic'', ''pub_topic''}. dhas d k \<longrightarrow> topic_ok d k"
    using present by blast
  show s1: "sends (PStr s) \<Longrightarrow> topic_ok d ''sub_topic''"
    using assms(1) dir present [of "''sub_topic''"] by (auto simp: topic_errs_def Let_def)
  show s2: "receives (PStr s) \<Longrightarrow> topic_ok d ''pub_topic''"
    using assms(1) dir present [of "''pub_topic''"] by (auto simp: topic_errs_def Let_def)
  assume both: "s = ''both''"
  then obtain t u where t: "dict_find d (K ''sub_topic'') = Some (PStr t)" "topic_fullmatch t"
    and u: "dict_find d (K ''pub_topic'') = Some (PStr u)" "topic_fullmatch u"
    using s1 s2 by (auto simp: sends_def receives_def topic_ok_def)
  then have "t \<noteq> []" "u \<noteq> []" by (auto simp: topic_fullmatch_def)
  then show "dget d ''sub_topic'' PNone \<noteq> dget d ''pub_topic'' PNone"
    using assms(1) dir both t u by (auto simp: topic_errs_def Let_def dget_def)
qed

lemma topic_use_ok:
  assumes "errors (check_topic_use label d st) = []"
  shows "errors st = []"
    and "map fst (seen_sub (check_topic_use label d st))
           = map fst (seen_sub st) @ topic_uses ''sub_topic'' (PDict d)"
    and "map fst (seen_pub (check_topic_use label d st))
           = map fst (seen_pub st) @ topic_uses ''pub_topic'' (PDict d)"
    and "set (topic_uses ''sub_topic'' (PDict d)) \<inter> fst ` set (seen_sub st) = {}"
    and "set (topic_uses ''pub_topic'' (PDict d)) \<inter> fst ` set (seen_pub st) = {}"
  using assms
  by (auto simp: check_topic_use_def Let_def topic_uses_def map_of_eq_None_iff
      split: pyval.splits option.splits)

lemma topic_use_frame [simp]:
  "seen_ids (check_topic_use label d st) = seen_ids st"
  "seen_symbols (check_topic_use label d st) = seen_symbols st"
  "checked (check_topic_use label d st) = checked st"
  by (simp_all add: check_topic_use_def Let_def split: pyval.splits option.splits)

lemma topic_uses_distinct: "distinct (topic_uses k m)"
  by (simp add: topic_uses_def split: pyval.splits)

text \<open>Fields: validation sees \<open>field.get('type', '')\<close>, the size computation \<open>field['type']\<close>.\<close>

definition field_seen_ok :: "pyval \<Rightarrow> pyval \<Rightarrow> bool" where
  "field_seen_ok tm f \<longleftrightarrow>
     (\<exists>d n s p r. f = PDict d \<and>
        dict_find d (K ''proto'') = Some (PStr n) \<and> fullmatch identifier_re n \<and>
        \<not> is_reserved_c_cpp_identifier n \<and>
        get_c_type (dget d ''type'' (PStr [])) tm = Inr (PStr s) \<and> s \<in> fst ` set C_TYPE_SIZES \<and>
        dict_find d (K ''ros'') = Some (PStr p) \<and> analyze_ros_path p ''msg'' True = Inr r)"

lemma field_name_step_ok:
  assumes "field_name_step label d (es, seen) = ([], seen')"
  obtains n where "dict_find d (K ''proto'') = Some (PStr n)" and "fullmatch identifier_re n"
    and "\<not> is_reserved_c_cpp_identifier n" and "n \<notin> set seen"
    and "es = []" and "seen' = seen @ [n]"
proof -
  obtain n where n: "dget d ''proto'' PNone = PStr n"
    using assms by (cases "dget d ''proto'' PNone") (auto simp: field_name_step_def)
  then have "dict_find d (K ''proto'') = Some (PStr n)"
    using dget_not_None [of d "''proto''"] by simp
  with n that assms show thesis
    by (auto simp: field_name_step_def split: if_splits)
qed

lemma field_type_ok:
  assumes "field_type_errs tm label d = Inr []"
  obtains s where "get_c_type (dget d ''type'' (PStr [])) tm = Inr (PStr s)"
    and "s \<in> fst ` set C_TYPE_SIZES"
  using assms by (force simp: field_type_errs_def Let_def bindE_eq_Inr split: if_splits)

lemma field_ros_ok:
  assumes "field_ros_errs label d = []"
  obtains p r where "dict_find d (K ''ros'') = Some (PStr p)" and "analyze_ros_path p ''msg'' True = Inr r"
proof -
  obtain p where p: "dget d ''ros'' PNone = PStr p"
    using assms by (cases "dget d ''ros'' PNone") (auto simp: field_ros_errs_def Let_def)
  then have "dict_find d (K ''ros'') = Some (PStr p)"
    using dget_not_None [of d "''ros''"] by simp
  with p that assms show thesis
    by (auto simp: field_ros_errs_def Let_def split: if_splits sum.splits)
qed

lemma field_step_ok:
  assumes "field_step tm label f (es, seen) = Inr ([], seen')"
  shows "es = [] \<and> field_seen_ok tm f \<and> str_item ''proto'' f \<notin> set seen \<and>
    seen' = seen @ [str_item ''proto'' f]"
proof -
  obtain d where f: "f = PDict d" using assms by (cases f) (auto simp: field_step_def)
  obtain es1 where nm: "field_name_step label d (es, seen) = (es1, seen')"
    and ty: "\<exists>et. field_type_errs tm label d = Inr et \<and> es1 = [] \<and> et = [] \<and> field_ros_errs label d = []"
    using assms f by (auto simp: field_step_def bindE_eq_Inr split: prod.splits)
  then have nm: "field_name_step label d (es, seen) = ([], seen')"
    and ty: "field_type_errs tm label d = Inr []" and ros: "field_ros_errs label d = []" by auto
  from field_name_step_ok [OF nm] obtain n where n: "dict_find d (K ''proto'') = Some (PStr n)"
    "fullmatch identifier_re n" "\<not> is_reserved_c_cpp_identifier n" "n \<notin> set seen"
    "es = []" "seen' = seen @ [n]" by blast
  moreover have "field_seen_ok tm f"
    unfolding field_seen_ok_def using f n field_type_ok [OF ty] field_ros_ok [OF ros] by metis
  ultimately show ?thesis using f by (simp add: str_item_def)
qed

lemma fields_fold_ok:
  "foldE (field_step tm label) fs (es, seen) = Inr ([], seen') \<Longrightarrow>
     es = [] \<and> (\<forall>f \<in> set fs. field_seen_ok tm f) \<and> seen' = seen @ map (str_item ''proto'') fs \<and>
     (distinct seen \<longrightarrow> distinct seen')"
proof (induction fs arbitrary: es seen)
  case (Cons f fs)
  from Cons.prems obtain es1 seen1 where step: "field_step tm label f (es, seen) = Inr (es1, seen1)"
    and rest: "foldE (field_step tm label) fs (es1, seen1) = Inr ([], seen')"
    by (auto simp: bindE_eq_Inr)
  from Cons.IH [OF rest] have es1: "es1 = []" and IH: "\<forall>f \<in> set fs. field_seen_ok tm f"
    "seen' = seen1 @ map (str_item ''proto'') fs" "distinct seen1 \<longrightarrow> distinct seen'" by blast+
  from field_step_ok [of tm label f es seen seen1] step es1
  have st: "es = []" "field_seen_ok tm f" "str_item ''proto'' f \<notin> set seen"
    "seen1 = seen @ [str_item ''proto'' f]" by auto
  then have "distinct seen \<longrightarrow> distinct seen'" using IH(3) by simp
  with st IH(1,2) show ?case by simp
qed simp

lemma field_ok_of_seen:
  assumes "field_seen_ok tm f" and "field_size tm f = Inr n"
  shows "field_ok tm f"
proof -
  from assms(1) obtain d where d: "f = PDict d" by (auto simp: field_seen_ok_def)
  with assms(2) obtain t where "dict_find d (K ''type'') = Some t"
    by (cases "dict_find d (K ''type'')") (auto simp: field_size_def)
  then show ?thesis
    using assms(1) d by (auto simp: field_seen_ok_def field_ok_def dget_find)
qed

lemma fields_wire_ok:
  assumes "fields_errs tm label d = Inr []" and "dict_find d (K ''fields'') = Some v"
    and "wire_errs tm label d = Inr []"
  shows "fields_ok tm d \<and> (\<exists>w. message_wire_payload_size (PDict d) tm = Inr w \<and> w \<le> 255)"
proof -
  have v: "dget d ''fields'' (PList []) = v" using assms(2) by (simp add: dget_def)
  have "dhas d ''fields''" using assms(2) by (simp add: dhas_def)
  with assms(1) v obtain seen' where
    fold: "foldE (field_step tm label) (list_items v)
       (err_if (\<not> is_list v) (FieldsNotList label) @ err_if (v = PList []) (NoFields label), [])
       = Inr ([], seen')"
    by (auto simp: fields_errs_def Let_def bindE_eq_Inr)
  from fields_fold_ok [OF fold] have "is_list v" and "v \<noteq> PList []"
    and seen: "\<forall>f \<in> set (list_items v). field_seen_ok tm f"
    and dist: "distinct (map (str_item ''proto'') (list_items v))" by auto
  then obtain fs where fs: "v = PList fs" "fs \<noteq> []" by (cases v) auto
  then obtain w where w: "message_wire_payload_size (PDict d) tm = Inr w" "w \<le> 255"
    using assms(3) v by (auto simp: wire_errs_def bindE_eq_Inr)
  then obtain ns where "mapE (field_size tm) fs = Inr ns"
    using assms(2) fs(1)
    by (auto simp: message_wire_payload_size_def message_payload_size_def bindE_eq_Inr)
  then have "\<forall>f \<in> set fs. field_ok tm f"
    using seen fs(1) field_ok_of_seen mapE_InrD by fastforce
  with w fs dist assms(2) show ?thesis by (auto simp: fields_ok_def)
qed

section \<open>One message\<close>

lemma check_id_frame [simp]:
  "seen_symbols (check_id label d st) = seen_symbols st" "seen_sub (check_id label d st) = seen_sub st"
  "seen_pub (check_id label d st) = seen_pub st" "checked (check_id label d st) = checked st"
  by (simp_all add: check_id_def Let_def split: pyval.splits option.splits)

lemma check_name_frame [simp]:
  "seen_ids (check_name d st) = seen_ids st" "seen_sub (check_name d st) = seen_sub st"
  "seen_pub (check_name d st) = seen_pub st" "checked (check_name d st) = checked st"
  by (simp_all add: check_name_def Let_def split: pyval.splits option.splits)

text \<open>
  The checks of \<open>id\<close> and \<open>name\<close> are skipped for a null value, and the check for required
  keys only asks that the key is there: a message with \<open>id: null\<close> or \<open>name: null\<close> gets
  through. The soundness statements exclude it.
\<close>

definition not_null :: "string \<Rightarrow> pyval \<Rightarrow> bool" where
  "not_null k m \<longleftrightarrow> dict_find (dict_items m) (K k) \<noteq> Some PNone"

lemma check_message_ok:
  assumes step: "check_message tm (i, m) st = Inr st'" and clean: "errors st' = []"
    and nn: "not_null ''id'' m" "not_null ''name'' m"
  obtains m' where "errors st = []" and "message_ok tm m'" and "checked st' = checked st @ [m']"
    and "map fst (seen_ids st') = map fst (seen_ids st) @ [msg_id m']"
    and "msg_id m' \<notin> fst ` set (seen_ids st)"
    and "map fst (seen_symbols st') = map fst (seen_symbols st) @ [upper (msg_name m')]"
    and "upper (msg_name m') \<notin> fst ` set (seen_symbols st)"
    and "map fst (seen_sub st') = map fst (seen_sub st) @ topic_uses ''sub_topic'' m'"
    and "set (topic_uses ''sub_topic'' m') \<inter> fst ` set (seen_sub st) = {}"
    and "map fst (seen_pub st') = map fst (seen_pub st) @ topic_uses ''pub_topic'' m'"
    and "set (topic_uses ''pub_topic'' m') \<inter> fst ` set (seen_pub st) = {}"
proof -
  obtain d where m: "m = PDict d"
    using step clean by (cases m) (auto simp: check_message_def)
  define label where "label = dget d ''name'' (PStr (''messages['' @ nat_str i @ '']''))"
  define d' where "d' = debug_update d"
  define pre where "pre e = required_errs label d @ e @ debug_errs label d @ reliable_errs label d'" for e
  define s1 where "s1 e = check_id label d' (add_errs (pre e) st)" for e
  define s2 where "s2 e = check_name d' (s1 e)" for e
  define s3 where "s3 e = add_errs (ros_msg_errs label d' @ topic_errs label d') (s2 e)" for e
  define s4 where "s4 e = check_topic_use label d' (s3 e)" for e
  from step m obtain e_dir e_f e_w where
    dir: "direction_errs label d = Inr e_dir" and ef: "fields_errs tm label d' = Inr e_f"
    and ew: "wire_errs tm label d' = Inr e_w"
    and st': "st' = add_errs (e_f @ e_w) ((s4 e_dir)\<lparr>checked := checked (s4 e_dir) @ [PDict d']\<rparr>)"
    by (auto simp: check_message_def Let_def bindE_eq_Inr label_def d'_def pre_def s1_def s2_def
        s3_def s4_def)
  have e4: "errors (s4 e_dir) = []" and "e_f = []" "e_w = []" using clean st' by auto
  with ef ew have ef: "fields_errs tm label d' = Inr []" and ew: "wire_errs tm label d' = Inr []"
    by auto
  note tu = topic_use_ok [OF e4 [unfolded s4_def]]
  have ros: "ros_msg_errs label d' = []" and top: "topic_errs label d' = []"
    and e2: "errors (s2 e_dir) = []" using tu(1) by (simp_all add: s3_def)
  have e1: "errors (s1 e_dir) = []" using check_name_mono e2 by (simp add: s2_def)
  have "errors (add_errs (pre e_dir) st) = []" by (rule check_id_mono [OF e1 [unfolded s1_def]])
  then have e0: "errors st = []" and req: "required_errs label d = []" and "e_dir = []"
    and dbg: "debug_errs label d = []" and rel: "reliable_errs label d' = []"
    by (simp_all add: pre_def)
  with dir have dir: "direction_errs label d = Inr []" by simp
  note find = debug_update_find [of _ d, folded d'_def]
  obtain vi vn vf vr where vi: "dict_find d' (K ''id'') = Some vi"
    and vn: "dict_find d' (K ''name'') = Some vn"
    and vf: "dict_find d' (K ''fields'') = Some vf"
    and vr: "dict_find d' (K ''ros_msg'') = Some vr"
    using required_ok [OF req, of "''id''"] required_ok [OF req, of "''name''"]
      required_ok [OF req, of "''fields''"] required_ok [OF req, of "''ros_msg''"]
    by (auto simp: find)
  have "vi \<noteq> PNone" and "vn \<noteq> PNone"
    using nn vi vn m by (auto simp: not_null_def find)
  obtain id where id: "vi = PInt id" "0 \<le> id" "id \<le> 252" "id \<notin> fst ` set (seen_ids st)"
    and s1: "s1 e_dir = (add_errs (pre e_dir) st)
        \<lparr>seen_ids := seen_ids st @ [(id, label)]\<rparr>"
    using check_id_ok [OF e1 [unfolded s1_def] vi \<open>vi \<noteq> PNone\<close>] by (auto simp: s1_def)
  obtain n where n0: "vn = PStr n" "fullmatch identifier_re n" "n \<notin> set SYSTEM_MESSAGE_NAMES"
    "upper n \<notin> fst ` set (seen_symbols (s1 e_dir))"
    and s2': "check_name d' (s1 e_dir) = (s1 e_dir)\<lparr>seen_names := seen_names (s1 e_dir) @ [n],
           seen_symbols := seen_symbols (s1 e_dir) @ [(upper n, n)]\<rparr>"
    by (rule check_name_ok [OF e2 [unfolded s2_def] vn \<open>vn \<noteq> PNone\<close>])
  have "seen_symbols (s1 e_dir) = seen_symbols st" by (simp add: s1)
  with n0 s2' have n: "vn = PStr n" "fullmatch identifier_re n" "n \<notin> set SYSTEM_MESSAGE_NAMES"
    "upper n \<notin> fst ` set (seen_symbols st)"
    and s2: "seen_symbols (s2 e_dir) = seen_symbols st @ [(upper n, n)]"
    by (simp_all add: s2_def)
  have mid: "msg_id (PDict d') = id" and mn: "msg_name (PDict d') = n"
    using vi vn id n by (simp_all add: int_item_def str_item_def)
  obtain s where s: "dict_find d' (K ''direction'') = Some (PStr s)" "PStr s \<in> set VALID_DIRECTIONS"
    using direction_ok [OF dir] by (auto simp: find)
  obtain b where b: "dget d' ''reliable'' (PBool False) = PBool b" "b \<longrightarrow> s = ''tx''"
    using reliable_ok [OF rel] s by (auto simp: dget_find)
  obtain r where r: "vr = PStr r" "fullmatch ros_msg_re r"
    using ros vr by (auto simp: ros_msg_errs_def Let_def str_match_def dget_find split: pyval.splits)
  have "message_ok tm (PDict d')"
    unfolding message_ok_def
    using vn n vi id s b r vr debug_ok [OF dbg] topics_ok [OF top s(1)] fields_wire_ok [OF ef vf ew]
    unfolding d'_def by blast
  moreover have "checked st' = checked st @ [PDict d']"
    using st' by (simp add: s4_def s3_def s2_def s1_def)
  moreover have "map fst (seen_ids st') = map fst (seen_ids st) @ [msg_id (PDict d')]"
    using st' s1 mid by (simp add: s4_def s3_def s2_def)
  moreover have "map fst (seen_symbols st') = map fst (seen_symbols st) @ [upper (msg_name (PDict d'))]"
    using st' s2 mn by (simp add: s4_def s3_def)
  moreover have "seen_sub (s3 e_dir) = seen_sub st" "seen_pub (s3 e_dir) = seen_pub st"
    by (simp_all add: s3_def s2_def s1_def)
  ultimately show thesis
    using that [of "PDict d'"] e0 id(4) n(4) mid mn tu(2-5) st' by (simp add: s4_def)
qed

section \<open>The message loop\<close>

definition loop_inv :: "pyval \<Rightarrow> vstate \<Rightarrow> bool" where
  "loop_inv tm st \<longleftrightarrow>
     (\<forall>m \<in> set (checked st). message_ok tm m) \<and>
     map fst (seen_ids st) = map msg_id (checked st) \<and> distinct (map fst (seen_ids st)) \<and>
     map fst (seen_symbols st) =
       map upper SYSTEM_MESSAGE_NAMES @ map (\<lambda>m. upper (msg_name m)) (checked st) \<and>
     distinct (map fst (seen_symbols st)) \<and>
     map fst (seen_sub st) = concat (map (topic_uses ''sub_topic'') (checked st)) \<and>
     distinct (map fst (seen_sub st)) \<and>
     map fst (seen_pub st) = concat (map (topic_uses ''pub_topic'') (checked st)) \<and>
     distinct (map fst (seen_pub st))"

lemma loop_inv_init: "loop_inv tm (init_vstate es)"
  by (simp add: loop_inv_def init_vstate_def SYSTEM_MESSAGE_NAMES_eq comp_def)
    (simp add: upper_def upper_char_def is_lower_def)

lemma check_message_inv:
  assumes "check_message tm (i, m) st = Inr st'" and "errors st' = []"
    and "not_null ''id'' m" "not_null ''name'' m"
  shows "errors st = [] \<and> (loop_inv tm st \<longrightarrow> loop_inv tm st')"
proof -
  from check_message_ok [OF assms] obtain m' where m':
    "errors st = []" "message_ok tm m'" "checked st' = checked st @ [m']"
    "map fst (seen_ids st') = map fst (seen_ids st) @ [msg_id m']"
    "msg_id m' \<notin> fst ` set (seen_ids st)"
    "map fst (seen_symbols st') = map fst (seen_symbols st) @ [upper (msg_name m')]"
    "upper (msg_name m') \<notin> fst ` set (seen_symbols st)"
    "map fst (seen_sub st') = map fst (seen_sub st) @ topic_uses ''sub_topic'' m'"
    "set (topic_uses ''sub_topic'' m') \<inter> fst ` set (seen_sub st) = {}"
    "map fst (seen_pub st') = map fst (seen_pub st) @ topic_uses ''pub_topic'' m'"
    "set (topic_uses ''pub_topic'' m') \<inter> fst ` set (seen_pub st) = {}" .
  show ?thesis
  proof (intro conjI impI)
    show "errors st = []" by (rule m'(1))
    assume inv: "loop_inv tm st"
    then have "distinct (map fst (seen_ids st))" "distinct (map fst (seen_symbols st))"
      "distinct (map fst (seen_sub st))" "distinct (map fst (seen_pub st))"
      unfolding loop_inv_def by blast+
    then have "distinct (map fst (seen_ids st'))" "distinct (map fst (seen_symbols st'))"
      "distinct (map fst (seen_sub st'))" "distinct (map fst (seen_pub st'))"
      unfolding m'(4,6,8,10) using m'(5,7,9,11) topic_uses_distinct by auto
    with inv show "loop_inv tm st'"
      unfolding loop_inv_def m'(3) by (simp add: m'(2,4,6,8,10))
  qed
qed

lemma message_loop_ok:
  "foldE (check_message tm) ims st = Inr st' \<Longrightarrow> errors st' = [] \<Longrightarrow>
     \<forall>(i, m) \<in> set ims. not_null ''id'' m \<and> not_null ''name'' m \<Longrightarrow>
     errors st = [] \<and> (loop_inv tm st \<longrightarrow> loop_inv tm st')"
proof (induction ims arbitrary: st)
  case (Cons im ims)
  obtain i m where im: "im = (i, m)" by (cases im)
  from Cons.prems(1) obtain u where u: "check_message tm (i, m) st = Inr u"
    and rest: "foldE (check_message tm) ims u = Inr st'"
    by (auto simp: bindE_eq_Inr im)
  have "errors u = [] \<and> (loop_inv tm u \<longrightarrow> loop_inv tm st')"
    using Cons.IH [OF rest Cons.prems(2)] Cons.prems(3) by auto
  moreover have "errors u = [] \<Longrightarrow> errors st = [] \<and> (loop_inv tm st \<longrightarrow> loop_inv tm u)"
    using check_message_inv [OF u] Cons.prems(3) im by auto
  ultimately show ?case by blast
qed simp

end
