(* ===== verification/ValidateRun.thy ===== *)
theory ValidateRun
  imports ValidateSound
begin

text \<open>
  The whole run of \<open>validate_protocol\<close>: what the top-level checks establish, and that a run
  without errors returns a well-formed configuration (\<open>protocol_ok\<close>).
\<close>

section \<open>The whole run\<close>

lemma config_errs_ok:
  assumes "config_errs cfg params = []"
  shows "config_ok (dict_set cfg (K ''checksum'') (PStr (checksum_name cfg))) params"
proof -
  let ?cfg = "dict_set cfg (K ''checksum'') (PStr (checksum_name cfg))"
  have keep: "dget ?cfg k dflt = dget cfg k dflt" if "k \<noteq> ''checksum''" for k dflt
    using that by (simp add: dget_set)
  have find: "dict_find ?cfg (K k) = Some v" if "k \<noteq> ''checksum''" "dget cfg k PNone = v" "v \<noteq> PNone" for k v
    using that dget_not_None [of cfg k] by (simp add: dict_find_set_str)
  from assms have
    head: "\<forall>k \<in> {''head_byte_1'', ''head_byte_2''}. byte_int (dget cfg k PNone)" and
    buf: "pos_int (dget cfg ''buffer_size'' PNone)" and
    bools: "\<forall>k \<in> set BOOL_OPTIONS. is_bool (dget cfg k (PBool True))" and
    ints: "\<forall>(k, dflt) \<in> set INT_OPTIONS. pos_int (dget cfg k (PInt dflt))" and
    cs: "checksum_name cfg \<in> set SUPPORTED_CHECKSUMS" and
    tm: "timeout_errs cfg = []" and
    bd: "pos_int (dget params ''baudrate'' PNone)" and
    pt: "str_match (\<lambda>s. s \<noteq> []) (dget params ''port'' PNone)"
    by (auto simp: config_errs_def split: prod.splits)
  have ints': "\<exists>n. dget ?cfg k (PInt dflt) = PInt n \<and> 0 < n" if "(k, dflt) \<in> set INT_OPTIONS" for k dflt
  proof -
    have "k \<noteq> ''checksum''" using that by (auto simp: INT_OPTIONS_def)
    then show ?thesis using ints that keep pos_intD by fastforce
  qed
  moreover have "\<exists>i t. dget ?cfg ''heartbeat_interval_ms'' (PInt 1000) = PInt i \<and>
      dget ?cfg ''heartbeat_timeout_ms'' (PInt 3000) = PInt t \<and> i \<le> t"
    using ints' [of "''heartbeat_interval_ms''" 1000] ints' [of "''heartbeat_timeout_ms''" 3000] tm
    by (auto simp: INT_OPTIONS_def timeout_errs_def keep)
  moreover have "\<exists>b. dict_find ?cfg (K k) = Some (PInt b) \<and> 0 \<le> b \<and> b \<le> 255"
    if "k \<in> {''head_byte_1'', ''head_byte_2''}" for k
  proof -
    from head that obtain b where "dget cfg k PNone = PInt b" "0 \<le> b" "b \<le> 255"
      using byte_intD by blast
    moreover have "k \<noteq> ''checksum''" using that by auto
    ultimately show ?thesis using find by blast
  qed
  moreover have "\<exists>n. dict_find ?cfg (K ''buffer_size'') = Some (PInt n) \<and> 0 < n"
    using find [of "''buffer_size''"] pos_intD [OF buf] by fastforce
  moreover have "\<forall>k \<in> set BOOL_OPTIONS. is_bool (dget ?cfg k (PBool True))"
    using bools by (auto simp: BOOL_OPTIONS_def keep)
  moreover have "\<exists>n. dict_find params (K ''baudrate'') = Some (PInt n) \<and> 0 < n"
    using dget_not_None [of params "''baudrate''"] pos_intD [OF bd] by fastforce
  moreover have "\<exists>p. dict_find params (K ''port'') = Some (PStr p) \<and> p \<noteq> []"
    using dget_not_None [of params "''port''"] pt by (auto simp: str_match_def split: pyval.splits)
  ultimately show ?thesis
    using cs unfolding config_ok_def by (simp add: dict_find_set_str) blast
qed

lemma foldl_max_ge:
  "foldl max k ns \<le> n \<longleftrightarrow> k \<le> n \<and> (\<forall>x \<in> set ns. x \<le> (n :: int))"
  by (induction ns arbitrary: k) auto

lemma message_ok_core:
  assumes "message_ok tm m"
  obtains d n i fs where "m = PDict d" and "dict_find d (K ''name'') = Some (PStr n)"
    and "dict_find d (K ''id'') = Some (PInt i)" and "0 \<le> i" and "i \<le> 252"
    and "dict_find d (K ''fields'') = Some (PList fs)" and "fs \<noteq> []"
    and "\<forall>f \<in> set fs. field_ok tm f" and "distinct (map (str_item ''proto'') fs)"
    and "\<exists>w. message_wire_payload_size m tm = Inr w \<and> w \<le> 255"
  using assms unfolding message_ok_def fields_ok_def by blast

lemma message_ok_has_id: "message_ok tm m \<Longrightarrow> has_id m"
  by (erule message_ok_core) (simp add: has_id_def)

lemma message_ok_sizable: "message_ok tm m \<Longrightarrow> sizable m"
  by (erule message_ok_core) (simp add: sizable_def dget_find is_int_def)

lemma buffer_ok:
  assumes "\<forall>m \<in> set ms. message_ok tm m" and "buffer_errs (PInt n) tm ms = Inr []" and "0 < n"
    and "m \<in> set (ms @ SYSTEM_MESSAGES)"
  shows "\<exists>w. message_wire_payload_size m tm = Inr w \<and> w + 5 \<le> n"
proof -
  have "filter sizable ms = ms" using assms(1) message_ok_sizable by (auto simp: filter_id_conv)
  moreover have "\<forall>m \<in> set ms. has_id m" using assms(1) message_ok_has_id by blast
  ultimately have "merge_messages (PDict [(K ''messages'', PList (filter sizable ms))])
      = Inr (sort_key msg_id (ms @ SYSTEM_MESSAGES))"
    by (intro merge_messages_eq) (simp_all add: dget_def)
  with assms(2,3) obtain sizes where
    sizes: "mapE (\<lambda>m. bindE (message_wire_payload_size m tm) (\<lambda>w. Inr (w + 5)))
        (sort_key msg_id (ms @ SYSTEM_MESSAGES)) = Inr sizes"
    and "foldl max 0 sizes \<le> n"
    by (auto simp: buffer_errs_def largest_frame_def bindE_eq_Inr)
  then have "\<forall>x \<in> set sizes. x \<le> n" by (simp add: foldl_max_ge)
  with mapE_InrD [OF sizes, of m] assms(4) show ?thesis
    by (auto simp: bindE_eq_Inr)
qed

text \<open>The messages of a configuration as validation sees them.\<close>

definition input_messages :: "pyval \<Rightarrow> pyval list" where
  "input_messages v = list_items (dget (dict_items v) ''messages'' (PList []))"

lemma distinct_ids_system:
  assumes "\<forall>m \<in> set ms. message_ok tm m" and "distinct (map msg_id ms)"
  shows "distinct (map msg_id (ms @ SYSTEM_MESSAGES))"
proof -
  have sys: "map msg_id SYSTEM_MESSAGES = [253, 254, 255]"
    by (simp add: SYSTEM_MESSAGES_def system_message_defs int_item_def)
  have "msg_id m \<le> 252" if "m \<in> set ms" for m
    using assms(1) that by (auto simp: int_item_def elim!: message_ok_core)
  then show ?thesis using assms(2) unfolding map_append sys by (auto simp: distinct_append dest: \<open>\<And>m. m \<in> set ms \<Longrightarrow> msg_id m \<le> 252\<close>)
qed

lemma distinct_names_system:
  assumes "distinct (map upper SYSTEM_MESSAGE_NAMES @ map (\<lambda>m. upper (msg_name m)) ms)"
  shows "distinct (map (\<lambda>m. upper (msg_name m)) (ms @ SYSTEM_MESSAGES))"
proof -
  have "map (\<lambda>m. upper (msg_name m)) SYSTEM_MESSAGES = map upper SYSTEM_MESSAGE_NAMES"
    by (simp add: SYSTEM_MESSAGE_NAMES_def)
  with assms show ?thesis unfolding map_append by (metis distinct_append inf_commute)
qed

lemma loop_inv_messages_ok:
  assumes "loop_inv tm st"
  shows "messages_ok tm (checked st)"
proof -
  from assms have ok: "\<forall>m \<in> set (checked st). message_ok tm m"
    and ids: "distinct (map msg_id (checked st))"
    and names: "distinct (map upper SYSTEM_MESSAGE_NAMES @ map (\<lambda>m. upper (msg_name m)) (checked st))"
    and subs: "distinct (concat (map (topic_uses ''sub_topic'') (checked st)))"
    and pubs: "distinct (concat (map (topic_uses ''pub_topic'') (checked st)))"
    unfolding loop_inv_def by metis+
  show ?thesis
    unfolding messages_ok_def
    using ok distinct_ids_system [OF ok ids] distinct_names_system [OF names] subs pubs by blast
qed

lemma validate_sound:
  assumes ok: "validate_protocol v = Inr v'"
    and nn: "\<forall>m \<in> set (input_messages v). not_null ''id'' m \<and> not_null ''name'' m"
  shows "protocol_ok v'"
proof -
  obtain cd where cd: "v = PDict cd"
    using ok by (cases v) (auto simp: validate_protocol_def validate_run_def)
  define cfg where "cfg = dict_items (dget cd ''config'' (PDict []))"
  define tm where "tm = PDict (dict_items (dget cd ''type_mappings'' (PDict [])))"
  from ok cd obtain sc params st where
    sc: "dget cd ''serial_controller'' (PDict []) = PDict sc"
    and params: "dget sc ''ros__parameters'' (PDict []) = params"
    and loop: "foldE (check_message tm) (enumerate 0 (input_messages v))
       (init_vstate (section_errs (dget cd ''config'' (PDict [])) (dget cd ''messages'' (PList []))
          (dget cd ''type_mappings'' (PDict [])) params @ config_errs cfg (dict_items params))) = Inr st"
    and st: "errors st = []" and buf: "buffer_errs (dget cfg ''buffer_size'' PNone) tm (checked st) = Inr []"
    and v': "v' = PDict (updated_config cd cfg (checked st))"
    by (auto simp: validate_protocol_def validate_run_def bindE_eq_Inr py_get_eq_Inr Let_def cfg_def
        tm_def input_messages_def split: if_splits)
  have "\<forall>(i, m) \<in> set (enumerate 0 (input_messages v)). not_null ''id'' m \<and> not_null ''name'' m"
    using nn by (auto simp: in_set_enumerate_eq)
  from message_loop_ok [OF loop st this]
  have sec: "section_errs (dget cd ''config'' (PDict [])) (dget cd ''messages'' (PList []))
      (dget cd ''type_mappings'' (PDict [])) params = []"
    and ce: "config_errs cfg (dict_items params) = []" and inv: "loop_inv tm st"
    using loop_inv_init by (auto simp: init_vstate_def)
  from sec obtain c t p where c: "dget cd ''config'' (PDict []) = PDict c"
    and t: "dget cd ''type_mappings'' (PDict []) = PDict t" and p: "params = PDict p"
    and msgs: "dget cd ''messages'' (PList []) = PNone \<or> is_list (dget cd ''messages'' (PList []))"
    by (auto simp: section_errs_def elim!: is_dict.elims)
  note cok = config_errs_ok [OF ce]
  let ?cfg = "dict_set cfg (K ''checksum'') (PStr (checksum_name cfg))"
  from cok obtain n where n: "dict_find ?cfg (K ''buffer_size'') = Some (PInt n)" "0 < n"
    by (auto simp: config_ok_def)
  then have n': "dict_find cfg (K ''buffer_size'') = Some (PInt n)" by (simp add: dict_find_set_str)
  then have "cfg \<noteq> []" by auto
  then have "dict_find cd (K ''config'') = Some (PDict c)"
    using c by (auto simp: cfg_def dget_def split: option.splits)
  then have conf: "dict_find (updated_config cd cfg (checked st)) (K ''config'') = Some (PDict ?cfg)"
    by (simp add: updated_config_def Let_def dhas_def dget_def dict_find_set_str)
  have other: "dget (updated_config cd cfg (checked st)) k d = dget cd k d"
    if "k \<noteq> ''config''" "k \<noteq> ''messages''" for k d
    using that by (simp add: updated_config_def Let_def dget_set)
  have "dget (updated_config cd cfg (checked st)) ''messages'' (PList []) = PList (checked st)"
  proof (cases "dhas cd ''messages''")
    case True
    then have "dget cd ''messages'' PNone = dget cd ''messages'' (PList [])"
      by (auto simp: dhas_def dget_def)
    with True msgs show ?thesis by (auto simp: updated_config_def Let_def dget_set)
  next
    case False
    then have "dict_find cd (K ''messages'') = None" by (simp add: dhas_def)
    then have "input_messages v = []" by (simp add: input_messages_def cd dget_def)
    then have "checked st = []" using loop by (auto simp: init_vstate_def)
    with False show ?thesis
      by (simp add: updated_config_def Let_def dget_set) (simp add: dhas_def dget_def)
  qed
  moreover have "frames_fit ?cfg tm (checked st)"
    unfolding frames_fit_def using buffer_ok [of "checked st" tm n] inv buf n n'
    by (auto simp: loop_inv_def dget_def)
  ultimately show ?thesis
    unfolding protocol_ok_def v'
    using conf sc params p t other cok loop_inv_messages_ok [OF inv] by (simp add: tm_def)
qed

end
