(* ===== verification/GenShape.thy ===== *)
theory GenShape
  imports GenSource ValidateRun
begin

text \<open>
  What the generators may rely on: the shape of every message they are given. Validated
  business messages have it, and so do the built-in system messages as long as the type
  mappings do not redirect the two C types those use.
\<close>

section \<open>Shapes\<close>

text \<open>
  \<open>ok\<close> says which C types the fields may have: \<open>supported_type\<close> for a type of the size
  table, \<open>hashable\<close> for anything the size table can be asked about.
\<close>

definition supported_type :: "pyval \<Rightarrow> bool" where
  "supported_type c \<longleftrightarrow> (\<exists>s. c = PStr s \<and> s \<in> fst ` set C_TYPE_SIZES)"

definition c_type_in :: "(pyval \<Rightarrow> bool) \<Rightarrow> pyval \<Rightarrow> pyval \<Rightarrow> bool" where
  "c_type_in ok tm t \<longleftrightarrow> (\<exists>c. get_c_type t tm = Inr c \<and> ok c)"

definition field_shape :: "(pyval \<Rightarrow> bool) \<Rightarrow> pyval \<Rightarrow> pyval \<Rightarrow> bool" where
  "field_shape ok tm f \<longleftrightarrow>
     (\<exists>d n t. f = PDict d \<and> dict_find d (K ''proto'') = Some (PStr n) \<and> list_all is_word n \<and>
        dict_find d (K ''type'') = Some t \<and> c_type_in ok tm t)"

definition msg_fields :: "pyval \<Rightarrow> pyval list" where
  "msg_fields m = (case py_item m ''fields'' of Inr v \<Rightarrow> list_items v | _ \<Rightarrow> [])"

definition msg_shape :: "(pyval \<Rightarrow> bool) \<Rightarrow> pyval \<Rightarrow> pyval \<Rightarrow> bool" where
  "msg_shape ok tm m \<longleftrightarrow>
     (\<exists>d n i s fs. m = PDict d \<and> dict_find d (K ''name'') = Some (PStr n) \<and> list_all is_word n \<and>
        n \<noteq> [] \<and> dict_find d (K ''id'') = Some (PInt i) \<and> 0 \<le> i \<and> i \<le> 255 \<and>
        dict_find d (K ''direction'') = Some (PStr s) \<and>
        dict_find d (K ''fields'') = Some (PList fs) \<and> (\<forall>f \<in> set fs. field_shape ok tm f))"

definition system_types :: "(pyval \<Rightarrow> bool) \<Rightarrow> pyval \<Rightarrow> bool" where
  "system_types ok tm \<longleftrightarrow> c_type_in ok tm (PStr ''uint8_t'') \<and> c_type_in ok tm (PStr ''uint32_t'')"

lemma supported_hashable: "supported_type c \<Longrightarrow> hashable c"
  by (auto simp: supported_type_def)

lemma c_type_in_mono: "c_type_in ok tm t \<Longrightarrow> (\<And>c. ok c \<Longrightarrow> ok' c) \<Longrightarrow> c_type_in ok' tm t"
  by (auto simp: c_type_in_def)

lemma field_shape_mono: "field_shape ok tm f \<Longrightarrow> (\<And>c. ok c \<Longrightarrow> ok' c) \<Longrightarrow> field_shape ok' tm f"
  unfolding field_shape_def using c_type_in_mono by metis

lemma msg_shape_mono: "msg_shape ok tm m \<Longrightarrow> (\<And>c. ok c \<Longrightarrow> ok' c) \<Longrightarrow> msg_shape ok' tm m"
  unfolding msg_shape_def using field_shape_mono by metis

lemma identifier_list_word: "fullmatch identifier_re n \<Longrightarrow> list_all is_word n \<and> n \<noteq> []"
  by (auto simp: identifier_re_iff identifier_word)

lemma field_shape_of_ok: "field_ok tm f \<Longrightarrow> field_shape supported_type tm f"
  unfolding field_ok_def field_shape_def c_type_in_def supported_type_def using identifier_list_word by blast

lemma msg_shape_of_ok:
  assumes "message_ok tm m"
  shows "msg_shape supported_type tm m"
proof -
  from assms obtain d n i s fs where "m = PDict d" "dict_find d (K ''name'') = Some (PStr n)"
    "fullmatch identifier_re n" "dict_find d (K ''id'') = Some (PInt i)" "0 \<le> i" "i \<le> 252"
    "dict_find d (K ''direction'') = Some (PStr s)" "dict_find d (K ''fields'') = Some (PList fs)"
    "\<forall>f \<in> set fs. field_ok tm f"
    unfolding message_ok_def fields_ok_def by blast
  moreover from this have "i \<le> 255" by simp
  ultimately show ?thesis
    unfolding msg_shape_def using identifier_list_word field_shape_of_ok by blast
qed

lemma msg_shape_system: "system_types ok tm \<Longrightarrow> m \<in> set SYSTEM_MESSAGES \<Longrightarrow> msg_shape ok tm m"
  unfolding SYSTEM_MESSAGES_def system_message_defs
  by (auto simp: msg_shape_def field_shape_def system_types_def is_word_def is_alpha_us_def
      is_lower_def is_upper_def is_digit_def)

section \<open>Reading a message of the right shape\<close>

lemma msg_shapeE:
  assumes "msg_shape ok tm m"
  obtains d s where "m = PDict d" and "dict_find d (K ''name'') = Some (PStr (msg_name m))"
    and "list_all is_word (msg_name m)" and "msg_name m \<noteq> []"
    and "dict_find d (K ''id'') = Some (PInt (msg_id m))" and "0 \<le> msg_id m" and "msg_id m \<le> 255"
    and "dict_find d (K ''direction'') = Some (PStr s)"
    and "dict_find d (K ''fields'') = Some (PList (msg_fields m))"
    and "\<forall>f \<in> set (msg_fields m). field_shape ok tm f"
proof -
  from assms obtain d n i s fs where "m = PDict d" "dict_find d (K ''name'') = Some (PStr n)"
    "list_all is_word n" "n \<noteq> []" "dict_find d (K ''id'') = Some (PInt i)" "0 \<le> i" "i \<le> 255"
    "dict_find d (K ''direction'') = Some (PStr s)" "dict_find d (K ''fields'') = Some (PList fs)"
    "\<forall>f \<in> set fs. field_shape ok tm f"
    unfolding msg_shape_def by blast
  moreover from this have "msg_name m = n" "msg_id m = i" "msg_fields m = fs"
    by (simp_all add: str_item_def int_item_def msg_fields_def)
  ultimately show thesis using that by blast
qed

lemma shape_name: "msg_shape ok tm m \<Longrightarrow> item_str m ''name'' = Inr (msg_name m)"
  by (erule msg_shapeE) (simp add: item_str_def)

lemma shape_upper: "msg_shape ok tm m \<Longrightarrow> item_upper m ''name'' = Inr (upper (msg_name m))"
  by (erule msg_shapeE) (simp add: item_upper_def upper_of_def)

lemma shape_id: "msg_shape ok tm m \<Longrightarrow> item_str m ''id'' = Inr (int_str (msg_id m))"
  by (erule msg_shapeE) (simp add: item_str_def)

lemma shape_fields: "msg_shape ok tm m \<Longrightarrow> item_list m ''fields'' = Inr (msg_fields m)"
  by (erule msg_shapeE) (simp add: item_list_def)

lemma shape_field: "msg_shape ok tm m \<Longrightarrow> f \<in> set (msg_fields m) \<Longrightarrow> field_shape ok tm f"
  by (erule msg_shapeE) blast

lemma shape_get: "msg_shape ok tm m \<Longrightarrow> total (get_true m k c)"
  by (erule msg_shapeE) (simp add: get_true_def)

lemma shape_py_get: "msg_shape ok tm m \<Longrightarrow> total (py_get m k c)"
  by (erule msg_shapeE) simp

lemma shape_name_eq: "msg_shape ok tm m \<Longrightarrow> item_eq m ''name'' s = Inr (msg_name m = s)"
  by (erule msg_shapeE) (simp add: item_eq_def)

lemma shape_item: "msg_shape ok tm m \<Longrightarrow> k \<in> {''name'', ''id'', ''direction'', ''fields''} \<Longrightarrow> total (py_item m k)"
  by (erule msg_shapeE) auto

lemma shape_word: "msg_shape ok tm m \<Longrightarrow> list_all is_word (msg_name m)"
  by (erule msg_shapeE) simp

lemma field_proto: "field_shape ok tm f \<Longrightarrow> \<exists>n. item_str f ''proto'' = Inr n \<and> list_all is_word n"
  by (auto simp: field_shape_def item_str_def)

lemma C_TYPE_word: "s \<in> fst ` set C_TYPE_SIZES \<Longrightarrow> list_all is_word s"
  by (auto simp: C_TYPE_SIZES_def is_word_def is_alpha_us_def is_lower_def is_upper_def is_digit_def)

lemma field_type: "field_shape supported_type tm f \<Longrightarrow> \<exists>s. field_c_type f tm = Inr s \<and> list_all is_word s"
  unfolding field_shape_def field_c_type_def c_type_in_def supported_type_def V_def using C_TYPE_word by fastforce

section \<open>Pieces without marks\<close>

lemma word_free: "list_all is_word s \<Longrightarrow> \<not> is_word c \<Longrightarrow> c \<notin> set s"
  by (auto simp: list_all_iff)

lemma marks_not_word [simp]: "\<not> is_word CHR ''/''" "\<not> is_word CHR ''*''" "\<not> is_word CHR 0x0D"
  by (simp_all add: is_word_def is_alpha_us_def is_lower_def is_upper_def is_digit_def)

lemma free_name: "msg_shape ok tm m \<Longrightarrow> \<not> is_word c \<Longrightarrow> piece_free c (item_str m ''name'')"
  by (simp add: piece_free_def shape_name shape_word word_free)

lemma free_upper: "msg_shape ok tm m \<Longrightarrow> \<not> is_word c \<Longrightarrow> piece_free c (item_upper m ''name'')"
  by (simp add: piece_free_def shape_upper shape_word word_free upper_word)

lemma int_str_free: "\<not> is_word c \<Longrightarrow> c \<noteq> CHR ''-'' \<Longrightarrow> c \<notin> set (int_str i)"
  using int_str_chars digit_word by blast

lemma free_id: "msg_shape ok tm m \<Longrightarrow> \<not> is_word c \<Longrightarrow> c \<noteq> CHR ''-'' \<Longrightarrow> piece_free c (item_str m ''id'')"
  by (simp add: piece_free_def shape_id int_str_free)

lemma free_on_receive: "msg_shape ok tm m \<Longrightarrow> \<not> is_word c \<Longrightarrow> piece_free c (on_receive_name m)"
  by (auto simp: piece_free_def on_receive_name_def shape_name shape_word word_free is_word_def
      is_alpha_us_def is_lower_def)

lemma free_proto: "field_shape ok tm f \<Longrightarrow> \<not> is_word c \<Longrightarrow> piece_free c (item_str f ''proto'')"
  using field_proto word_free by (fastforce simp: piece_free_def)

lemma free_c_type: "field_shape supported_type tm f \<Longrightarrow> \<not> is_word c \<Longrightarrow> piece_free c (field_c_type f tm)"
  using field_type word_free by (fastforce simp: piece_free_def)

lemma free_V_int: "\<not> is_word c \<Longrightarrow> c \<noteq> CHR ''-'' \<Longrightarrow> piece_free c (V (PInt i))"
  by (simp add: piece_free_def V_def int_str_free)

lemma hex_free: "\<not> is_word c \<Longrightarrow> c \<notin> set (hex_upper w n)"
  using hex_upper_word by (rule word_free)

lemma utf8_free:
  "(of_char c :: nat) < 128 \<Longrightarrow> list_all (\<lambda>cp. 128 \<le> cp \<and> cp < 1114112) cps \<Longrightarrow> c \<notin> set (utf8 cps)"
  by (rule utf8_no_ascii)

lemma join_free: "c \<notin> set sep \<Longrightarrow> \<forall>w \<in> set ws. c \<notin> set w \<Longrightarrow> c \<notin> set (join sep ws)"
  by (induction sep ws rule: join.induct) auto

lemma crc8_lines_free:
  assumes "\<not> is_word c" and "c \<notin> set indent" and "c \<notin> set '', \<newline>''"
  shows "c \<notin> set (crc8_table_lines indent)"
proof -
  have "c \<noteq> CHR ''0''" "c \<noteq> CHR ''x''"
    using assms(1) by (auto simp: is_word_def is_alpha_us_def is_lower_def is_digit_def)
  then have value_free: "c \<notin> set (''0x'' @ hex_upper 2 n)" for n
    using hex_free [OF assms(1)] by simp
  have row: "c \<notin> set (indent @ join '', '' (map (\<lambda>v. ''0x'' @ hex_upper 2 (nat v)) vs) @ '','')" for vs
    unfolding set_append Un_iff de_Morgan_disj
  proof (intro conjI)
    show "c \<notin> set (join '', '' (map (\<lambda>v. ''0x'' @ hex_upper 2 (nat v)) vs))"
      using assms(3) value_free by (intro join_free) auto
  qed (use assms in auto)
  show ?thesis
    unfolding crc8_table_lines_def
    by (rule join_free) (use assms(3) row in auto)
qed

section \<open>Rules for the generators\<close>

lemma quiet_line:
  assumes "list_all (piece_free CHR ''*'') ps \<or> list_all (piece_free CHR ''/'') ps \<or>
      list_all (piece_free CHR ''G'') ps"
    and "ps \<noteq> []" and "ends_line (last ps)" and "list_all (piece_free CHR 0x0D) ps"
  shows "quiet_code (wr ps)"
  using assms by (auto intro: quiet_wr simp: BEGIN_PREFIX_def)

lemmas free_msg = free_name free_upper free_id free_on_receive

lemmas free_pieces = free_proto free_c_type free_V_int hex_free utf8_free int_str_free crc8_lines_free

end
