(* ===== verification/McuFiles.thy ===== *)
theory McuFiles
  imports GenShape
begin

text \<open>
  The generated C files keep hand-written code: every statement of the two C generators
  writes text in which no USER CODE block can begin, so what is extracted from a generated
  file is exactly the content of the blocks that were rendered into it.
\<close>

section \<open>The header\<close>

lemma banner_free: "CHR ''*'' \<notin> set MCU_FILE_BANNER" "CHR 0x0D \<notin> set MCU_FILE_BANNER"
  by (simp_all add: MCU_FILE_BANNER_def GENERATED_NOTICE_def utf8_free)

lemma banner_line: "MCU_FILE_BANNER \<noteq> [] \<and> last MCU_FILE_BANNER = CHR 0x0A"
  by (simp add: MCU_FILE_BANNER_def)

lemma key_ok_lits [simp]:
  "key_ok ''Includes''" "key_ok ''Private_Defines''" "key_ok ''User_Types''"
  "key_ok ''Private_Variables''" "key_ok ''Code_0''" "key_ok ''Code_1''"
  by (simp_all add: key_ok_def is_word_def is_alpha_us_def is_lower_def is_upper_def is_digit_def)

lemma quiet_blk_T: "key_ok k \<Longrightarrow> quiet_code (blk (T k))"
  by (simp add: T_def)

lemmas quiet_pieces = quiet_line quiet_blk_T free_pieces banner_free banner_line

lemma header_options_quiet:
  assumes "list_all is_word algo"
  shows "quiet_code (header_options algo rh ivm sh (PInt hi) (PInt ht) (PInt ri) (PInt mr) hash)"
  unfolding header_options_def
  by (simp add: quiet_pieces word_free [OF assms] del: quiet_blk)

lemma header_options_keys:
  assumes "quiet_code (header_options algo rh ivm sh hi ht ri mr hash)"
  shows "block_keys (header_options algo rh ivm sh hi ht ri mr hash) = [''Includes'', ''Private_Defines'']"
  using keys_parts [OF assms [unfolded header_options_def quiet_parts]]
  by (simp add: header_options_def)

lemma header_types_quiet:
  assumes "\<forall>m \<in> set messages. msg_shape supported_type tm m"
    and "item_str config ''head_byte_1'' = Inr (int_str h1)"
    and "item_str config ''head_byte_2'' = Inr (int_str h2)"
  shows "quiet_code (header_types config messages tm)"
proof -
  have head: "piece_free CHR ''*'' (item_str config k)" "piece_free CHR 0x0D (item_str config k)"
    if "k = ''head_byte_1'' \<or> k = ''head_byte_2''" for k
    using that assms(2,3) by (auto simp: piece_free_def int_str_free)
  have msg: "msg_shape supported_type tm m" if "m \<in> set messages" for m
    using assms(1) that by blast
  have fields: "quiet_code (bindE (item_list m ''fields'') (each (\<lambda>f.
      wr [T ''    '', field_c_type f tm, T '' '', item_str f ''proto'', T '';\<newline>''])))"
    if "m \<in> set messages" for m
    using shape_fields [OF msg [OF that]] shape_field [OF msg [OF that]]
    by (auto intro!: quiet_line disjI1 simp: free_proto [of supported_type tm] free_c_type)
  show ?thesis
    unfolding header_types_def
    by (simp add: quiet_pieces head fields free_msg [OF msg] del: quiet_blk)
qed

lemma header_decls_quiet:
  assumes "\<forall>m \<in> set messages. msg_shape supported_type tm m"
  shows "quiet_code (header_decls messages)"
proof -
  have msg: "msg_shape supported_type tm m" if "m \<in> set messages" for m
    using assms that by blast
  show ?thesis
    unfolding header_decls_def
    by (simp add: quiet_pieces free_msg [OF msg] del: quiet_blk)
qed

lemma header_types_keys: "block_keys (header_types config messages tm) = []"
  unfolding header_types_def by (simp add: no_keys)

lemma header_decls_keys:
  assumes "quiet_code (header_decls messages)"
  shows "block_keys (header_decls messages) = [''User_Types'']"
  using keys_parts [OF assms [unfolded header_decls_def quiet_parts]]
  by (simp add: header_decls_def no_keys)

text \<open>The options a validated configuration gives to the header.\<close>

definition header_config :: "pyval \<Rightarrow> bool" where
  "header_config config \<longleftrightarrow>
     (\<exists>cfg c h1 h2. config = PDict cfg \<and>
        dict_find cfg (K ''checksum'') = Some (PStr c) \<and> list_all is_word c \<and>
        dict_find cfg (K ''head_byte_1'') = Some (PInt h1) \<and>
        dict_find cfg (K ''head_byte_2'') = Some (PInt h2) \<and>
        (\<forall>(k, dflt) \<in> set INT_OPTIONS. \<exists>n. dget cfg k (PInt dflt) = PInt n))"

lemma header_config_of_ok:
  assumes "config_ok cfg params"
  shows "header_config (PDict cfg)"
proof -
  from assms obtain c where "dict_find cfg (K ''checksum'') = Some (PStr c)" "c \<in> set SUPPORTED_CHECKSUMS"
    unfolding config_ok_def by blast
  moreover from this(2) have "list_all is_word c"
    by (auto simp: SUPPORTED_CHECKSUMS_def is_word_def is_alpha_us_def is_upper_def is_digit_def)
  moreover from assms obtain h1 h2 where "dict_find cfg (K ''head_byte_1'') = Some (PInt h1)"
    "dict_find cfg (K ''head_byte_2'') = Some (PInt h2)"
    unfolding config_ok_def by blast
  moreover from assms have "\<forall>(k, dflt) \<in> set INT_OPTIONS. \<exists>n. dget cfg k (PInt dflt) = PInt n"
    unfolding config_ok_def by fast
  ultimately show ?thesis unfolding header_config_def by blast
qed

lemma header_quiet:
  assumes "header_config config" and "\<forall>m \<in> set messages. msg_shape supported_type tm m"
  shows "quiet_code (mcu_header_segs config messages tm hash) \<and>
    block_keys (mcu_header_segs config messages tm hash)
      = [''Includes'', ''Private_Defines'', ''User_Types'']"
proof -
  from assms(1) obtain cfg c h1 h2 where cfg: "config = PDict cfg"
    "dict_find cfg (K ''checksum'') = Some (PStr c)" "list_all is_word c"
    "dict_find cfg (K ''head_byte_1'') = Some (PInt h1)" "dict_find cfg (K ''head_byte_2'') = Some (PInt h2)"
    and opts: "\<forall>(k, dflt) \<in> set INT_OPTIONS. \<exists>n. dget cfg k (PInt dflt) = PInt n"
    unfolding header_config_def by blast
  from opts obtain hi ht ri mr where
    "dget cfg ''heartbeat_interval_ms'' (PInt 1000) = PInt hi"
    "dget cfg ''heartbeat_timeout_ms'' (PInt 3000) = PInt ht"
    "dget cfg ''reliable_retry_interval_ms'' (PInt 100) = PInt ri"
    "dget cfg ''reliable_max_retries'' (PInt 3) = PInt mr"
    unfolding INT_OPTIONS_def by auto
  then have segs: "mcu_header_segs config messages tm hash = parts
      [header_options (upper c) (dget cfg ''require_handshake'' (PBool True))
         (dget cfg ''ignore_version_mismatch'' (PBool False))
         (dget cfg ''strict_heartbeat'' (PBool True)) (PInt hi) (PInt ht) (PInt ri) (PInt mr) hash,
       header_types config messages tm, header_decls messages]"
    using cfg by (simp add: mcu_header_segs_def checksum_algo_of_def dget_find)
  have q: "quiet_code (header_options (upper c) rh ivm sh (PInt hi) (PInt ht) (PInt ri) (PInt mr) hash)"
    "quiet_code (header_types config messages tm)" "quiet_code (header_decls messages)" for rh ivm sh
    using header_options_quiet [OF upper_word [OF cfg(3)]] header_decls_quiet [OF assms(2)]
      header_types_quiet [OF assms(2)] cfg by (simp_all add: item_str_def)
  then show ?thesis
    unfolding segs by (simp add: keys_parts header_options_keys header_types_keys header_decls_keys)
qed

section \<open>The source\<close>

lemma source_preamble_quiet: "quiet_code (source_preamble a b)"
  unfolding source_preamble_def by (simp add: quiet_pieces del: quiet_blk)

lemma source_preamble_keys: "block_keys (source_preamble a b) = [''Includes'']"
  using keys_parts [OF source_preamble_quiet [unfolded source_preamble_def quiet_parts]]
  by (simp add: source_preamble_def)

lemma total_Inr_bool: "total (Inr (b :: bool))"
  by simp

lemma source_checksum_quiet: "quiet_code (source_checksum algo)"
  unfolding source_checksum_def by (simp add: quiet_pieces quiet_ifE del: quiet_blk)

lemma source_checksum_keys: "block_keys (source_checksum algo) = []"
  unfolding source_checksum_def by (simp add: no_keys)

lemma source_ack_quiet: "quiet_code (source_ack b)"
  unfolding source_ack_def by (simp add: quiet_pieces quiet_whenE del: quiet_blk)

lemma source_ack_keys: "block_keys (source_ack b) = []"
  unfolding source_ack_def by (simp add: no_keys)

definition callback_key :: "pyval \<Rightarrow> string" where
  "callback_key m = ''on_receive_'' @ msg_name m"

lemma on_receive_key:
  assumes "msg_shape supported_type tm m"
  shows "on_receive_name m = Inr (callback_key m)" "key_ok (callback_key m)"
  using shape_word [OF assms]
  by (simp_all add: on_receive_name_def callback_key_def shape_name [OF assms] key_ok_def
      is_word_def is_alpha_us_def is_lower_def)

lemma quiet_blk_callback: "msg_shape supported_type tm m \<Longrightarrow> quiet_code (blk (on_receive_name m))"
  by (simp add: on_receive_key [of tm])

lemma source_hooks_quiet:
  assumes "\<forall>m \<in> set messages. msg_shape supported_type tm m"
  shows "quiet_code (source_hooks messages)"
proof -
  have msg: "msg_shape supported_type tm m" if "m \<in> set messages" for m using assms that by blast
  show ?thesis
    unfolding source_hooks_def
    by (simp add: quiet_pieces free_msg [OF msg] quiet_blk_callback [OF msg] del: quiet_blk)
qed

lemma source_hooks_keys:
  assumes "\<forall>m \<in> set messages. msg_shape supported_type tm m"
  shows "block_keys (source_hooks messages)
    = ''Private_Variables'' # map callback_key messages @ [''Code_0'']"
proof -
  have msg: "msg_shape supported_type tm m" if "m \<in> set messages" for m using assms that by blast
  define hook where "hook m = [wr [T ''__attribute__((weak)) void '', on_receive_name m,
       T ''(const Packet_'', item_str m ''name'', T ''* pkt) {\<newline>''], wr [T ''    (void)pkt;\<newline>''],
       blk (on_receive_name m), wr [T ''}\<newline>'']]" for m
  have q: "list_all quiet_code (hook m)" if "m \<in> set messages" for m
    by (simp add: hook_def quiet_pieces free_msg [OF msg [OF that]] quiet_blk_callback [OF msg [OF that]]
        del: quiet_blk)
  have k: "block_keys (parts (hook m)) = [callback_key m]" if "m \<in> set messages" for m
    using keys_parts [OF q [OF that]] keys_blk [OF on_receive_key(1) [OF msg [OF that]]]
    by (simp add: hook_def)
  have "block_keys (each (\<lambda>m. parts (hook m)) messages) = concat (map (\<lambda>m. [callback_key m]) messages)"
    using q k by (simp add: keys_each cong: map_cong)
  also have "\<dots> = map callback_key messages" by (induction messages) auto
  finally show ?thesis
    using keys_parts [OF source_hooks_quiet [OF assms, unfolded source_hooks_def quiet_parts]]
    by (simp add: source_hooks_def hook_def)
qed

lemma source_fsm_quiet:
  assumes "\<forall>m \<in> set messages. msg_shape supported_type tm m" and "CHR ''G'' \<notin> set expr" and "CHR 0x0D \<notin> set expr"
  shows "quiet_code (source_fsm expr rh messages)"
proof -
  have msg: "msg_shape supported_type tm m" if "m \<in> set messages" for m using assms that by blast
  show ?thesis
    unfolding source_fsm_def
    by (simp add: quiet_pieces quiet_ifE quiet_whenE assms(2,3) free_msg [OF msg] shape_get [OF msg]
        shape_name_eq [OF msg] total_andE del: quiet_blk)
qed

lemma source_fsm_keys: "block_keys (source_fsm expr rh messages) = []"
  unfolding source_fsm_def by (simp add: no_keys)

lemma source_send_quiet:
  assumes "\<forall>m \<in> set messages. msg_shape supported_type tm m"
  shows "quiet_code (source_send messages)"
proof -
  have msg: "msg_shape supported_type tm m" if "m \<in> set messages" for m using assms that by blast
  show ?thesis
    unfolding source_send_def
    by (simp add: quiet_pieces free_msg [OF msg] del: quiet_blk)
qed

lemma source_send_keys:
  assumes "\<forall>m \<in> set messages. msg_shape supported_type tm m"
  shows "block_keys (source_send messages) = [''Code_1'']"
  using keys_parts [OF source_send_quiet [OF assms, unfolded source_send_def quiet_parts]]
  by (simp add: source_send_def no_keys)

lemma any_reliable_total: "\<forall>m \<in> set messages. msg_shape supported_type tm m \<Longrightarrow> total (any_reliable messages)"
proof (induction messages)
  case (Cons m ms)
  then have "total (get_true m ''reliable'' (PBool False))" using shape_get by auto
  with Cons show ?case by (simp add: total_bind)
qed simp

lemma shape_sizes:
  assumes "msg_shape supported_type tm m"
  shows "total (message_payload_size m tm)" "total (message_wire_payload_size m tm)"
proof -
  have "total (field_size tm f)" if "f \<in> set (msg_fields m)" for f
    using shape_field [OF assms that]
    by (auto simp: field_shape_def field_size_def c_type_in_def c_type_size_def supported_type_def)
  then have "total (mapE (field_size tm) (msg_fields m))" by simp
  moreover obtain d where "m = PDict d" "dict_find d (K ''fields'') = Some (PList (msg_fields m))"
    by (rule msg_shapeE [OF assms])
  ultimately show "total (message_payload_size m tm)"
    by (auto simp: message_payload_size_def total_def)
  then show "total (message_wire_payload_size m tm)"
    unfolding message_wire_payload_size_def
    using shape_py_get [OF assms] by (intro total_bind) auto
qed

lemma max_of_total:
  assumes "xs \<noteq> []" and "\<forall>x \<in> set xs. total (f x)"
  shows "\<exists>n. max_of f xs = Inr n"
proof -
  obtain ns where ns: "mapE f xs = Inr ns"
    using assms(2) total_mapE [of f xs] unfolding total_def by blast
  with mapE_length [OF ns] assms(1) show ?thesis
    by (cases ns) (auto simp: max_of_def)
qed

lemma source_quiet:
  assumes "header_config config" and "\<forall>m \<in> set messages. msg_shape supported_type tm m" and "messages \<noteq> []"
  shows "quiet_code (mcu_source_segs config messages tm) \<and>
    block_keys (mcu_source_segs config messages tm) =
      [''Includes'', ''Private_Variables''] @ map callback_key messages @
      [''Code_0'', ''Code_1'']"
proof -
  from assms(1) obtain cfg c where cfg: "config = PDict cfg"
    "dict_find cfg (K ''checksum'') = Some (PStr c)"
    unfolding header_config_def by blast
  obtain a b where ab: "max_of (\<lambda>msg. message_payload_size msg tm) messages = Inr a"
    "max_of (\<lambda>msg. message_wire_payload_size msg tm) messages = Inr b"
    using max_of_total [OF assms(3), of "\<lambda>m. message_payload_size m tm"]
      max_of_total [OF assms(3), of "\<lambda>m. message_wire_payload_size m tm"] assms(2) shape_sizes
    by blast
  obtain r where r: "any_reliable messages = Inr r" using any_reliable_total [OF assms(2)] unfolding total_def by blast
  define expr where "expr = (if upper c = ''NONE'' then ''1'' else ''byte == rx_checksum'')"
  have expr: "CHR ''G'' \<notin> set expr" "CHR 0x0D \<notin> set expr" by (simp_all add: expr_def)
  note q = source_preamble_quiet source_checksum_quiet source_ack_quiet
    source_hooks_quiet [OF assms(2)] source_fsm_quiet [OF assms(2) expr] source_send_quiet [OF assms(2)]
  have segs: "mcu_source_segs config messages tm = parts
      [source_preamble a b, source_checksum (upper c), source_ack r, source_hooks messages,
       source_fsm expr (dget cfg ''require_handshake'' (PBool True)) messages, source_send messages]"
    using cfg ab r by (simp add: mcu_source_segs_def checksum_algo_of_def dget_find expr_def)
  show ?thesis
    unfolding segs using q
    by (simp add: keys_parts source_preamble_keys source_checksum_keys source_ack_keys
        source_hooks_keys [OF assms(2)] source_fsm_keys source_send_keys [OF assms(2)])
qed

end
