(* ===== verification/GenConfig.thy ===== *)
theory GenConfig
  imports GenSource
begin

text \<open>
  \<open>generate_cpp_config\<close>: the text of \<open>generated_config.hpp\<close>, the constants and per-packet
  queries the ROS node is compiled with.
\<close>

definition reliable_word :: "pyval \<Rightarrow> piece" where
  "reliable_word msg =
     bindE (get_true msg ''reliable'' (PBool False)) (\<lambda>r. T (if r then ''true'' else ''false''))"

definition debug_enabled :: "pyval \<Rightarrow> piece" where
  "debug_enabled msg =
     bindE (py_get msg ''debug_log_mode'' (PStr ''on'')) (\<lambda>mode.
     T (if mode = PStr ''off'' then ''false'' else ''true''))"

definition config_constants :: "pyval \<Rightarrow> string \<Rightarrow> pyval \<Rightarrow> pyval \<Rightarrow> seg list res" where
  \<open>config_constants config checksum_algo default_port default_baudrate = parts
     [wr [T GENERATED_NOTICE],
      wr [T ''#pragma once\<newline>''],
      wr [T ''#include <cstdint>\<newline>''],
      wr [T ''#include <cstddef>\<newline>'', T ''\<newline>''],
      wr [T ''#include "auto_serial_bridge/generated/protocol.h"\<newline>'', T ''\<newline>''],
      wr [T ''namespace auto_serial_bridge {\<newline>''],
      wr [T ''namespace config {\<newline>'', T ''\<newline>''],
      wr [T ''    constexpr const char * DEFAULT_PORT = "'', V default_port, T ''";\<newline>''],
      wr [T ''    constexpr uint32_t DEFAULT_BAUDRATE = '', V default_baudrate, T '';\<newline>''],
      wr [T ''    constexpr size_t BUFFER_SIZE = '', item_str config ''buffer_size'',
          T '';\<newline>''],
      wr [T ''    constexpr uint8_t CFG_FRAME_HEADER1 = '', item_str config ''head_byte_1'',
          T '';\<newline>''],
      wr [T ''    constexpr uint8_t CFG_FRAME_HEADER2 = '', item_str config ''head_byte_2'',
          T '';\<newline>'', T ''\<newline>''],
      wr [T ''    enum class ChecksumAlgo { NONE, SUM8, XOR8, CRC8 };\<newline>''],
      wr [T ''    constexpr ChecksumAlgo CHECKSUM_ALGO = ChecksumAlgo::'', T checksum_algo,
          T '';\<newline>'', T ''\<newline>'']]\<close>

definition config_options ::
  "pyval \<Rightarrow> pyval \<Rightarrow> pyval \<Rightarrow> pyval \<Rightarrow> pyval \<Rightarrow> pyval \<Rightarrow> pyval \<Rightarrow> pyval \<Rightarrow> int \<Rightarrow> seg list res" where
  \<open>config_options require_handshake ignore_version_mismatch strict_heartbeat qos_depth
     heartbeat_interval_ms heartbeat_timeout_ms reliable_retry_interval_ms reliable_max_retries
     max_payload_size = parts
     [wr [T ''    // CRC8 '', T (utf8 [0x67E5, 0x627E, 0x8868]), T '' ('',
          T (utf8 [0x591A, 0x9879, 0x5F0F]), T '' 0x31)'', T (utf8 [0x3002]), T ''constexpr'',
          T (utf8 [0xFF0C, 0x672A, 0x9009, 0x7528]), T '' CRC8 '',
          T (utf8 [0x65F6, 0x96F6, 0x5F00, 0x9500, 0x3002]), T ''\<newline>''],
      wr [T ''    inline constexpr uint8_t CRC8_TABLE[256] = {\<newline>''],
      wr [T (crc8_table_lines ''        '')],
      wr [T ''\<newline>'', T ''    };\<newline>'', T ''\<newline>''],
      wr [T ''    constexpr bool REQUIRE_HANDSHAKE = '',
          T (if truthy require_handshake then ''true'' else ''false''), T '';\<newline>''],
      wr [T ''    constexpr bool IGNORE_VERSION_MISMATCH = '',
          T (if truthy ignore_version_mismatch then ''true'' else ''false''), T '';\<newline>''],
      wr [T ''    constexpr bool STRICT_HEARTBEAT = '',
          T (if truthy strict_heartbeat then ''true'' else ''false''), T '';\<newline>''],
      wr [T ''    constexpr size_t QOS_DEPTH = '', V qos_depth, T '';\<newline>''],
      wr [T ''    constexpr int HEARTBEAT_INTERVAL_MS = '', V heartbeat_interval_ms,
          T '';\<newline>''],
      wr [T ''    constexpr int HEARTBEAT_TIMEOUT_MS = '', V heartbeat_timeout_ms,
          T '';\<newline>''],
      wr [T ''    constexpr int RELIABLE_RETRY_INTERVAL_MS = '', V reliable_retry_interval_ms,
          T '';\<newline>''],
      wr [T ''    constexpr int RELIABLE_MAX_RETRIES = '', V reliable_max_retries,
          T '';\<newline>''],
      wr [T ''    constexpr size_t MAX_PACKET_PAYLOAD_SIZE = '', T (int_str max_payload_size),
          T '';\<newline>'', T ''\<newline>'']]\<close>

definition config_queries :: "pyval list \<Rightarrow> seg list res" where
  \<open>config_queries messages = parts
     [wr [T ''    inline constexpr size_t expected_payload_size(PacketID id) {\<newline>''],
      wr [T ''        switch (id) {\<newline>''],
      each (\<lambda>msg.
        ifE (get_true msg ''reliable'' (PBool False))
          (
           wr [T ''            case PACKET_ID_'', item_upper msg ''name'',
               T '': return sizeof(Packet_'', item_str msg ''name'', T '') + 1;\<newline>''])
          (
           wr [T ''            case PACKET_ID_'', item_upper msg ''name'',
               T '': return sizeof(Packet_'', item_str msg ''name'', T '');\<newline>''])) messages,
      wr [T ''            default: return 0;\<newline>''],
      wr [T ''        }\<newline>''],
      wr [T ''    }\<newline>''],
      wr [T ''\<newline>''],
      wr [T ''    inline constexpr bool is_reliable_packet(PacketID id) {\<newline>''],
      wr [T ''        switch (id) {\<newline>''],
      each (\<lambda>msg.
        wr [T ''            case PACKET_ID_'', item_upper msg ''name'', T '': return '',
            reliable_word msg, T '';\<newline>'']) messages,
      wr [T ''            default: return false;\<newline>''],
      wr [T ''        }\<newline>''],
      wr [T ''    }\<newline>''],
      wr [T ''\<newline>''],
      wr [T ''    inline constexpr bool is_debug_log_enabled(PacketID id) {\<newline>''],
      wr [T ''        switch (id) {\<newline>''],
      each (\<lambda>msg.
        wr [T ''            case PACKET_ID_'', item_upper msg ''name'', T '': return '',
            debug_enabled msg, T '';\<newline>'']) messages,
      wr [T ''            default: return true;\<newline>''],
      wr [T ''        }\<newline>''],
      wr [T ''    }\<newline>''],
      wr [T ''\<newline>'', T ''}\<newline>''],
      wr [T ''}\<newline>'']]\<close>

definition or_empty :: "pyval \<Rightarrow> pyval" where                        \<comment> \<open>\<open>v or {}\<close>\<close>
  "or_empty v = (if truthy v then v else PDict [])"

definition cpp_config_segs ::
  "pyval \<Rightarrow> pyval list \<Rightarrow> pyval \<Rightarrow> pyval \<Rightarrow> seg list res" where
  "cpp_config_segs config messages type_mappings serial_params =
     bindE (checksum_algo_of config) (\<lambda>checksum_algo.
     bindE (py_get config ''require_handshake'' (PBool True)) (\<lambda>require_handshake.
     bindE (py_get config ''ignore_version_mismatch'' (PBool False)) (\<lambda>ignore_version_mismatch.
     bindE (py_get config ''qos_depth'' (PInt 10)) (\<lambda>qos_depth.
     bindE (py_get config ''heartbeat_interval_ms'' (PInt 1000)) (\<lambda>heartbeat_interval_ms.
     bindE (py_get config ''heartbeat_timeout_ms'' (PInt 3000)) (\<lambda>heartbeat_timeout_ms.
     bindE (py_get config ''strict_heartbeat'' (PBool True)) (\<lambda>strict_heartbeat.
     bindE (py_get config ''reliable_retry_interval_ms'' (PInt 100)) (\<lambda>reliable_retry_interval_ms.
     bindE (py_get config ''reliable_max_retries'' (PInt 3)) (\<lambda>reliable_max_retries.
     bindE (py_get (or_empty serial_params) ''port'' (PStr ''/dev/ttyACM0'')) (\<lambda>default_port.
     bindE (py_get (or_empty serial_params) ''baudrate'' (PInt 115200)) (\<lambda>default_baudrate.
     parts
       [config_constants config checksum_algo default_port default_baudrate,
        bindE (max_of (\<lambda>msg. message_wire_payload_size msg type_mappings) messages)
          (config_options require_handshake ignore_version_mismatch strict_heartbeat qos_depth
             heartbeat_interval_ms heartbeat_timeout_ms reliable_retry_interval_ms
             reliable_max_retries),
        config_queries messages])))))))))))"

definition generate_cpp_config ::
  "pyval \<Rightarrow> pyval list \<Rightarrow> pyval \<Rightarrow> string \<Rightarrow> pyval \<Rightarrow> fs \<Rightarrow> fs res" where
  "generate_cpp_config config messages type_mappings output_path serial_params fs =
     bindE (cpp_config_segs config messages type_mappings serial_params) (\<lambda>segs.
     Inr (write_segments fs output_path [] segs))"

end
