(* ===== verification/GenBindings.thy ===== *)
theory GenBindings
  imports GenSource Validate
begin

text \<open>
  \<open>generate_ros_bindings\<close>: the text of \<open>generated_bindings.hpp\<close>, one definition per emitted
  C++ function. The size requirements of a handler come from \<open>_analyze_ros_path\<close>
  (\<open>RosPath\<close>); the lemmas say that each handler checks every container it indexes, and in an
  order in which no check itself evaluates an unchecked index.
\<close>

section \<open>ROS type names\<close>

definition ros_type_parts :: "pyval \<Rightarrow> (string \<times> string \<times> string) res" where
  \<comment> \<open>\<open>pkg, sub, typ = v.split('/')\<close>\<close>
  "ros_type_parts v = (case v of
      PStr s \<Rightarrow> (case split_on CHR ''/'' s of
                   [pkg, sub, typ] \<Rightarrow> Inr (pkg, sub, typ) | _ \<Rightarrow> Inl ValueError)
    | _ \<Rightarrow> Inl AttributeError)"

definition with_ros_type :: "pyval \<Rightarrow> (string \<Rightarrow> string \<Rightarrow> string \<Rightarrow> 'a res) \<Rightarrow> 'a res" where
  "with_ros_type msg f =
     bindE (py_item msg ''ros_msg'') (\<lambda>v.
     bindE (ros_type_parts v) (\<lambda>(pkg, sub, typ). f pkg sub typ))"

definition cpp_type :: "string \<Rightarrow> string \<Rightarrow> string \<Rightarrow> string" where
  "cpp_type pkg sub typ = pkg @ ''::'' @ sub @ ''::'' @ typ"

text \<open>\<open>re.sub('(.)([A-Z][a-z]+)', r'\1_\2', s)\<close> and \<open>re.sub('([a-z0-9])([A-Z])', r'\1_\2', s)\<close>.\<close>

function snake_words :: "string \<Rightarrow> string" where
  "snake_words s = (case s of
      c # u # rest \<Rightarrow>
        if c \<noteq> CHR 0x0A \<and> is_upper u \<and> takeWhile is_lower rest \<noteq> []
        then c # CHR ''_'' # u # takeWhile is_lower rest @ snake_words (dropWhile is_lower rest)
        else c # snake_words (u # rest)
    | _ \<Rightarrow> s)"
  by pat_completeness auto
termination
  by (relation "measure length") (auto intro: le_less_trans [OF length_dropWhile_le])

declare snake_words.simps [simp del]

fun snake_humps :: "string \<Rightarrow> string" where
  "snake_humps (c # u # rest) =
     (if (is_lower c \<or> is_digit c) \<and> is_upper u then c # CHR ''_'' # u # snake_humps rest
      else c # snake_humps (u # rest))"
| "snake_humps s = s"

definition snake_type :: "string \<Rightarrow> string" where
  "snake_type typ = lower (snake_humps (snake_words typ))"

text \<open>\<open>sorted({msg['ros_msg'] for msg in messages if msg.get('ros_msg')})\<close>.\<close>

definition binding_includes :: "pyval list \<Rightarrow> string list res" where
  "binding_includes messages =
     bindE (mapE (\<lambda>msg. bindE (py_get msg ''ros_msg'' PNone) (\<lambda>v.
              Inr (if truthy v then [v] else []))) messages) (\<lambda>vss.
     if list_all is_str (concat vss)
     then Inr (sorted_list_of_set (set (map py_str (concat vss))))
     else Inl TypeError)"

section \<open>Includes and helpers\<close>

definition bindings_prelude :: "seg list res" where
  \<open>bindings_prelude = parts
     [wr [T GENERATED_NOTICE],
      wr [T ''#pragma once\<newline>''],
      wr [T ''#include <cstddef>\<newline>''],
      wr [T ''#include <cstdint>\<newline>''],
      wr [T ''#include <cstring>\<newline>''],
      wr [T ''#include <sstream>\<newline>''],
      wr [T ''#include <string>\<newline>''],
      wr [T ''#include <type_traits>\<newline>''],
      wr [T ''#include <vector>\<newline>''],
      wr [T ''#include "auto_serial_bridge/generated/generated_config.hpp"\<newline>''],
      wr [T ''#include "auto_serial_bridge/serial_controller.hpp"\<newline>'']]\<close>

definition bindings_include :: "string \<Rightarrow> seg list res" where
  "bindings_include inc =
     bindE (ros_type_parts (PStr inc)) (\<lambda>(pkg, sub, typ).
     wr [T ''#include <'', T pkg, T ''/'', T sub, T ''/'', T (snake_type typ), T ''.hpp>\<newline>''])"

definition bindings_detail :: "seg list res" where
  \<open>bindings_detail = parts
     [wr [T ''#include "auto_serial_bridge/generated/protocol.h"\<newline>''],
      wr [T ''\<newline>''],
      wr [T ''namespace auto_serial_bridge {\<newline>''],
      wr [T ''namespace generated {\<newline>''],
      wr [T ''\<newline>''],
      wr [T ''namespace detail {\<newline>'',
          T ''template <typename T, typename = void>\<newline>'',
          T ''struct HasResize : std::false_type {};\<newline>'',
          T ''template <typename T>\<newline>'', T ''struct HasResize<T, '',
          T ''std::void_t<decltype(std::declval<T&>().resize(std::size_t{}))>> : '',
          T ''std::true_type {};\<newline>'', T ''\<newline>'', T ''// '',
          T (utf8 [0x52A8, 0x6001, 0x5BB9, 0x5668]), T '' (std::vector) '',
          T (utf8 [0x6309, 0x9700, 0x6269, 0x5BB9, 0xFF1B, 0x5B9A, 0x957F, 0x5BB9, 0x5668]),
          T '' (std::array) '', T (utf8 [0x53EA, 0x6821, 0x9A8C, 0x5BB9, 0x91CF, 0x3002]),
          T ''\<newline>'', T ''template <typename T>\<newline>'',
          T ''inline bool ensure_size(T& container, std::size_t required) {\<newline>'',
          T ''    if constexpr (HasResize<T>::value) {\<newline>'',
          T ''        if (container.size() < required) {\<newline>'',
          T ''            container.resize(required);\<newline>'', T ''        }\<newline>'',
          T ''        return true;\<newline>'', T ''    } else {\<newline>'',
          T ''        return container.size() >= required;\<newline>'', T ''    }\<newline>'',
          T ''}\<newline>'', T ''} // namespace detail\<newline>'', T ''\<newline>'']]\<close>

section \<open>describe\_packet\<close>

definition field_kind :: "pyval \<Rightarrow> string res" where   \<comment> \<open>\<open>str(field.get('type', '')).lower()\<close>\<close>
  "field_kind field = bindE (py_get field ''type'' (PStr [])) (\<lambda>v. Inr (lower (py_str v)))"

definition by_kind :: "pyval \<Rightarrow> 'a \<Rightarrow> 'a \<Rightarrow> 'a \<Rightarrow> 'a res" where
  "by_kind field f u i =
     bindE (field_kind field) (\<lambda>t.
     Inr (if take 1 t = ''f'' then f else if take 1 t = ''u'' then u else i))"

definition describe_field :: "pyval \<Rightarrow> string res" where
  \<open>describe_field field =
     bindE (item_str field ''proto'') (\<lambda>field_name.
     bindE (by_kind field ''double'' ''unsigned int'' ''int'') (\<lambda>c.
     Inr ('' << "'' @ field_name @ ''=" << static_cast<'' @ c @ ''>(pkt.'' @ field_name @ '')'')))\<close>

definition item_direction :: "(pyval \<Rightarrow> bool) \<Rightarrow> pyval \<Rightarrow> bool res" where
  \<comment> \<open>\<open>msg['direction'] in (\<dots>)\<close>\<close>
  "item_direction p msg = bindE (py_item msg ''direction'') (\<lambda>d. Inr (p d))"

definition describe_case :: "pyval \<Rightarrow> seg list res" where
  \<open>describe_case msg = whenE (item_direction sends msg) (parts
     [wr [T ''        case PACKET_ID_'', item_upper msg ''name'', T '': {\<newline>''],
      wr [T ''            if (payload.size() < sizeof(Packet_'', item_str msg ''name'',
          T '')) {\<newline>''],
      wr [T ''                out << "'', item_str msg ''name'',
          T '': payload_size=" << payload.size() << " expected>=" << sizeof(Packet_'',
          item_str msg ''name'', T '');\<newline>''],
      wr [T ''                return out.str();\<newline>''],
      wr [T ''            }\<newline>''],
      wr [T ''            Packet_'', item_str msg ''name'', T '' pkt;\<newline>''],
      wr [T ''            std::memcpy(&pkt, payload.data(), sizeof(pkt));\<newline>''],
      bindE (bindE (item_list msg ''fields'') (mapE describe_field)) (\<lambda>field_parts.
        if field_parts \<noteq> [] then
          wr [T ''            out << "'', item_str msg ''name'', T '': "'',
              T (join '' << ", "'' field_parts), T '';\<newline>'']
        else wr [T ''            out << "'', item_str msg ''name'', T ''";\<newline>'']),
      whenE (get_true msg ''reliable'' (PBool False)) (parts
        [wr [T ''            if (payload.size() > sizeof(Packet_'', item_str msg ''name'',
             T '')) {\<newline>''],
         wr [T ''                out << ", ack_seq=" << static_cast<unsigned '',
             T ''int>(payload[sizeof(Packet_'', item_str msg ''name'', T '')]);\<newline>''],
         wr [T ''            }\<newline>'']]),
      wr [T ''            return out.str();\<newline>''],
      wr [T ''        }\<newline>'']])\<close>

definition bindings_describe :: "pyval list \<Rightarrow> seg list res" where
  \<open>bindings_describe messages = parts
     [wr [T ''// MCU TX DECODED helper.\<newline>''],
      wr [T ''inline std::string describe_packet(PacketID id, const '',
          T ''std::vector<uint8_t>& payload) {\<newline>''],
      wr [T ''    std::ostringstream out;\<newline>''],
      wr [T ''    switch(id) {\<newline>''],
      each describe_case messages,
      wr [T ''        default:\<newline>''],
      wr [T ''            out << "packet_id=0x" << std::hex << static_cast<unsigned '',
          T ''int>(static_cast<uint8_t>(id)) << std::dec << ", payload_size=" << '',
          T ''payload.size();\<newline>''],
      wr [T ''            return out.str();\<newline>''],
      wr [T ''    }\<newline>''],
      wr [T ''}\<newline>'', T ''\<newline>'']]\<close>

section \<open>register\_all: from ROS to the MCU\<close>

text \<open>The expressions of the fields, and the merged requirements of all of them.\<close>

definition path_step ::
  "bool \<Rightarrow> pyval \<Rightarrow> (pyval \<times> string) list \<times> reqs \<Rightarrow> ((pyval \<times> string) list \<times> reqs) res" where
  "path_step pointer field acc = (case acc of (exprs, vector_requirements) \<Rightarrow>
     bindE (py_item field ''ros'') (\<lambda>v. case v of
         PStr path \<Rightarrow>
           bindE (analyze_ros_path path ''msg'' pointer) (\<lambda>(expr, requirements).
           Inr (exprs @ [(field, expr)], merge_vector_requirements vector_requirements requirements))
       | _ \<Rightarrow> Inl AttributeError))"

definition field_paths :: "bool \<Rightarrow> pyval list \<Rightarrow> ((pyval \<times> string) list \<times> reqs) res" where
  "field_paths pointer flds = foldE (path_step pointer) flds ([], [])"

definition sorted_requirements :: "reqs \<Rightarrow> (string \<times> nat) list" where
  \<comment> \<open>\<open>sorted(vector_requirements.items())\<close>; the keys are distinct\<close>
  "sorted_requirements reqs = sort_key fst reqs"

definition size_guard :: "pyval \<Rightarrow> pyval \<Rightarrow> string \<times> nat \<Rightarrow> seg list res" where
  \<open>size_guard msg topic req = (case req of (expr, required_size) \<Rightarrow> parts
     [wr [T ''            if ('', T expr, T ''.size() < '', T (nat_str required_size), T '') {\<newline>''],
      wr [T ''                RCLCPP_ERROR_THROTTLE(\<newline>''],
      wr [T ''                    node->get_logger(), *node->get_clock(), 2000,\<newline>''],
      wr [T ''                    "Message for '', item_str msg ''name'', T '' on '',
          V topic, T '' requires at least '', T (nat_str required_size),
          T '' entries in '', T (vector_label expr), T '', got %zu",\<newline>''],
      wr [T ''                    '', T expr, T ''.size());\<newline>''],
      wr [T ''                return;\<newline>''],
      wr [T ''            }\<newline>'']])\<close>

definition needs_int32_multiarray_u8_range_guard :: "pyval \<Rightarrow> pyval \<Rightarrow> pyval \<Rightarrow> bool res" where
  "needs_int32_multiarray_u8_range_guard ros_msg field type_mappings =
     andE (Inr (ros_msg = PStr ''std_msgs/msg/Int32MultiArray''))
       (bindE (py_item field ''type'') (\<lambda>t. bindE (get_c_type t type_mappings) (\<lambda>c.
        Inr (c = PStr ''uint8_t''))))"

definition write_u8_range_guard :: "pyval \<Rightarrow> pyval \<Rightarrow> pyval \<Rightarrow> string \<Rightarrow> seg list res" where
  \<open>write_u8_range_guard msg_name topic field_name read_expr = parts
     [wr [T ''            if ('', T read_expr, T '' < 0 || '', T read_expr, T '' > 255) {\<newline>''],
      wr [T ''                RCLCPP_ERROR_THROTTLE(\<newline>''],
      wr [T ''                    node->get_logger(), *node->get_clock(), 2000,\<newline>''],
      wr [T ''                    "Message for '', V msg_name, T '' on '', V topic,
          T '' field '', V field_name, T '' is out of uint8 range [0, 255]: %d",\<newline>''],
      wr [T ''                    static_cast<int>('', T read_expr, T ''));\<newline>''],
      wr [T ''                return;\<newline>''],
      wr [T ''            }\<newline>'']]\<close>

definition read_field :: "pyval \<Rightarrow> pyval \<Rightarrow> pyval \<Rightarrow> pyval \<times> string \<Rightarrow> seg list res" where
  \<open>read_field msg topic type_mappings fe = (case fe of (field, read_expr) \<Rightarrow>
     bindE (field_c_type field type_mappings) (\<lambda>c_type. parts
     [bindE (py_item msg ''ros_msg'') (\<lambda>ros_msg.
        whenE (needs_int32_multiarray_u8_range_guard ros_msg field type_mappings)
          (bindE (py_item msg ''name'') (\<lambda>name.
           bindE (py_item field ''proto'') (\<lambda>proto.
           write_u8_range_guard name topic proto read_expr)))),
      wr [T ''            pkt.'', item_str field ''proto'', T '' = static_cast<'', T c_type,
          T ''>('', T read_expr, T '');\<newline>'']]))\<close>

definition subscription :: "pyval \<Rightarrow> pyval \<Rightarrow> pyval \<Rightarrow> pyval \<Rightarrow> seg list res" where
  \<open>subscription msg topic qos_depth type_mappings = with_ros_type msg (\<lambda>pkg sub typ. parts
     [wr [T ''    // '', item_str msg ''name'', T '' (ROS -> MCU)\<newline>''],
      wr [T ''    node->add_subscription(node->create_subscription<'',
          T (cpp_type pkg sub typ), T ''>(\<newline>''],
      wr [T ''        "'', V topic, T ''", '', V qos_depth, T '',\<newline>''],
      wr [T ''        [node](const '', T (cpp_type pkg sub typ), T ''::SharedPtr msg) {\<newline>''],
      bindE (bindE (item_list msg ''fields'') (field_paths True)) (\<lambda>(field_reads, reqs). parts
        [each (size_guard msg topic) (sorted_requirements reqs),
         wr [T ''            Packet_'', item_str msg ''name'', T '' pkt;\<newline>''],
         each (read_field msg topic type_mappings) field_reads]),
      bindE (get_true msg ''reliable'' (PBool False)) (\<lambda>reliable.
        wr [T ''            node->'', T (if reliable then ''reliable_send'' else ''send_packet''),
            T ''(PACKET_ID_'', item_upper msg ''name'', T '', pkt);\<newline>'']),
      wr [T ''        }));\<newline>''],
      wr [T ''\<newline>'']])\<close>

definition register_msg :: "pyval \<Rightarrow> pyval \<Rightarrow> pyval \<Rightarrow> seg list res" where
  "register_msg qos_depth type_mappings msg =
     bindE (py_get msg ''sub_topic'' PNone) (\<lambda>topic.
     whenE (andE (item_direction sends msg) (Inr (truthy topic)))
       (subscription msg topic qos_depth type_mappings))"

definition bindings_register :: "pyval list \<Rightarrow> pyval \<Rightarrow> pyval \<Rightarrow> seg list res" where
  \<open>bindings_register messages type_mappings qos_depth = parts
     [wr [T ''inline void register_all(SerialController* node) {\<newline>''],
      wr [T ''    (void)node;\<newline>''],
      each (register_msg qos_depth type_mappings) messages,
      wr [T ''}\<newline>'', T ''\<newline>'']]\<close>

section \<open>ProtocolPublishers\<close>

definition publishes :: "pyval \<Rightarrow> bool res" where
  \<comment> \<open>\<open>msg['direction'] in ('rx', 'both') and msg.get('pub_topic')\<close>\<close>
  "publishes msg = andE (item_direction receives msg) (get_true msg ''pub_topic'' PNone)"

definition bindings_publishers :: "pyval list \<Rightarrow> pyval \<Rightarrow> seg list res" where
  \<open>bindings_publishers messages qos_depth = parts
     [wr [T ''struct ProtocolPublishers {\<newline>''],
      each (\<lambda>msg. whenE (publishes msg) (with_ros_type msg (\<lambda>pkg sub typ.
        wr [T ''    rclcpp::Publisher<'', T pkg, T ''::'', T sub, T ''::'', T typ,
            T ''>::SharedPtr pub_'', item_str msg ''name'', T '';\<newline>'']))) messages,
      wr [T ''\<newline>'', T ''    void init(SerialController* node) {\<newline>''],
      wr [T ''        (void)node;\<newline>''],
      each (\<lambda>msg. whenE (publishes msg) (with_ros_type msg (\<lambda>pkg sub typ.
        wr [T ''        pub_'', item_str msg ''name'', T '' = node->create_publisher<'',
            T pkg, T ''::'', T sub, T ''::'', T typ, T ''>("'', item_str msg ''pub_topic'',
            T ''", '', V qos_depth, T '');\<newline>'']))) messages,
      wr [T ''    }\<newline>''],
      wr [T ''};\<newline>'', T ''\<newline>'']]\<close>

section \<open>dispatch\_packet: from the MCU to ROS\<close>

definition write_field :: "pyval \<Rightarrow> pyval \<Rightarrow> pyval \<times> string \<Rightarrow> seg list res" where
  \<open>write_field msg type_mappings fe = (case fe of (field, write_expr) \<Rightarrow>
     bindE (py_item field ''type'') (\<lambda>t. bindE (get_c_type t type_mappings) (\<lambda>c_type.
     bindE (item_eq msg ''ros_msg'' ''std_msgs/msg/Int32MultiArray'') (\<lambda>multi.
     if multi \<and> c_type = PStr ''uint8_t'' then
       wr [T ''            '', T write_expr, T '' = static_cast<int32_t>(pkt.'',
           item_str field ''proto'', T '');\<newline>'']
     else
       wr [T ''            '', T write_expr, T '' = pkt.'', item_str field ''proto'', T '';\<newline>'']))))\<close>

definition log_parts :: "pyval \<Rightarrow> (string \<times> string) res" where
  \<comment> \<open>the \<open>printf\<close> conversion and the argument of one field\<close>
  \<open>log_parts field =
     bindE (item_str field ''proto'') (\<lambda>field_name.
     bindE (by_kind field (''%.3f'', ''double'') (''%u'', ''unsigned int'') (''%d'', ''int'')) (\<lambda>(conv, c).
     Inr (field_name @ ''='' @ conv, ''static_cast<'' @ c @ ''>(pkt.'' @ field_name @ '')'')))\<close>

definition write_guarded_rx_debug_log :: "pyval \<Rightarrow> string list \<Rightarrow> string list \<Rightarrow> seg list res" where
  \<open>write_guarded_rx_debug_log msg_name fmt_parts arg_parts = parts
     [wr [T ''            if constexpr (config::is_debug_log_enabled(PACKET_ID_'',
          upper_of msg_name, T '')) {\<newline>''],
      (if fmt_parts \<noteq> [] then
         wr [T ''                RCLCPP_DEBUG(logger, "RX '', V msg_name, T '': '',
             T (join '', '' fmt_parts), T ''", '', T (join '', '' arg_parts), T '');\<newline>'']
       else wr [T ''                RCLCPP_DEBUG(logger, "RX '', V msg_name, T ''");\<newline>'']),
      wr [T ''            }\<newline>'']]\<close>

definition size_check :: "string \<times> nat \<Rightarrow> seg list res" where
  \<open>size_check req = (case req of (expr, required_size) \<Rightarrow>
     wr [T ''            if (!detail::ensure_size('', T expr, T '', '', T (nat_str required_size),
         T '')) break;\<newline>''])\<close>

definition dispatch_case :: "pyval \<Rightarrow> pyval \<Rightarrow> seg list res" where
  \<open>dispatch_case type_mappings msg = whenE (publishes msg) (parts
     [wr [T ''        case PACKET_ID_'', item_upper msg ''name'', T '': {\<newline>''],
      wr [T ''            if (data.size() != sizeof(Packet_'', item_str msg ''name'',
          T '')) break;\<newline>''],
      wr [T ''            Packet_'', item_str msg ''name'', T '' pkt;\<newline>''],
      wr [T ''            std::memcpy(&pkt, data.data(), sizeof(pkt));\<newline>''],
      with_ros_type msg (\<lambda>pkg sub typ.
        wr [T ''            auto msg = '', T pkg, T ''::'', T sub, T ''::'', T typ, T ''();\<newline>'']),
      bindE (bindE (item_list msg ''fields'') (field_paths False)) (\<lambda>(field_writes, reqs). parts
        [each size_check (sorted_requirements reqs),
         each (write_field msg type_mappings) field_writes]),
      bindE (bindE (item_list msg ''fields'') (mapE log_parts)) (\<lambda>ps.
        bindE (py_item msg ''name'') (\<lambda>name.
        write_guarded_rx_debug_log name (map fst ps) (map snd ps))),
      wr [T ''            if (pubs.pub_'', item_str msg ''name'', T '') {\<newline>''],
      wr [T ''                pubs.pub_'', item_str msg ''name'', T ''->publish(msg);\<newline>''],
      wr [T ''            }\<newline>''],
      wr [T ''            break;\<newline>''],
      wr [T ''        }\<newline>'']])\<close>

definition bindings_dispatch :: "pyval list \<Rightarrow> pyval \<Rightarrow> seg list res" where
  \<open>bindings_dispatch messages type_mappings = parts
     [wr [T ''inline void dispatch_packet(ProtocolPublishers& pubs, uint8_t id, '',
          T ''const std::vector<uint8_t>& data, const rclcpp::Logger& logger) {\<newline>''],
      wr [T ''    (void)pubs; (void)logger;\<newline>''],
      wr [T ''    switch(id) {\<newline>''],
      each (dispatch_case type_mappings) messages,
      wr [T ''        default:\<newline>''],
      wr [T ''            break;\<newline>''],
      wr [T ''    }\<newline>''],
      wr [T ''}\<newline>''],
      wr [T ''}\<newline>''],
      wr [T ''}\<newline>'']]\<close>

section \<open>The file\<close>

definition ros_bindings_segs :: "pyval list \<Rightarrow> pyval \<Rightarrow> pyval \<Rightarrow> seg list res" where
  "ros_bindings_segs messages type_mappings config =
     bindE (py_get config ''qos_depth'' (PInt 10)) (\<lambda>qos_depth.
     bindE (binding_includes messages) (\<lambda>includes.
     parts
       [bindings_prelude,
        each bindings_include includes,
        bindings_detail,
        bindings_describe messages,
        bindings_register messages type_mappings qos_depth,
        bindings_publishers messages qos_depth,
        bindings_dispatch messages type_mappings]))"

definition generate_ros_bindings ::
  "pyval list \<Rightarrow> pyval \<Rightarrow> pyval \<Rightarrow> string \<Rightarrow> fs \<Rightarrow> fs res" where
  "generate_ros_bindings messages type_mappings config output_path fs =
     bindE (ros_bindings_segs messages type_mappings config) (\<lambda>segs.
     Inr (write_segments fs output_path [] segs))"

end
