(* ===== verification/GenDoc.thy ===== *)
theory GenDoc
  imports GenSource Validate
begin

text \<open>
  \<open>generate_mcu_doc\<close>: the protocol document for firmware developers. The field table is kept
  as data (rows with offset and size) before it is rendered, so that its offsets can be
  compared with the payload sizes the code uses.
\<close>

section \<open>The field table\<close>

definition CHECKSUM_LABELS :: "(string \<times> string) list" where
  "CHECKSUM_LABELS =
     [(''NONE'', utf8 [0x65E0, 0x6821, 0x9A8C] @ '' ('' @ utf8 [0x5360, 0x4F4D] @ '')''),
      (''SUM8'', ''SUM8''), (''XOR8'', ''XOR8''), (''CRC8'', ''CRC8'')]"

definition label_of :: "(string \<times> string) list \<Rightarrow> string \<Rightarrow> string" where    \<comment> \<open>\<open>d.get(k, k)\<close>\<close>
  "label_of d k = (case map_of d k of None \<Rightarrow> k | Some v \<Rightarrow> v)"

record row =
  row_offset :: int
  row_proto :: string
  row_type :: string
  row_size :: int

definition field_row :: "pyval \<Rightarrow> pyval \<Rightarrow> row list \<times> int \<Rightarrow> (row list \<times> int) res" where
  "field_row type_mappings field acc = (case acc of (rows, offset) \<Rightarrow>
     bindE (py_item field ''type'') (\<lambda>t.
     bindE (get_c_type t type_mappings) (\<lambda>c_type.
     bindE (c_type_size c_type) (\<lambda>size.
     bindE (item_str field ''proto'') (\<lambda>proto.
     Inr (rows @ [\<lparr>row_offset = offset, row_proto = proto, row_type = py_str c_type,
                   row_size = size\<rparr>], offset + size))))))"

definition table_rows :: "pyval \<Rightarrow> pyval list \<Rightarrow> (row list \<times> int) res" where
  "table_rows type_mappings flds = foldE (field_row type_mappings) flds ([], 0)"

definition render_row :: "row \<Rightarrow> string" where
  "render_row r =
     ''| '' @ int_str (row_offset r) @ '' | `'' @ row_proto r @ ''` | `'' @ row_type r @ ''` | '' @
     int_str (row_size r) @ '' |''"

definition seq_row :: "int \<Rightarrow> string" where
  "seq_row offset = ''| '' @ int_str offset @ '' | '' @
     ''*(reliable seq'' @ utf8 [0xFF0C, 0x6846, 0x67B6, 0x9644, 0x52A0, 0xFF0C, 0x975E, 0x4E1A, 0x52A1, 0x7ED3, 0x6784, 0x4F53, 0x5B57, 0x6BB5] @ '')* | `uint8_t` | 1 |''"

definition checksum_row :: "int \<Rightarrow> string \<Rightarrow> string" where
  "checksum_row offset label = ''| **'' @ int_str offset @ ''** | *('' @ label @ '')* | `uint8_t` | 1 |''"

definition field_table :: "pyval list \<Rightarrow> pyval \<Rightarrow> string \<Rightarrow> bool \<Rightarrow> string res" where
  "field_table flds type_mappings checksum_algo include_reliable_seq =
     bindE (table_rows type_mappings flds) (\<lambda>(rows, offset).
     let last_offset = (if include_reliable_seq then offset + 1 else offset) in
     Inr (join ''\<newline>''
       ([''| '' @ utf8 [0x5B57, 0x8282, 0x504F, 0x79FB] @ '' | '' @ utf8 [0x5B57, 0x6BB5, 0x540D] @ '' | C '' @ utf8 [0x7C7B, 0x578B] @ '' | '' @ utf8 [0x5B57, 0x8282, 0x6570] @ '' |'',
         ''| :------: | :----- | :----- | :----: |''] @
        map render_row rows @
        (if include_reliable_seq then [seq_row offset] else []) @
        [checksum_row last_offset (label_of CHECKSUM_LABELS checksum_algo)])))"

definition field_table_of :: "pyval \<Rightarrow> pyval \<Rightarrow> string \<Rightarrow> pyval \<Rightarrow> piece" where
  "field_table_of msg type_mappings checksum reliable =
     bindE (item_list msg ''fields'') (\<lambda>flds. field_table flds type_mappings checksum (truthy reliable))"

section \<open>The document\<close>

definition CHECKSUM_DESC :: "(string \<times> string) list" where
  "CHECKSUM_DESC =
     [(''NONE'', utf8 [0x65E0, 0x6821, 0x9A8C, 0xFF08, 0x5360, 0x4F4D, 0x5B57, 0x8282] @ '' `0x00`'' @ utf8 [0xFF09]),
      (''SUM8'', ''SUM8 '' @ utf8 [0x7D2F, 0x52A0, 0x548C, 0xFF0C, 0x8986, 0x76D6] @ '' ID + Len + Data''),
      (''XOR8'', ''XOR8 '' @ utf8 [0x5F02, 0x6216, 0xFF0C, 0x8986, 0x76D6] @ '' ID + Len + Data''),
      (''CRC8'', ''CRC8'' @ utf8 [0xFF0C, 0x8986, 0x76D6] @ '' ID + Len + Data'' @ utf8 [0xFF0C, 0x591A, 0x9879, 0x5F0F] @ '' `0x31`'')]"

definition doc_message_meta :: "pyval \<Rightarrow> string \<Rightarrow> seg list res" where
  \<open>doc_message_meta msg topic_key = parts
     [bindE (py_get msg topic_key PNone) (\<lambda>topic.
        whenE (Inr (truthy topic))
          (wr [T (''- **ROS '' @ utf8 [0x8BDD, 0x9898] @ ''**'' @ utf8 [0xFF1A] @ ''`''), V topic, T ''`\<newline>''])),
      whenE (get_true msg ''ros_msg'' PNone)
        (wr [T (''- **ROS '' @ utf8 [0x6D88, 0x606F, 0x7C7B, 0x578B] @ ''**'' @ utf8 [0xFF1A] @ ''`''), item_str msg ''ros_msg'', T ''`\<newline>''])]\<close>

definition doc_intro :: "seg list res" where
  \<open>doc_intro = parts
     [wr [T (''# MCU '' @ utf8 [0x2194] @ '' ROS '' @ utf8 [0x901A, 0x4FE1, 0x534F, 0x8BAE, 0x6587, 0x6863] @ ''\<newline>''),
          T ''\<newline>''],
      wr [T ''> **Auto-generated** '', T (utf8 [0x2014]), T '' '', T (utf8 [0x7531]),
          T '' `scripts/codegen.py` '', T (utf8 [0x6839, 0x636E]),
          T '' `config/protocol.yaml` '',
          T (utf8 [0x751F, 0x6210, 0xFF0C, 0x8BF7, 0x52FF, 0x624B, 0x52A8, 0x4FEE, 0x6539]),
          T (utf8 [0x3002]), T ''\<newline>'', T ''\<newline>''],
      wr [T ''---\<newline>'', T ''\<newline>'']]\<close>

definition doc_params ::
  "pyval \<Rightarrow> pyval \<Rightarrow> pyval \<Rightarrow> string \<Rightarrow> pyval \<Rightarrow> nat \<Rightarrow> pyval \<Rightarrow> pyval \<Rightarrow> pyval \<Rightarrow> pyval \<Rightarrow> pyval \<Rightarrow> seg list res" where
  \<open>doc_params baudrate head1 head2 checksum require_handshake protocol_hash strict_heartbeat
     heartbeat_interval_ms heartbeat_timeout_ms reliable_retry_interval_ms reliable_max_retries = parts
     [wr [T (''## '' @ utf8 [0x5168, 0x5C40, 0x53C2, 0x6570] @ ''\<newline>''), T ''\<newline>''],
      wr [T (''| '' @ utf8 [0x53C2, 0x6570] @ '' | '' @ utf8 [0x503C] @ '' |\<newline>'')],
      wr [T ''| :--- | :--- |\<newline>''],
      wr [T (''| '' @ utf8 [0x6CE2, 0x7279, 0x7387] @ '' | `''), V baudrate, T ''` |\<newline>''],
      wr [T (''| '' @ utf8 [0x5E27, 0x5934, 0x5B57, 0x8282] @ '' 1 | `''), fmt_04x head1,
          T ''` |\<newline>''],
      wr [T (''| '' @ utf8 [0x5E27, 0x5934, 0x5B57, 0x8282] @ '' 2 | `''), fmt_04x head2,
          T ''` |\<newline>''],
      wr [T (''| '' @ utf8 [0x6821, 0x9A8C, 0x7B97, 0x6CD5] @ '' | `''), T checksum,
          T ''` |\<newline>''],
      wr [T (''| '' @ utf8 [0x5F3A, 0x5236, 0x63E1, 0x624B] @ '' | `''),
          T (if truthy require_handshake then utf8 [0x662F] else utf8 [0x5426]),
          T ''` |\<newline>''],
      wr [T (''| '' @ utf8 [0x534F, 0x8BAE, 0x54C8, 0x5E0C, 0xFF08, 0x63E1, 0x624B, 0x7528, 0xFF09] @ ''| `0x''),
          T (hex_upper 8 protocol_hash), T ''` |\<newline>''],
      wr [T (''| '' @ utf8 [0x4E25, 0x683C, 0x5FC3, 0x8DF3, 0x6A21, 0x5F0F] @ '' | `''),
          T (if truthy strict_heartbeat then utf8 [0x662F] else utf8 [0x5426]),
          T ''` |\<newline>''],
      wr [T (''| '' @ utf8 [0x5FC3, 0x8DF3, 0x53D1, 0x9001, 0x95F4, 0x9694, 0xFF08] @ ''ROS '' @ utf8 [0x7AEF, 0x53D1, 0x8D77, 0xFF09] @ ''| `''),
          V heartbeat_interval_ms, T '' ms` |\<newline>''],
      wr [T (''| '' @ utf8 [0x5FC3, 0x8DF3, 0x8D85, 0x65F6, 0x65F6, 0x95F4] @ '' | `''),
          V heartbeat_timeout_ms, T '' ms` |\<newline>''],
      wr [T (''| '' @ utf8 [0x53EF, 0x9760, 0x4F20, 0x8F93, 0x91CD, 0x8BD5, 0x95F4, 0x9694] @ '' | `''),
          V reliable_retry_interval_ms, T '' ms` |\<newline>''],
      wr [T (''| '' @ utf8 [0x53EF, 0x9760, 0x4F20, 0x8F93, 0x91CD, 0x8BD5, 0x544A, 0x8B66, 0x9608, 0x503C] @ '' | '' @ utf8 [0x6BCF] @ '' `''),
          V reliable_max_retries,
          T ('' '' @ utf8 [0x6B21] @ ''`'' @ utf8 [0x544A, 0x8B66, 0x4E00, 0x6B21, 0xFF0C, 0x6536, 0x5230] @ '' ACK '' @ utf8 [0x524D, 0x6301, 0x7EED, 0x91CD, 0x8BD5] @ '' |\<newline>'')],
      wr [T ''\<newline>'', T ''---\<newline>'', T ''\<newline>'']]\<close>

definition doc_frame :: "pyval \<Rightarrow> pyval \<Rightarrow> string \<Rightarrow> seg list res" where
  \<open>doc_frame head1 head2 checksum = parts
     [wr [T (''## '' @ utf8 [0x5E27, 0x683C, 0x5F0F] @ ''\<newline>''), T ''\<newline>''],
      wr [T (utf8 [0x6BCF, 0x5E27, 0x7ED3, 0x6784, 0x5982, 0x4E0B, 0xFF08, 0x5C0F, 0x7AEF, 0x5E8F, 0xFF09, 0xFF1A] @ ''\<newline>''),
          T ''\<newline>''],
      wr [T (''| '' @ utf8 [0x5B57, 0x8282, 0x4F4D, 0x7F6E] @ '' | '' @ utf8 [0x5B57, 0x6BB5] @ '' | '' @ utf8 [0x8BF4, 0x660E] @ '' |\<newline>'')],
      wr [T ''| :------: | :--- | :--- |\<newline>''],
      wr [T (''| 0 | Header1 | '' @ utf8 [0x56FA, 0x5B9A] @ '' `''), fmt_04x head1,
          T ''` |\<newline>''],
      wr [T (''| 1 | Header2 | '' @ utf8 [0x56FA, 0x5B9A] @ '' `''), fmt_04x head2,
          T ''` |\<newline>''],
      wr [T (''| 2 | ID | '' @ utf8 [0x6D88, 0x606F] @ '' ID'' @ utf8 [0xFF0C, 0x89C1, 0x4E0B, 0x8868] @ '' |\<newline>'')],
      wr [T (''| 3 | Len | '' @ utf8 [0x6570, 0x636E, 0x6BB5, 0x5B57, 0x8282, 0x6570] @ '' |\<newline>'')],
      wr [T (''| 4 '' @ utf8 [0x2026] @ '' 4+Len-1 | Data | '' @ utf8 [0x5404, 0x5B57, 0x6BB5, 0x6309, 0x7ED3, 0x6784, 0x4F53, 0x5185, 0x5B58, 0x5E03, 0x5C40, 0x6392, 0x5217] @ '' |\<newline>'')],
      wr [T ''| 4+Len | Checksum | '', T (label_of CHECKSUM_DESC checksum), T '' |\<newline>''],
      wr [T ''\<newline>'', T ''---\<newline>'', T ''\<newline>'']]\<close>

definition doc_integration :: "seg list res" where
  \<open>doc_integration = parts
     [wr [T (''## MCU '' @ utf8 [0x96C6, 0x6210, 0x6CE8, 0x610F, 0x4E8B, 0x9879] @ ''\<newline>''),
          T ''\<newline>''],
      wr [T ''- '',
          T (utf8 [0x7CFB, 0x7EDF, 0x6D88, 0x606F, 0x65E0, 0x9700, 0x7F16, 0x5199, 0x4EE3]),
          T (utf8 [0x7801, 0xFF1A, 0x5FC3, 0x8DF3, 0x56DE, 0x5305, 0x3001, 0x63E1, 0x624B]),
          T (utf8 [0x56DE, 0x5E94, 0x3001, 0x53EF, 0x9760, 0x6D88, 0x606F]), T '' ACK '',
          T (utf8 [0x5747, 0x7531, 0x751F, 0x6210, 0x7684, 0x534F, 0x8BAE, 0x72B6, 0x6001]),
          T (utf8 [0x673A, 0x81EA, 0x52A8, 0x5B8C, 0x6210, 0x3002]), T ''\<newline>''],
      wr [T ''- '', T (utf8 [0x534F, 0x8BAE, 0x5C42, 0x4F1A, 0x5728]),
          T '' `protocol_fsm_feed()` '',
          T (utf8 [0x7684, 0x8C03, 0x7528, 0x4E0A, 0x4E0B, 0x6587, 0x4E2D, 0x53D1, 0x9001]),
          T (utf8 [0x56DE, 0x5305, 0x3002, 0x82E5]), T '' `protocol_fsm_feed()` '',
          T (utf8 [0x5728, 0x4E32, 0x53E3, 0x4E2D, 0x65AD, 0x4E2D, 0x8C03, 0x7528, 0xFF0C]),
          T (utf8 [0x800C, 0x4E1A, 0x52A1, 0x4EE3, 0x7801, 0x5728, 0x4E3B, 0x5FAA, 0x73AF]),
          T (utf8 [0x4E2D, 0x8C03, 0x7528]), T '' `send_xxx()`'', T (utf8 [0xFF0C]),
          T ''`serial_write()` '',
          T (utf8 [0x5FC5, 0x987B, 0x81EA, 0x884C, 0x4FDD, 0x8BC1, 0x53EF, 0x91CD, 0x5165]),
          T ''/'',
          T (utf8 [0x5E76, 0x53D1, 0x5B89, 0x5168, 0xFF08, 0x5982, 0x5173, 0x4E2D, 0x65AD]),
          T (utf8 [0x4FDD, 0x62A4, 0x6216, 0x53D1, 0x9001, 0x961F, 0x5217, 0xFF09, 0x3002]),
          T ''\<newline>''],
      wr [T ''- '', T (utf8 [0x5FC3, 0x8DF3, 0x7531]), T '' ROS '',
          T (utf8 [0x7AEF, 0x5468, 0x671F, 0x53D1, 0x8D77, 0x5E76, 0x5728, 0x8D85, 0x65F6]),
          T (utf8 [0x7A97, 0x53E3, 0x5185, 0x91CD, 0x53D1, 0x540C, 0x4E00]), T '' `count`'',
          T (utf8 [0xFF0C]), T ''MCU '',
          T (utf8 [0x4FA7, 0x5BF9, 0x91CD, 0x590D, 0x5FC3, 0x8DF3, 0x539F, 0x6837, 0x56DE]),
          T (utf8 [0x5305, 0x5373, 0x53EF, 0xFF08, 0x81EA, 0x52A8, 0x5B8C, 0x6210, 0xFF09]),
          T (utf8 [0x3002]), T ''\<newline>''],
      wr [T ''\<newline>'', T ''---\<newline>'', T ''\<newline>'']]\<close>

definition doc_rx_message :: "pyval \<Rightarrow> string \<Rightarrow> pyval \<Rightarrow> pyval \<Rightarrow> seg list res" where
  \<open>doc_rx_message type_mappings checksum require_handshake msg =
     bindE (message_payload_size msg type_mappings) (\<lambda>total_bytes. parts
     [wr [T ''### `'', item_str msg ''name'', T (''` '' @ utf8 [0x2014] @ '' ID `''),
          bindE (py_item msg ''id'') fmt_04x, T ''`\<newline>'', T ''\<newline>''],
      doc_message_meta msg ''pub_topic'',
      wr [T (''- **'' @ utf8 [0x6570, 0x636E, 0x6BB5, 0x5B57, 0x8282, 0x6570, 0xFF08] @ ''Len'' @ utf8 [0xFF09] @ ''**'' @ utf8 [0xFF1A] @ ''`''),
          T (int_str total_bytes), T ''`\<newline>''],
      whenE (get_true msg ''notes'' PNone)
        (
         wr [T (''- **'' @ utf8 [0x6CE8, 0x610F, 0x4E8B, 0x9879] @ ''**'' @ utf8 [0xFF1A]),
             item_str msg ''notes'', T ''\<newline>'']),
      whenE (andE (item_eq msg ''name'' ''Handshake'') (Inr (truthy require_handshake)))
        (
         wr [T ''- **'', T (utf8 [0x5185, 0x7F6E, 0x884C, 0x4E3A]), T ''**'',
             T (utf8 [0xFF1A, 0x534F, 0x8BAE, 0x5C42, 0x6536, 0x5230, 0x63E1, 0x624B, 0x5305]),
             T (utf8 [0x540E, 0x81EA, 0x52A8, 0x56DE, 0x4F20, 0x672C, 0x673A]),
             T '' `PROTOCOL_HASH`'', T (utf8 [0xFF0C, 0x662F, 0x5426, 0x5339, 0x914D, 0x7531]),
             T '' ROS '', T (utf8 [0x7AEF, 0x6821, 0x9A8C, 0xFF0C]), T ''MCU '',
             T (utf8 [0x4FA7, 0x65E0, 0x9700, 0x7F16, 0x5199, 0x4EE3, 0x7801, 0x3002]),
             T ''\<newline>'']),
      wr [T ''\<newline>''],
      wr [field_table_of msg type_mappings checksum (PBool False)],
      wr [T ''\<newline>'', T ''\<newline>'']])\<close>

definition doc_tx_message :: "pyval \<Rightarrow> string \<Rightarrow> pyval \<Rightarrow> pyval \<Rightarrow> pyval \<Rightarrow> seg list res" where
  \<open>doc_tx_message type_mappings checksum require_handshake heartbeat_interval_ms msg =
     bindE (py_get msg ''reliable'' (PBool False)) (\<lambda>reliable.
     bindE (message_wire_payload_size msg type_mappings) (\<lambda>total_bytes. parts
     [wr [T ''### `'', item_str msg ''name'', T (''` '' @ utf8 [0x2014] @ '' ID `''),
          bindE (py_item msg ''id'') fmt_04x, T ''`\<newline>'', T ''\<newline>''],
      doc_message_meta msg ''sub_topic'',
      wr [T (''- **'' @ utf8 [0x6570, 0x636E, 0x6BB5, 0x5B57, 0x8282, 0x6570, 0xFF08] @ ''Len'' @ utf8 [0xFF09] @ ''**'' @ utf8 [0xFF1A] @ ''`''),
          T (int_str total_bytes), T ''`\<newline>''],
      whenE (get_true msg ''notes'' PNone)
        (
         wr [T (''- **'' @ utf8 [0x6CE8, 0x610F, 0x4E8B, 0x9879] @ ''**'' @ utf8 [0xFF1A]),
             item_str msg ''notes'', T ''\<newline>'']),
      whenE (andE (item_eq msg ''name'' ''Handshake'') (Inr (truthy require_handshake)))
        (
         wr [T ''- **'', T (utf8 [0x5185, 0x7F6E, 0x884C, 0x4E3A]), T ''**'',
             T (utf8 [0xFF1A, 0x534F, 0x8BAE, 0x5C42, 0x6536, 0x5230, 0x63E1, 0x624B, 0x5305]),
             T (utf8 [0x540E, 0x81EA, 0x52A8, 0x56DE, 0x4F20, 0x672C, 0x673A]),
             T '' `PROTOCOL_HASH`'', T (utf8 [0xFF0C, 0x662F, 0x5426, 0x5339, 0x914D, 0x7531]),
             T '' ROS '', T (utf8 [0x7AEF, 0x6821, 0x9A8C, 0xFF0C]), T ''MCU '',
             T (utf8 [0x4FA7, 0x65E0, 0x9700, 0x7F16, 0x5199, 0x4EE3, 0x7801, 0x3002]),
             T ''\<newline>'']),
      whenE (item_eq msg ''name'' ''Heartbeat'')
        (
         wr [T (''- **'' @ utf8 [0x5185, 0x7F6E, 0x884C, 0x4E3A] @ ''**'' @ utf8 [0xFF1A] @ ''ROS '' @ utf8 [0x7AEF, 0x6BCF] @ '' `''),
             V heartbeat_interval_ms, T '' ms` '',
             T (utf8 [0x53D1, 0x8D77, 0x4E00, 0x6B21, 0x5FC3, 0x8DF3, 0xFF0C, 0x534F, 0x8BAE]),
             T (utf8 [0x5C42, 0x81EA, 0x52A8, 0x6309, 0x539F, 0x6837, 0x56DE, 0x4F20, 0x540C]),
             T (utf8 [0x4E00, 0x4E2A]), T '' `count` '', T (utf8 [0x4F5C, 0x4E3A]), T '' ACK'',
             T (utf8 [0xFF0C]), T ''MCU '',
             T (utf8 [0x4FA7, 0x65E0, 0x9700, 0x7F16, 0x5199, 0x4EE3, 0x7801, 0x3002]),
             T ''\<newline>'']),
      whenE (Inr (truthy reliable))
        (parts
         [wr [T ''- **'', T (utf8 [0x53EF, 0x9760, 0x6295, 0x9012]), T ''**'',
              T (utf8 [0xFF1A, 0x8BE5, 0x6D88, 0x606F, 0x542F, 0x7528]), T '' ACK/'',
              T (utf8 [0x91CD, 0x4F20, 0x3002]), T ''ROS '',
              T (utf8 [0x7AEF, 0x4F1A, 0x5728, 0x4E1A, 0x52A1, 0x7ED3, 0x6784, 0x4F53]),
              T '' payload '', T (utf8 [0x540E, 0x900F, 0x660E, 0x8FFD, 0x52A0]), T '' 1 '',
              T (utf8 [0x5B57, 0x8282]), T '' reliable seq'',
              T (utf8 [0xFF1B, 0x8BE5, 0x5B57, 0x8282, 0x53C2, 0x4E0E]), T '' `Len` '',
              T (utf8 [0x548C, 0x6821, 0x9A8C, 0xFF0C, 0x4F46, 0x4E0D, 0x5C5E, 0x4E8E]),
              T '' `Packet_xxx` '',
              T (utf8 [0x4E1A, 0x52A1, 0x7ED3, 0x6784, 0x4F53, 0x5B57, 0x6BB5, 0x3002, 0x751F]),
              T (utf8 [0x6210, 0x7684, 0x5206, 0x53D1, 0x903B, 0x8F91, 0x4F1A, 0x5148, 0x8C03]),
              T (utf8 [0x7528]), T '' `on_receive_xxx()`'',
              T (utf8 [0xFF0C, 0x56DE, 0x8C03, 0x8FD4, 0x56DE, 0x540E, 0x518D, 0x81EA, 0x52A8]),
              T '' `send_Ack()`'', T (utf8 [0x3002]), T ''\<newline>''],
          wr [T ''- **'', T (utf8 [0x6295, 0x9012, 0x8BED, 0x4E49]), T ''**'', T (utf8 [0xFF1A]),
              T ''ROS '',
              T (utf8 [0x8282, 0x70B9, 0x8FDB, 0x7A0B, 0x5B58, 0x6D3B, 0x671F, 0x95F4, 0x7684]),
              T (utf8 [0x94FE, 0x8DEF, 0x7EA7]), T '' at-least-once'', T (utf8 [0x3002, 0x540C]),
              T '' ID '', T (utf8 [0x6D88, 0x606F, 0x6309]), T '' FIFO '',
              T (utf8 [0x53D1, 0x9001, 0xFF0C]), T ''ACK '',
              T (utf8 [0x4E22, 0x5931, 0x6216, 0x4E32, 0x53E3, 0x65AD, 0x8FDE, 0x91CD, 0x8FDE]),
              T (utf8 [0x65F6]), T '' ROS '',
              T (utf8 [0x7AEF, 0x4F1A, 0x6301, 0x7EED, 0x91CD, 0x4F20, 0x5230, 0x6536, 0x5230]),
              T (utf8 [0x5339, 0x914D]), T '' ACK'',
              T (utf8 [0xFF1B, 0x8282, 0x70B9, 0x8FDB, 0x7A0B, 0x5D29, 0x6E83, 0x540E, 0x7684]),
              T (utf8 [0x6062, 0x590D, 0x4E0D, 0x5728, 0x4FDD, 0x8BC1, 0x8303, 0x56F4, 0x5185]),
              T (utf8 [0x3002]), T ''`on_receive_xxx()` '',
              T (utf8 [0x53EF, 0x80FD, 0x88AB, 0x91CD, 0x590D, 0x8C03, 0x7528, 0xFF0C, 0x56DE]),
              T (utf8 [0x8C03, 0x5B9E, 0x73B0, 0x9700, 0x4FDD, 0x8BC1, 0x5E42, 0x7B49, 0x3002]),
              T ''\<newline>'']]),
      wr [T ''\<newline>''],
      wr [field_table_of msg type_mappings checksum reliable],
      wr [T ''\<newline>'', T ''\<newline>'']]))\<close>

definition doc_section :: "(pyval \<Rightarrow> seg list res) \<Rightarrow> pyval list \<Rightarrow> seg list res" where
  \<open>doc_section body msgs = (if msgs \<noteq> [] then each body msgs else
     wr [T (''_'' @ utf8 [0x65E0] @ ''_\<newline>''), T ''\<newline>''])\<close>

definition doc_filter :: "(pyval \<Rightarrow> bool) \<Rightarrow> pyval list \<Rightarrow> pyval list res" where
  \<comment> \<open>\<open>[m for m in messages if m['direction'] in (\<dots>)]\<close>\<close>
  "doc_filter p messages =
     bindE (mapE (\<lambda>m. bindE (py_item m ''direction'') (\<lambda>d. Inr (if p d then [m] else []))) messages)
       (\<lambda>mss. Inr (concat mss))"

definition mcu_doc_segs ::
  "pyval \<Rightarrow> pyval list \<Rightarrow> pyval \<Rightarrow> nat \<Rightarrow> pyval \<Rightarrow> seg list res" where
  \<open>mcu_doc_segs config messages type_mappings protocol_hash serial_params =
     bindE (py_item config ''head_byte_1'') (\<lambda>head1.
     bindE (py_item config ''head_byte_2'') (\<lambda>head2.
     bindE (py_get (if truthy serial_params then serial_params else PDict []) ''baudrate'' (PInt 115200))
       (\<lambda>baudrate.
     bindE (checksum_algo_of config) (\<lambda>checksum.
     bindE (py_get config ''require_handshake'' (PBool True)) (\<lambda>require_handshake.
     bindE (doc_filter receives messages) (\<lambda>rx_msgs.
     bindE (doc_filter sends messages) (\<lambda>tx_msgs.
     bindE (py_get config ''strict_heartbeat'' (PBool True)) (\<lambda>strict_heartbeat.
     bindE (py_get config ''heartbeat_interval_ms'' (PInt 1000)) (\<lambda>heartbeat_interval_ms.
     bindE (py_get config ''heartbeat_timeout_ms'' (PInt 3000)) (\<lambda>heartbeat_timeout_ms.
     bindE (py_get config ''reliable_retry_interval_ms'' (PInt 100)) (\<lambda>reliable_retry_interval_ms.
     bindE (py_get config ''reliable_max_retries'' (PInt 3)) (\<lambda>reliable_max_retries.
     parts
       [doc_intro,
        doc_params baudrate head1 head2 checksum require_handshake protocol_hash strict_heartbeat
          heartbeat_interval_ms heartbeat_timeout_ms reliable_retry_interval_ms
          reliable_max_retries,
        doc_frame head1 head2 checksum,
        doc_integration,
     wr [T (''## '' @ utf8 [0x7535, 0x63A7] @ '' '' @ utf8 [0x2192] @ '' ROS'' @ utf8 [0xFF08, 0x7535, 0x63A7, 0x4E3B, 0x52A8, 0x53D1, 0x9001, 0xFF09] @ ''\<newline>''),
         T ''\<newline>''],
        doc_section (doc_rx_message type_mappings checksum require_handshake) rx_msgs,
        wr [T ''---\<newline>'', T ''\<newline>''],
     wr [T (''## ROS '' @ utf8 [0x2192] @ '' '' @ utf8 [0x7535, 0x63A7, 0xFF08, 0x7535, 0x63A7, 0x88AB, 0x52A8, 0x63A5, 0x6536, 0xFF09] @ ''\<newline>''),
         T ''\<newline>''],
        doc_section (doc_tx_message type_mappings checksum require_handshake heartbeat_interval_ms)
          tx_msgs,
        parts
     [wr [T ''---\<newline>'', T ''\<newline>''],
      wr [T (''*'' @ utf8 [0x6587, 0x6863, 0x7531, 0x6784, 0x5EFA, 0x7CFB, 0x7EDF, 0x81EA, 0x52A8, 0x751F, 0x6210, 0xFF0C, 0x7248, 0x672C, 0x4EE5, 0x534F, 0x8BAE, 0x54C8, 0x5E0C, 0x4E3A, 0x51C6, 0x3002] @ ''*\<newline>'')]]]))))))))))))\<close>

definition generate_mcu_doc ::
  "pyval \<Rightarrow> pyval list \<Rightarrow> pyval \<Rightarrow> nat \<Rightarrow> string \<Rightarrow> pyval \<Rightarrow> fs \<Rightarrow> fs res" where
  "generate_mcu_doc config messages type_mappings protocol_hash output_path serial_params fs =
     bindE (mcu_doc_segs config messages type_mappings protocol_hash serial_params) (\<lambda>segs.
     Inr (write_segments fs output_path [] segs))"

section \<open>The table agrees with the sizes\<close>

text \<open>Rows follow each other without gaps, starting at \<open>offset\<close> and ending at \<open>last_offset\<close>.\<close>

fun contiguous :: "int \<Rightarrow> row list \<Rightarrow> int \<Rightarrow> bool" where
  "contiguous offset [] last_offset \<longleftrightarrow> offset = last_offset"
| "contiguous offset (r # rs) last_offset \<longleftrightarrow>
     row_offset r = offset \<and> contiguous (offset + row_size r) rs last_offset"

lemma contiguous_snoc:
  "contiguous a rs b \<Longrightarrow> row_offset r = b \<Longrightarrow> contiguous a (rs @ [r]) (b + row_size r)"
  by (induction a rs b rule: contiguous.induct) auto

lemma field_row_size:
  assumes "field_row tm f (rows, offset) = Inr (rows', offset')"
  obtains n r where "field_size tm f = Inr n" and "rows' = rows @ [r]" and "row_offset r = offset"
    and "row_size r = n" and "offset' = offset + n"
  using assms by (auto simp: field_row_def field_size_def bindE_eq_Inr)

lemma table_fold:
  "foldE (field_row tm) flds (rows, offset) = Inr (rows', offset') \<Longrightarrow> contiguous a rows offset \<Longrightarrow>
     \<exists>ns. mapE (field_size tm) flds = Inr ns \<and> offset' = offset + sum_list ns \<and>
          contiguous a rows' offset' \<and> map row_size rows' = map row_size rows @ ns"
proof (induction flds arbitrary: rows offset)
  case (Cons f flds)
  from Cons.prems(1) obtain rows1 offset1 where one: "field_row tm f (rows, offset) = Inr (rows1, offset1)"
    and rest: "foldE (field_row tm) flds (rows1, offset1) = Inr (rows', offset')"
    by (auto simp: bindE_eq_Inr)
  from field_row_size [OF one] obtain n r where r: "field_size tm f = Inr n" "rows1 = rows @ [r]"
    "row_offset r = offset" "row_size r = n" "offset1 = offset + n" .
  then have "contiguous a rows1 offset1" using contiguous_snoc Cons.prems(2) by auto
  from Cons.IH [OF rest this] r show ?case by auto
qed simp

lemma table_rows_sizes:
  assumes "table_rows tm flds = Inr (rows, n)"
  shows "\<exists>ns. mapE (field_size tm) flds = Inr ns \<and> n = sum_list ns \<and> contiguous 0 rows n \<and>
    map row_size rows = ns"
  using table_fold [of tm flds "[]" 0 rows n 0] assms unfolding table_rows_def by auto

lemma table_rows_payload:
  assumes "py_item m ''fields'' = Inr (PList flds)" and "table_rows tm flds = Inr (rows, n)"
  shows "message_payload_size m tm = Inr n \<and> contiguous 0 rows n"
  using table_rows_sizes [OF assms(2)] assms(1) by (auto simp: message_payload_size_def)

end
