(* ===== verification/GenTotal.thy ===== *)
theory GenTotal
  imports McuFiles GenConfig GenBindings GenDoc
begin

text \<open>
  No generator raises on a validated configuration: every key a generator subscripts is
  there, every method it calls exists on the value, every path it analyses is accepted.
\<close>

section \<open>Pieces\<close>

lemma total_foldE: "(\<And>x s. x \<in> set xs \<Longrightarrow> total (f x s)) \<Longrightarrow> total (foldE f xs s)"
proof (induction xs arbitrary: s)
  case (Cons x xs)
  then show ?case by (auto intro!: total_bind)
qed simp

lemma total_fmt_int [simp]: "total (fmt_04x (PInt i))"
  by (simp add: fmt_04x_def)

lemma total_pieces:
  assumes "msg_shape ok tm m"
  shows "total (item_str m ''name'')" "total (item_upper m ''name'')" "total (item_str m ''id'')"
    "total (item_list m ''fields'')" "total (on_receive_name m)" "total (item_eq m ''name'' s)"
    "total (get_true m k c)" "total (py_get m k c)" "total (reliable_word m)"
    "total (debug_enabled m)" "total (item_direction p m)" "total (py_item m ''name'')"
    "total (bindE (py_item m ''id'') fmt_04x)" "total (py_item m ''direction'')"
proof -
  from assms obtain d s where m: "m = PDict d" "dict_find d (K ''direction'') = Some (PStr s)"
    "dict_find d (K ''id'') = Some (PInt (msg_id m))"
    "dict_find d (K ''name'') = Some (PStr (msg_name m))"
    by (rule msg_shapeE)
  show "total (item_direction p m)" "total (py_item m ''name'')" "total (py_item m ''direction'')"
    "total (bindE (py_item m ''id'') fmt_04x)"
    "total (reliable_word m)" "total (debug_enabled m)"
    using m by (simp_all add: item_direction_def reliable_word_def debug_enabled_def get_true_def)
qed (simp_all add: shape_name [OF assms] shape_upper [OF assms] shape_id [OF assms]
    shape_fields [OF assms] on_receive_name_def shape_name_eq [OF assms] shape_get [OF assms]
    shape_py_get [OF assms])

lemma total_field:
  assumes "field_shape ok tm f"
  shows "total (item_str f ''proto'')" "total (field_c_type f tm)" "total (py_item f ''proto'')"
    "total (by_kind f a b c)"
proof -
  from assms obtain d n t where "f = PDict d" "dict_find d (K ''proto'') = Some (PStr n)"
    "dict_find d (K ''type'') = Some t" "c_type_in ok tm t"
    unfolding field_shape_def by blast
  then show "total (item_str f ''proto'')" "total (field_c_type f tm)" "total (py_item f ''proto'')"
    "total (by_kind f a b c)"
    by (auto simp: item_str_def field_c_type_def c_type_in_def by_kind_def field_kind_def)
qed

lemma total_if [simp]: "(P \<Longrightarrow> total a) \<Longrightarrow> (\<not> P \<Longrightarrow> total b) \<Longrightarrow> total (if P then a else b)"
  by simp

section \<open>The C files and the configuration header\<close>

text \<open>What the generators read from a configuration.\<close>

definition config_shape :: "pyval \<Rightarrow> bool" where
  "config_shape config \<longleftrightarrow>
     (\<exists>cfg h1 h2 n. config = PDict cfg \<and>
        dict_find cfg (K ''head_byte_1'') = Some (PInt h1) \<and>
        dict_find cfg (K ''head_byte_2'') = Some (PInt h2) \<and>
        dict_find cfg (K ''buffer_size'') = Some (PInt n))"

lemma config_shape_of_ok:
  assumes "config_ok cfg params"
  shows "config_shape (PDict cfg)"
proof -
  from assms obtain h1 h2 where "dict_find cfg (K ''head_byte_1'') = Some (PInt h1)"
    "dict_find cfg (K ''head_byte_2'') = Some (PInt h2)"
    unfolding config_ok_def by blast
  moreover from assms obtain n where "dict_find cfg (K ''buffer_size'') = Some (PInt n)"
    unfolding config_ok_def by blast
  ultimately show ?thesis unfolding config_shape_def by blast
qed

lemma total_config:
  assumes "config_shape config"
  shows "total (py_get config k c)" "total (item_str config ''head_byte_1'')"
    "total (item_str config ''head_byte_2'')" "total (item_str config ''buffer_size'')"
    "total (checksum_algo_of config)"
    "\<exists>i. py_item config ''head_byte_1'' = Inr (PInt i)" "\<exists>i. py_item config ''head_byte_2'' = Inr (PInt i)"
proof -
  from assms obtain cfg h1 h2 n where "config = PDict cfg"
    "dict_find cfg (K ''head_byte_1'') = Some (PInt h1)"
    "dict_find cfg (K ''head_byte_2'') = Some (PInt h2)"
    "dict_find cfg (K ''buffer_size'') = Some (PInt n)"
    unfolding config_shape_def by blast
  then show "total (py_get config k c)" "total (item_str config ''head_byte_1'')"
    "total (item_str config ''head_byte_2'')" "total (item_str config ''buffer_size'')"
    "total (checksum_algo_of config)"
    "\<exists>i. py_item config ''head_byte_1'' = Inr (PInt i)" "\<exists>i. py_item config ''head_byte_2'' = Inr (PInt i)"
    by (simp_all add: item_str_def checksum_algo_of_def)
qed

lemma header_total:
  assumes "config_shape config" and "\<forall>m \<in> set messages. msg_shape ok tm m"
  shows "total (mcu_header_segs config messages tm hash)"
proof -
  have msg: "msg_shape ok tm m" if "m \<in> set messages" for m using assms(2) that by blast
  have flds: "total (bindE (item_list m ''fields'') (each (\<lambda>f.
      wr [T ''    '', field_c_type f tm, T '' '', item_str f ''proto'', T '';\<newline>''])))"
    if "m \<in> set messages" for m
    using shape_field [OF msg [OF that]]
    by (auto simp: shape_fields [OF msg [OF that]] total_field [of ok tm])
  have "total (header_options algo rh ivm sh hi ht ri mr hash)" for algo rh ivm sh hi ht ri mr
    by (simp add: header_options_def)
  moreover have "total (header_types config messages tm)"
    by (simp add: header_types_def total_config [OF assms(1)] total_pieces [OF msg] flds)
  moreover have "total (header_decls messages)"
    by (simp add: header_decls_def total_pieces [OF msg])
  ultimately show ?thesis
    unfolding mcu_header_segs_def by (simp add: total_bind total_config [OF assms(1)])
qed

lemma any_reliable_total_gen: "\<forall>m \<in> set messages. msg_shape ok tm m \<Longrightarrow> total (any_reliable messages)"
proof (induction messages)
  case (Cons m ms)
  then have "total (get_true m ''reliable'' (PBool False))" using shape_get by auto
  with Cons show ?case by (simp add: total_bind)
qed simp

lemma shape_sizes_gen:
  assumes "msg_shape hashable tm m"
  shows "total (message_payload_size m tm)" "total (message_wire_payload_size m tm)"
proof -
  have "total (field_size tm f)" if "f \<in> set (msg_fields m)" for f
    using shape_field [OF assms that]
    by (auto simp: field_shape_def field_size_def c_type_in_def c_type_size_def)
  moreover obtain d where "m = PDict d" "dict_find d (K ''fields'') = Some (PList (msg_fields m))"
    by (rule msg_shapeE [OF assms])
  ultimately show "total (message_payload_size m tm)"
    by (simp add: message_payload_size_def total_bind_Inr)
  then show "total (message_wire_payload_size m tm)"
    unfolding message_wire_payload_size_def
    using shape_py_get [OF assms] by (intro total_bind) auto
qed

lemma source_total:
  assumes "config_shape config" and "\<forall>m \<in> set messages. msg_shape hashable tm m" and "messages \<noteq> []"
  shows "total (mcu_source_segs config messages tm)"
proof -
  have msg: "msg_shape hashable tm m" if "m \<in> set messages" for m using assms(2) that by blast
  have sizes: "total (max_of (\<lambda>m. message_payload_size m tm) messages)"
    "total (max_of (\<lambda>m. message_wire_payload_size m tm) messages)"
    using max_of_total [OF assms(3)] shape_sizes_gen [OF msg] unfolding total_def [of "max_of _ _"] by auto
  have "total (source_preamble a b)" for a b by (simp add: source_preamble_def)
  moreover have "total (source_checksum algo)" for algo by (simp add: source_checksum_def total_ifE)
  moreover have "total (source_ack b)" for b by (simp add: source_ack_def total_whenE)
  moreover have "total (source_hooks messages)"
    by (simp add: source_hooks_def total_pieces [OF msg])
  moreover have "total (source_fsm expr rh messages)" for expr rh
    by (simp add: source_fsm_def total_pieces [OF msg] total_ifE total_whenE total_andE)
  moreover have "total (source_send messages)"
    by (simp add: source_send_def total_pieces [OF msg])
  ultimately show ?thesis
    unfolding mcu_source_segs_def
    by (simp add: total_bind total_config [OF assms(1)] sizes any_reliable_total_gen [OF assms(2)])
qed

definition params_shape :: "pyval \<Rightarrow> bool" where
  "params_shape serial_params \<longleftrightarrow> is_dict serial_params"

lemma cpp_config_total:
  assumes "config_shape config" and "\<forall>m \<in> set messages. msg_shape hashable tm m" and "messages \<noteq> []"
    and "is_dict params"
  shows "total (cpp_config_segs config messages tm params)"
proof -
  have msg: "msg_shape hashable tm m" if "m \<in> set messages" for m using assms(2) that by blast
  have size: "total (max_of (\<lambda>m. message_wire_payload_size m tm) messages)"
    using max_of_total [OF assms(3)] shape_sizes_gen [OF msg] unfolding total_def [of "max_of _ _"] by auto
  have params: "total (py_get (or_empty params) k c)" for k c
    using assms(4) by (cases params) (auto simp: or_empty_def)
  have "total (config_constants config algo port baud)" for algo port baud
    by (simp add: config_constants_def total_config [OF assms(1)])
  moreover have "total (config_options rh ivm sh q hi ht ri mr n)" for rh ivm sh q hi ht ri mr n
    by (simp add: config_options_def)
  moreover have "total (config_queries messages)"
    by (simp add: config_queries_def total_pieces [OF msg] total_ifE)
  ultimately show ?thesis
    unfolding cpp_config_segs_def by (simp add: total_bind total_config [OF assms(1)] params size)
qed

section \<open>The bindings\<close>

text \<open>A message without ROS keys: the built-in ones.\<close>

definition ros_free :: "pyval \<Rightarrow> bool" where
  "ros_free m \<longleftrightarrow> (\<forall>k \<in> {''ros_msg'', ''sub_topic'', ''pub_topic''}. dget (dict_items m) k PNone = PNone)"

lemma ros_free_system: "m \<in> set SYSTEM_MESSAGES \<Longrightarrow> ros_free m"
  by (auto simp: SYSTEM_MESSAGES_def system_message_defs ros_free_def dget_def)

lemma ros_msg_parts:
  assumes "fullmatch ros_msg_re r"
  shows "total (ros_type_parts (PStr r))"
proof -
  let ?mid = "Star (Cls (\<lambda>c. is_lower c \<or> is_digit c \<or> c = CHR ''_''))"
    and ?rear = "Seq (Cls is_upper) (Star (Cls is_word))"
  from assms obtain c t where ct: "r = c # t" "is_lower c" "lang (Seq ?mid (Seq (Lit ''/msg/'') ?rear)) t"
    unfolding ros_msg_re_def fullmatch_lang lang_Seq_Cls by blast
  from ct(3) obtain u t' where t: "t = u @ t'" "lang ?mid u" "lang (Seq (Lit ''/msg/'') ?rear) t'"
    unfolding lang_Seq [of ?mid] by blast
  from t(3) obtain v where v': "t' = ''/msg/'' @ v" "lang ?rear v"
    unfolding lang_Seq [of "Lit ''/msg/''"] lang_Lit by blast
  have r: "r = (c # u) @ ''/msg/'' @ v" using ct(1) t(1) v'(1) by simp
  have cu: "is_lower c" "list_all (\<lambda>c. is_lower c \<or> is_digit c \<or> c = CHR ''_'') u"
    using ct(2) t(2) by (simp_all only: lang_Star_Cls)
  have v: "\<exists>d w. v = d # w \<and> is_upper d \<and> list_all is_word w"
    using v'(2) by (simp only: lang_Seq_Cls lang_Star_Cls)
  have "CHR ''/'' \<notin> set (c # u)"
    using cu by (auto simp: list_all_iff is_lower_def is_digit_def)
  moreover have "CHR ''/'' \<notin> set v"
    using v word_free [OF _ marks_not_word(1)] by (auto simp: is_upper_def)
  moreover have "split_on CHR ''/'' (''msg/'' @ v) = ''msg'' # split_on CHR ''/'' v"
    using split_on_append [of "CHR ''/''" "''msg''" v] by simp
  ultimately show ?thesis
    using split_on_append [of "CHR ''/''" "c # u" "''msg/'' @ v"]
    by (simp add: ros_type_parts_def r split_on_word)
qed

text \<open>What a business message gives the bindings generator.\<close>

definition ros_shape :: "pyval \<Rightarrow> bool" where
  "ros_shape m \<longleftrightarrow>
     (\<exists>d r. m = PDict d \<and> dict_find d (K ''ros_msg'') = Some (PStr r) \<and> fullmatch ros_msg_re r) \<and>
     (\<forall>f \<in> set (msg_fields m). \<exists>d p a. f = PDict d \<and> dict_find d (K ''ros'') = Some (PStr p) \<and>
        analyze_ros_path p ''msg'' True = Inr a)"

lemma ros_shape_of_ok:
  assumes "message_ok tm m"
  shows "ros_shape m"
proof -
  from assms obtain d r fs where d: "m = PDict d" "dict_find d (K ''ros_msg'') = Some (PStr r)"
    "fullmatch ros_msg_re r" "dict_find d (K ''fields'') = Some (PList fs)"
    "\<forall>f \<in> set fs. field_ok tm f"
    unfolding message_ok_def fields_ok_def by blast
  have "\<exists>d p a. f = PDict d \<and> dict_find d (K ''ros'') = Some (PStr p) \<and>
      analyze_ros_path p ''msg'' True = Inr a" if "field_ok tm f" for f
    using that unfolding field_ok_def by blast
  with d show ?thesis by (auto simp: ros_shape_def msg_fields_def)
qed

lemma total_ros_type: "ros_shape m \<Longrightarrow> (\<And>a b c. total (f a b c)) \<Longrightarrow> total (with_ros_type m f)"
  using ros_msg_parts
  by (force simp: ros_shape_def with_ros_type_def intro!: total_bind split: prod.splits)

lemma total_path:
  assumes "analyze_ros_path p ''msg'' True = Inr a"
  shows "total (analyze_ros_path p ''msg'' b)"
  using assms analyze_ros_path_accepts unfolding analyze_ros_path_def total_def by blast

lemma total_field_paths:
  assumes "ros_shape m" and "msg_shape ok tm m"
  shows "total (bindE (item_list m ''fields'') (field_paths b))"
proof -
  have "total (path_step b f s)" if f: "f \<in> set (msg_fields m)" for f s
  proof -
    from assms(1) f obtain d p a where d: "f = PDict d" "dict_find d (K ''ros'') = Some (PStr p)"
      and a: "analyze_ros_path p ''msg'' True = Inr a"
      unfolding ros_shape_def by blast
    from total_path [OF a, of b] d show ?thesis
      by (auto simp: path_step_def total_def split: prod.splits)
  qed
  then have "total (field_paths b (msg_fields m))"
    unfolding field_paths_def by (rule total_foldE)
  then show ?thesis by (simp add: shape_fields [OF assms(2)])
qed

lemma path_step_fields:
  assumes "path_step b f (es0, r0) = Inr (es, r)"
  shows "map fst es = map fst es0 @ [f]"
proof -
  from assms obtain v where "py_item f ''ros'' = Inr v"
    by (auto simp: path_step_def bindE_eq_Inr)
  with assms show ?thesis
    by (cases v) (auto simp: path_step_def bindE_eq_Inr)
qed

lemma field_paths_fields:
  assumes "field_paths b flds = Inr (es, reqs)"
  shows "map fst es = flds"
proof -
  have "foldE (path_step b) fs (es0, r0) = Inr (es, reqs) \<Longrightarrow> map fst es = map fst es0 @ fs"
    for fs es0 r0
  proof (induction fs arbitrary: es0 r0)
    case (Cons f fs)
    from Cons.prems obtain es1 r1 where one: "path_step b f (es0, r0) = Inr (es1, r1)"
      and rest: "foldE (path_step b) fs (es1, r1) = Inr (es, reqs)"
      by (auto simp: bindE_eq_Inr)
    from Cons.IH [OF rest] path_step_fields [OF one] show ?case by simp
  qed simp
  from this [of flds "[]" "[]"] assms show ?thesis by (simp add: field_paths_def)
qed

lemma includes_total:
  assumes "\<forall>m \<in> set messages. msg_shape ok tm m \<and> (ros_shape m \<or> ros_free m)"
  obtains incs where "binding_includes messages = Inr incs"
    and "\<forall>r \<in> set incs. fullmatch ros_msg_re r"
proof -
  define g where "g m = (if ros_shape m then [dget (dict_items m) ''ros_msg'' PNone] else [])" for m
  have re: "r \<noteq> []" if "fullmatch ros_msg_re r" for r
    using that unfolding fullmatch_lang ros_msg_re_def lang_Seq_Cls by blast
  have "mapE (\<lambda>m. bindE (py_get m ''ros_msg'' PNone) (\<lambda>v. Inr (if truthy v then [v] else []))) messages
      = Inr (map g messages)"
  proof (rule mapE_Inr)
    fix m assume "m \<in> set messages"
    with assms have "msg_shape ok tm m" "ros_shape m \<or> ros_free m" by auto
    moreover from this(1) obtain d where "m = PDict d" by (rule msg_shapeE)
    ultimately show "bindE (py_get m ''ros_msg'' PNone) (\<lambda>v. Inr (if truthy v then [v] else [])) = Inr (g m)"
      using re by (auto simp: g_def ros_shape_def ros_free_def dget_find)
  qed
  moreover have strs: "\<exists>r. v = PStr r \<and> fullmatch ros_msg_re r" if "v \<in> set (concat (map g messages))" for v
    using that by (auto simp: g_def ros_shape_def dget_find split: if_splits)
  have "list_all is_str (concat (map g messages))"
    unfolding list_all_iff using strs by fastforce
  ultimately have "binding_includes messages =
      Inr (sorted_list_of_set (set (map py_str (concat (map g messages)))))"
    by (simp only: binding_includes_def bindE.simps if_True)
  moreover have "\<forall>r \<in> set (sorted_list_of_set (set (map py_str (concat (map g messages))))).
      fullmatch ros_msg_re r"
  proof -
    have "\<forall>v \<in> set (concat (map g messages)). fullmatch ros_msg_re (py_str v)"
      using strs by fastforce
    then show ?thesis by simp
  qed
  ultimately show thesis by (rule that)
qed

lemma each_include_total: "\<forall>r \<in> set incs. fullmatch ros_msg_re r \<Longrightarrow> total (each bindings_include incs)"
  using ros_msg_parts by (auto simp: bindings_include_def intro!: total_bind)

section \<open>Functions of the bindings header\<close>

lemma describe_total:
  assumes "msg_shape ok tm m"
  shows "total (describe_case m)"
proof -
  have "total (describe_field f)" if "f \<in> set (msg_fields m)" for f
    using total_field [OF shape_field [OF assms that]] by (auto simp: describe_field_def intro!: total_bind)
  then have "total (bindE (item_list m ''fields'') (mapE describe_field))"
    by (simp add: shape_fields [OF assms])
  then show ?thesis
    unfolding describe_case_def
    by (simp add: total_whenE total_pieces [OF assms] total_bind)
qed

lemma size_guard_total: "msg_shape ok tm m \<Longrightarrow> total (size_guard m topic r)"
  by (cases r) (simp add: size_guard_def total_pieces)

lemma size_check_total [simp]: "total (size_check r)"
  by (cases r) (simp add: size_check_def)

lemma u8_guard_total: "total (write_u8_range_guard a b c e)"
  by (simp add: write_u8_range_guard_def)

lemma field_c_type_get:
  "field_shape ok tm f \<Longrightarrow> total (bindE (py_item f ''type'') (\<lambda>t. bindE (get_c_type t tm) (\<lambda>c. Inr (g c))))"
  by (auto simp: field_shape_def c_type_in_def)

lemma read_field_total:
  assumes "msg_shape ok tm m" and "ros_shape m" and "f \<in> set (msg_fields m)"
  shows "total (read_field m topic tm (f, e))"
proof -
  note fld = shape_field [OF assms(1,3)]
  have r: "total (py_item m ''ros_msg'')" using assms(2) by (auto simp: ros_shape_def)
  have g: "total (needs_int32_multiarray_u8_range_guard v f tm)" for v
    unfolding needs_int32_multiarray_u8_range_guard_def
    by (intro total_andE total_Inr field_c_type_get [OF fld])
  show ?thesis
    unfolding read_field_def
    by (auto intro!: total_bind total_whenE g r
        simp: total_field [OF fld] total_pieces [OF assms(1)] u8_guard_total)
qed

lemma write_field_total:
  assumes "msg_shape ok tm m" and "ros_shape m" and "f \<in> set (msg_fields m)"
  shows "total (write_field m tm (f, e))"
proof -
  note fld = shape_field [OF assms(1,3)]
  have "total (item_eq m ''ros_msg'' s)" for s using assms(2) by (auto simp: ros_shape_def item_eq_def)
  moreover from fld obtain t c where "py_item f ''type'' = Inr t" "get_c_type t tm = Inr c"
    by (auto simp: field_shape_def c_type_in_def)
  ultimately show ?thesis
    unfolding write_field_def
    by (auto intro!: total_bind simp: total_field [OF fld])
qed

lemma exprs_in_fields: "field_paths b flds = Inr (es, reqs) \<Longrightarrow> (f, e) \<in> set es \<Longrightarrow> f \<in> set flds"
  using field_paths_fields [of b flds es reqs] by force

lemma subscription_total:
  assumes "msg_shape ok tm m" and "ros_shape m"
  shows "total (subscription m topic q tm)"
proof -
  have "total (bindE (bindE (item_list m ''fields'') (field_paths True)) (\<lambda>(field_reads, reqs). parts
      [each (size_guard m topic) (sorted_requirements reqs),
       wr [T ''            Packet_'', item_str m ''name'', T '' pkt;\<newline>''],
       each (read_field m topic tm) field_reads]))"
    using exprs_in_fields read_field_total [OF assms]
    by (intro total_bind [OF total_field_paths [OF assms(2,1)]])
      (auto simp: shape_fields [OF assms(1)] size_guard_total [OF assms(1)] total_pieces [OF assms(1)])
  then show ?thesis
    unfolding subscription_def
    by (intro total_ros_type [OF assms(2)]) (simp add: total_pieces [OF assms(1)] total_bind)
qed

lemma publishes_total: "msg_shape ok tm m \<Longrightarrow> total (publishes m)"
  by (simp add: publishes_def total_andE total_pieces)

lemma publishes_ros:
  assumes "ros_shape m \<or> ros_free m" and "publishes m = Inr True"
  shows "ros_shape m" "total (item_str m ''pub_topic'')"
proof -
  from assms(2) obtain d where d: "m = PDict d" "truthy (dget d ''pub_topic'' PNone)"
    by (cases m) (auto simp: publishes_def andE_def get_true_def item_direction_def bindE_eq_Inr
        split: if_splits)
  then have "\<not> ros_free m" by (auto simp: ros_free_def)
  with assms(1) show "ros_shape m" by blast
  from d show "total (item_str m ''pub_topic'')"
    by (auto simp: item_str_def dget_def split: option.splits)
qed

lemma register_total:
  assumes "msg_shape ok tm m" and "ros_shape m \<or> ros_free m"
  shows "total (register_msg q tm m)"
proof -
  have "ros_shape m" if "py_get m ''sub_topic'' PNone = Inr topic" "truthy topic" for topic
    using assms(2) that by (cases m) (auto simp: ros_free_def)
  then show ?thesis
    unfolding register_msg_def
    by (auto intro!: total_bind total_whenE total_andE subscription_total [OF assms(1)]
        simp: total_pieces [OF assms(1)] andE_def bindE_eq_Inr split: if_splits)
qed

lemma log_parts_total: "field_shape ok tm f \<Longrightarrow> total (log_parts f)"
  by (auto simp: log_parts_def total_field intro!: total_bind)

lemma dispatch_total:
  assumes "msg_shape ok tm m" and "ros_shape m \<or> ros_free m"
  shows "total (dispatch_case tm m)"
proof -
  have paths: "total (bindE (bindE (item_list m ''fields'') (field_paths False)) (\<lambda>(field_writes, reqs). parts
      [each size_check (sorted_requirements reqs), each (write_field m tm) field_writes]))"
    if "ros_shape m"
    using exprs_in_fields write_field_total [OF assms(1) that]
    by (intro total_bind [OF total_field_paths [OF that assms(1)]])
      (auto simp: shape_fields [OF assms(1)])
  have "total (bindE (item_list m ''fields'') (mapE log_parts))"
    using log_parts_total [OF shape_field [OF assms(1)]] by (simp add: shape_fields [OF assms(1)])
  moreover obtain d where "m = PDict d" "dict_find d (K ''name'') = Some (PStr (msg_name m))"
    by (rule msg_shapeE [OF assms(1)])
  ultimately have log: "total (bindE (bindE (item_list m ''fields'') (mapE log_parts)) (\<lambda>ps.
      bindE (py_item m ''name'') (\<lambda>name.
      write_guarded_rx_debug_log name (map fst ps) (map snd ps))))"
    by (auto intro!: total_bind simp: write_guarded_rx_debug_log_def upper_of_def)
  show ?thesis
    unfolding dispatch_case_def
    using publishes_ros(1) [OF assms(2)]
    by (intro total_whenE publishes_total [OF assms(1)])
      (simp add: total_pieces [OF assms(1)] total_ros_type paths log)
qed

lemma bindings_total:
  assumes "\<forall>m \<in> set messages. msg_shape ok tm m \<and> (ros_shape m \<or> ros_free m)"
    and "config_shape config"
  shows "total (ros_bindings_segs messages tm config)"
proof -
  from includes_total [OF assms(1)] obtain incs where incs: "binding_includes messages = Inr incs"
    "\<forall>r \<in> set incs. fullmatch ros_msg_re r" .
  have msg: "msg_shape ok tm m" "ros_shape m \<or> ros_free m" if "m \<in> set messages" for m
    using assms(1) that by auto
  have pub: "total (whenE (publishes m) (with_ros_type m f))"
    if "m \<in> set messages" "\<And>a b c. total (item_str m ''pub_topic'') \<Longrightarrow> total (f a b c)" for m f
    using publishes_ros [OF msg(2) [OF that(1)]] that(2)
    by (intro total_whenE publishes_total [OF msg(1) [OF that(1)]] total_ros_type) auto
  have "total bindings_prelude" "total bindings_detail"
    by (simp_all add: bindings_prelude_def bindings_detail_def)
  moreover have "total (bindings_describe messages)"
    by (simp add: bindings_describe_def describe_total [OF msg(1)])
  moreover have "total (bindings_register messages tm q)" for q
    by (simp add: bindings_register_def register_total [OF msg])
  moreover have "total (bindings_publishers messages q)" for q
    by (simp add: bindings_publishers_def pub total_pieces [OF msg(1)])
  moreover have "total (bindings_dispatch messages tm)"
    by (simp add: bindings_dispatch_def dispatch_total [OF msg])
  ultimately show ?thesis
    unfolding ros_bindings_segs_def
    using incs(2) each_include_total by (simp add: incs(1) total_bind total_config [OF assms(2)])
qed

section \<open>The document\<close>

lemma field_row_total:
  assumes "field_shape hashable tm f"
  shows "total (field_row tm f acc)"
proof -
  from assms obtain t c where t: "py_item f ''type'' = Inr t" "get_c_type t tm = Inr c" "hashable c"
    by (auto simp: field_shape_def c_type_in_def)
  then have "total (c_type_size c)" by (simp add: c_type_size_def)
  with t show ?thesis
    by (cases acc) (simp add: field_row_def total_bind total_field [OF assms])
qed

lemma field_table_total:
  assumes "msg_shape hashable tm m"
  shows "total (field_table_of m tm algo rel)"
proof -
  have "total (table_rows tm (msg_fields m))"
    unfolding table_rows_def using field_row_total [OF shape_field [OF assms]] by (intro total_foldE)
  then show ?thesis
    by (auto simp: field_table_of_def field_table_def shape_fields [OF assms] Let_def intro!: total_bind
        split: prod.splits)
qed

lemma message_meta_total: "msg_shape ok tm m \<Longrightarrow> total (doc_message_meta m k)"
  by (erule msg_shapeE) (auto simp: doc_message_meta_def get_true_def item_str_def dget_def
      total_whenE intro!: total_bind total_whenE split: option.splits)

lemma notes_total:
  "msg_shape ok tm m \<Longrightarrow> get_true m ''notes'' PNone = Inr True \<Longrightarrow> total (item_str m ''notes'')"
  by (erule msg_shapeE) (auto simp: get_true_def item_str_def dget_def split: option.splits)

lemma doc_rx_total:
  assumes "msg_shape hashable tm m"
  shows "total (doc_rx_message tm algo rh m)"
  unfolding doc_rx_message_def
  by (intro total_bind shape_sizes_gen [OF assms])
    (simp add: total_pieces [OF assms] message_meta_total [OF assms] notes_total [OF assms]
      field_table_total [OF assms] total_whenE total_andE)

lemma doc_tx_total:
  assumes "msg_shape hashable tm m"
  shows "total (doc_tx_message tm algo rh hb m)"
  unfolding doc_tx_message_def
  by (intro total_bind shape_sizes_gen [OF assms] total_pieces(8) [OF assms])
    (simp add: total_pieces [OF assms] message_meta_total [OF assms] notes_total [OF assms]
      field_table_total [OF assms] total_whenE total_andE)

lemma doc_filter_total:
  assumes "\<forall>m \<in> set messages. msg_shape ok tm m"
  obtains ms where "doc_filter p messages = Inr ms" and "set ms \<subseteq> set messages"
proof -
  have "total (mapE (\<lambda>m. bindE (py_item m ''direction'') (\<lambda>d. Inr (if p d then [m] else []))) messages)"
    using assms total_pieces(14) by (auto simp: total_bind_Inr)
  then obtain mss where
    mss: "mapE (\<lambda>m. bindE (py_item m ''direction'') (\<lambda>d. Inr (if p d then [m] else []))) messages = Inr mss"
    by (auto simp: total_def)
  moreover have "set (concat mss) \<subseteq> set messages"
    using mapE_InrD2 [OF mss] by (fastforce simp: bindE_eq_Inr split: if_splits)
  ultimately show thesis using that by (simp add: doc_filter_def)
qed

lemma doc_total:
  assumes "config_shape config" and "\<forall>m \<in> set messages. msg_shape hashable tm m" and "is_dict params"
  shows "total (mcu_doc_segs config messages tm hash params)"
proof -
  from total_config(6,7) [OF assms(1)] obtain h1 h2 where
    h: "py_item config ''head_byte_1'' = Inr (PInt h1)" "py_item config ''head_byte_2'' = Inr (PInt h2)"
    by blast
  obtain rxs where rxs: "doc_filter receives messages = Inr rxs" "set rxs \<subseteq> set messages"
    using doc_filter_total [OF assms(2)] .
  obtain txs where txs: "doc_filter sends messages = Inr txs" "set txs \<subseteq> set messages"
    using doc_filter_total [OF assms(2)] .
  have rx: "total (doc_section (doc_rx_message tm algo rh) rxs)" for algo rh
    using rxs(2) assms(2) doc_rx_total by (auto simp: doc_section_def)
  have tx: "total (doc_section (doc_tx_message tm algo rh hb) txs)" for algo rh hb
    using txs(2) assms(2) doc_tx_total by (auto simp: doc_section_def)
  have params: "total (py_get (if truthy params then params else PDict []) k c)" for k c
    using assms(3) by (cases params) auto
  have "total doc_intro" "total doc_integration" "total (doc_frame (PInt h1) (PInt h2) algo)" for algo
    by (simp_all add: doc_intro_def doc_integration_def doc_frame_def)
  moreover have "total (doc_params b (PInt h1) (PInt h2) algo rh hash sh hi ht ri mr)"
    for b algo rh sh hi ht ri mr by (simp add: doc_params_def)
  ultimately show ?thesis
    unfolding mcu_doc_segs_def
    by (simp add: h rxs(1) txs(1) total_bind total_config [OF assms(1)] params rx tx)
qed

end
