(* ===== verification/Pipeline.thy ===== *)
theory Pipeline
  imports GenTotal Hash
begin

text \<open>
  \<open>main\<close>: read the YAML file, validate, and either print the referenced ROS packages or
  generate the five files. A run is a function of the command line and the file system; its
  value is the new file system and the printed text, or the exception that ends the process.
  \<open>yaml.safe_load\<close> and \<open>yaml.safe_dump\<close> are parameters.
\<close>

section \<open>The program\<close>

record args =
  protocol_yaml :: string
  output_dir :: "string option"
  print_ros_packages :: bool

record outcome =
  files :: fs
  printed :: string

definition path_join :: "string \<Rightarrow> string \<Rightarrow> string" where   \<comment> \<open>\<open>os.path.join(a, b)\<close>, \<open>b\<close> relative\<close>
  "path_join a b = (if a = [] \<or> last a = CHR ''/'' then a @ b else a @ ''/'' @ b)"

definition generated_path :: "string \<Rightarrow> string \<Rightarrow> string" where
  "generated_path out name = path_join (path_join out ''generated'') name"

definition generate_all ::
  "(string \<Rightarrow> pyval res) \<Rightarrow> (pyval \<Rightarrow> string) \<Rightarrow> pyval \<Rightarrow> string \<Rightarrow> fs \<Rightarrow> fs res" where
  "generate_all safe_load safe_dump config_data out fs =
     bindE (py_item config_data ''config'') (\<lambda>config.
     bindE (py_get config_data ''type_mappings'' (PDict [])) (\<lambda>tm.
     bindE (py_get config_data ''serial_controller'' (PDict [])) (\<lambda>sc.
     bindE (py_get sc ''ros__parameters'' (PDict [])) (\<lambda>serial_params.
     bindE (merge_messages config_data) (\<lambda>messages.
     bindE (calculate_protocol_hash safe_load safe_dump config_data) (\<lambda>phash.
     let type_mappings = or_empty tm;
         mcu_header_path = generated_path out ''protocol.h'';
         mcu_source_path = generated_path out ''protocol.c'' in
     bindE (generate_mcu_header config messages type_mappings phash mcu_header_path
              (extract_user_code fs mcu_header_path) fs) (\<lambda>fs1.
     bindE (generate_mcu_source config messages type_mappings mcu_source_path
              (extract_user_code fs1 mcu_source_path) fs1) (\<lambda>fs2.
     bindE (generate_cpp_config config messages type_mappings
              (generated_path out ''generated_config.hpp'') serial_params fs2) (\<lambda>fs3.
     bindE (generate_ros_bindings messages type_mappings config
              (generated_path out ''generated_bindings.hpp'') fs3) (\<lambda>fs4.
     generate_mcu_doc config messages type_mappings phash
       (generated_path out ''PROTOCOL_DOC.md'') serial_params fs4))))))))))"

definition main ::
  "(string \<Rightarrow> pyval res) \<Rightarrow> (pyval \<Rightarrow> string) \<Rightarrow> args \<Rightarrow> fs \<Rightarrow> outcome res" where
  "main safe_load safe_dump a fs =
     (if \<not> print_ros_packages a \<and> (output_dir a = None \<or> output_dir a = Some [])
      then Inl (SystemExit 2)
      else case read_text fs (protocol_yaml a) of
        None \<Rightarrow> Inl OSError
      | Some text \<Rightarrow>
          bindE (safe_load text) (\<lambda>config_data0.
          bindE (validate_protocol config_data0) (\<lambda>config_data.
          if print_ros_packages a then
            bindE (ros_message_packages config_data) (\<lambda>ps.
            Inr \<lparr>files = fs, printed = join ''\<newline>'' ps @ ''\<newline>''\<rparr>)
          else
            bindE (generate_all safe_load safe_dump config_data (the (output_dir a)) fs) (\<lambda>fs'.
            Inr \<lparr>files = fs', printed = []\<rparr>))))"

section \<open>The merged messages of a well-formed configuration\<close>

lemma sizes_hashable:
  assumes "message_wire_payload_size m tm = Inr w" and "m = PDict d"
    and "dict_find d (K ''fields'') = Some (PList flds)" and "f \<in> set flds"
    and "dict_find (dict_items f) (K ''type'') = Some t" and "is_dict f"
  shows "c_type_in hashable tm t"
proof -
  from assms(1-3) obtain ns where ns: "mapE (field_size tm) flds = Inr ns"
    by (auto simp: message_wire_payload_size_def message_payload_size_def bindE_eq_Inr)
  from mapE_InrD [OF ns assms(4)] obtain n where "field_size tm f = Inr n" by blast
  with assms(5,6) show ?thesis
    by (cases f) (auto simp: field_size_def bindE_eq_Inr c_type_in_def c_type_size_def split: if_splits)
qed

lemma msg_shape_system_sized:
  assumes "\<forall>m \<in> set SYSTEM_MESSAGES. \<exists>w. message_wire_payload_size m tm = Inr w"
  shows "system_types hashable tm"
proof -
  from assms obtain v w where "message_wire_payload_size msg_Ack tm = Inr v"
    "message_wire_payload_size msg_Heartbeat tm = Inr w"
    by (auto simp: SYSTEM_MESSAGES_def)
  then show ?thesis
    using sizes_hashable [of msg_Ack tm v _ _ "PDict [(K ''proto'', PStr ''acked_id''), (K ''type'', PStr ''uint8_t'')]"]
      sizes_hashable [of msg_Heartbeat tm w _ _ "PDict [(K ''proto'', PStr ''count''), (K ''type'', PStr ''uint32_t'')]"]
    by (simp add: system_types_def msg_Ack_def msg_Heartbeat_def)
qed

text \<open>The parts of a well-formed configuration the generators read.\<close>

lemma protocol_okE:
  assumes "protocol_ok v"
  obtains cd cfg tm sc params ms where "v = PDict cd"
    and "dict_find cd (K ''config'') = Some (PDict cfg)"
    and "dget cd ''type_mappings'' (PDict []) = PDict tm"
    and "dget cd ''serial_controller'' (PDict []) = PDict sc"
    and "dget sc ''ros__parameters'' (PDict []) = PDict params"
    and "merge_messages v = Inr (sort_key msg_id (ms @ SYSTEM_MESSAGES))"
    and "config_ok cfg params" and "messages_ok (PDict tm) ms" and "frames_fit cfg (PDict tm) ms"
    and "dget cd ''messages'' (PList []) = PList ms"
proof -
  from assms obtain cd cfg tm sc params ms where v: "v = PDict cd"
    "dict_find cd (K ''config'') = Some (PDict cfg)"
    "dget cd ''type_mappings'' (PDict []) = PDict tm"
    "dget cd ''serial_controller'' (PDict []) = PDict sc"
    "dget sc ''ros__parameters'' (PDict []) = PDict params"
    "dget cd ''messages'' (PList []) = PList ms"
    "config_ok cfg params" "messages_ok (PDict tm) ms" "frames_fit cfg (PDict tm) ms"
    unfolding protocol_ok_def by blast
  moreover from v(8) have "\<forall>m \<in> set ms. has_id m"
    unfolding messages_ok_def using message_ok_has_id by blast
  then have "merge_messages v = Inr (sort_key msg_id (ms @ SYSTEM_MESSAGES))"
    using v(1,6) by (intro merge_messages_eq) simp_all
  ultimately show thesis using that by blast
qed

lemma merged_shapes:
  assumes "messages_ok tm ms" and "frames_fit cfg tm ms" and "m \<in> set (ms @ SYSTEM_MESSAGES)"
  shows "msg_shape hashable tm m" and "ros_shape m \<or> ros_free m"
    and "system_types supported_type tm \<Longrightarrow> msg_shape supported_type tm m"
proof -
  have sys: "system_types hashable tm"
    using assms(2) by (intro msg_shape_system_sized) (auto simp: frames_fit_def)
  have ok: "message_ok tm m" if "m \<in> set ms"
    using assms(1) that unfolding messages_ok_def by blast
  show "msg_shape hashable tm m"
    using assms(3) ok msg_shape_mono [OF msg_shape_of_ok supported_hashable]
      msg_shape_system [OF sys] by auto
  show "ros_shape m \<or> ros_free m"
    using assms(3) ok ros_shape_of_ok ros_free_system by auto
  show "system_types supported_type tm \<Longrightarrow> msg_shape supported_type tm m"
    using assms(3) ok msg_shape_of_ok msg_shape_system [of supported_type tm] by auto
qed

lemma hash_entry_total:
  assumes "msg_shape ok tm m"
  shows "total (msg_hash_entry tm m)"
proof -
  obtain d where m: "m = PDict d" "dict_find d (K ''fields'') = Some (PList (msg_fields m))"
    "\<forall>f \<in> set (msg_fields m). field_shape ok tm f"
    by (rule msg_shapeE [OF assms])
  have "total (bindE (py_item f ''type'') (\<lambda>t. get_c_type t tm))" if "f \<in> set (msg_fields m)" for f
    using m(3) that by (auto simp: field_shape_def c_type_in_def)
  with m(1,2) show ?thesis
    using assms by (auto simp: msg_hash_entry_def total_pieces dget_find intro!: total_bind elim!: msg_shapeE)
qed

lemma hash_total:
  assumes "protocol_ok v"
  shows "total (calculate_protocol_hash ld dp v)"
proof -
  from assms obtain cd cfg tm sc params ms where v: "v = PDict cd"
    "dict_find cd (K ''config'') = Some (PDict cfg)" "dget cd ''type_mappings'' (PDict []) = PDict tm"
    "merge_messages v = Inr (sort_key msg_id (ms @ SYSTEM_MESSAGES))"
    "config_ok cfg params" "messages_ok (PDict tm) ms" "frames_fit cfg (PDict tm) ms"
    by (rule protocol_okE)
  have "total (msg_hash_entry (PDict tm) m)" if "m \<in> set (ms @ SYSTEM_MESSAGES)" for m
    using hash_entry_total [OF merged_shapes(1) [OF v(6,7) that]] .
  then have "total (mapE (msg_hash_entry (PDict tm)) (sort_key msg_id (ms @ SYSTEM_MESSAGES)))"
    by simp
  moreover from config_shape_of_ok [OF v(5)] obtain h1 h2 where
    "dict_find cfg (K ''head_byte_1'') = Some (PInt h1)" "dict_find cfg (K ''head_byte_2'') = Some (PInt h2)"
    unfolding config_shape_def by blast
  ultimately have "total (protocol_hash_input v)"
    using v by (simp add: protocol_hash_input_def dget_find total_bind)
  then show ?thesis
    using v(1) by (simp add: calculate_protocol_hash_def canonicalize_protocol_hash_input_def
        total_bind_Inr)
qed

section \<open>Where the files go\<close>

definition GENERATED_NAMES :: "string list" where
  "GENERATED_NAMES =
     [''protocol.h'', ''protocol.c'', ''generated_config.hpp'', ''generated_bindings.hpp'',
      ''PROTOCOL_DOC.md'']"

definition generated_files :: "string \<Rightarrow> string set" where
  "generated_files out = set (map (generated_path out) GENERATED_NAMES)"

lemma generated_path_prefix: "\<exists>pre. \<forall>name. generated_path out name = pre @ name"
proof -
  have "\<exists>pre. \<forall>name. path_join a name = pre @ name" for a
    by (cases "a = [] \<or> last a = CHR ''/''") (auto simp: path_join_def)
  then show ?thesis by (simp add: generated_path_def)
qed

lemma generated_path_eq: "generated_path out a = generated_path out b \<longleftrightarrow> a = b"
  using generated_path_prefix [of out] by auto

lemma generated_path_tmp:
  "generated_path out a = tmp_path (generated_path out b) \<longleftrightarrow> a = b @ ''.tmp''"
  using generated_path_prefix [of out] by (auto simp: tmp_path_def)

lemma write_segments_other:
  "q \<noteq> p \<Longrightarrow> q \<noteq> tmp_path p \<Longrightarrow> write_segments fs p b segs q = fs q"
  by (simp add: write_segments_def write_generated_file_def Let_def)

lemma write_segments_exists: "write_segments fs p b segs p \<noteq> None"
  by (auto simp: write_segments_def write_generated_file_def Let_def read_text_def)

lemma extract_other:
  "q \<noteq> p \<Longrightarrow> q \<noteq> tmp_path p \<Longrightarrow> extract_user_code (write_segments fs p b segs) q = extract_user_code fs q"
  by (simp add: extract_user_code_def read_text_def write_segments_other)

text \<open>A generation run is five writes, of texts that do not depend on the file system.\<close>

definition write_all ::
  "string \<Rightarrow> seg list \<Rightarrow> seg list \<Rightarrow> seg list \<Rightarrow> seg list \<Rightarrow> seg list \<Rightarrow> fs \<Rightarrow> fs" where
  "write_all out hs ss cs bs ds fs =
     (let fs1 = write_segments fs (generated_path out ''protocol.h'')
                  (extract_user_code fs (generated_path out ''protocol.h'')) hs;
          fs2 = write_segments fs1 (generated_path out ''protocol.c'')
                  (extract_user_code fs1 (generated_path out ''protocol.c'')) ss;
          fs3 = write_segments fs2 (generated_path out ''generated_config.hpp'') [] cs;
          fs4 = write_segments fs3 (generated_path out ''generated_bindings.hpp'') [] bs
      in write_segments fs4 (generated_path out ''PROTOCOL_DOC.md'') [] ds)"

lemma generate_all_writes:
  assumes "protocol_ok v"
  shows "\<exists>hs ss cs bs ds cfg tm ms hash.
     py_item v ''config'' = Inr cfg \<and> header_config cfg \<and>
     py_get v ''type_mappings'' (PDict []) = Inr tm \<and>
     merge_messages v = Inr ms \<and> ms \<noteq> [] \<and>
     (system_types supported_type tm \<longrightarrow> (\<forall>m \<in> set ms. msg_shape supported_type tm m)) \<and>
     mcu_header_segs cfg ms tm hash = Inr hs \<and> mcu_source_segs cfg ms tm = Inr ss \<and>
     (\<forall>fs. generate_all ld dp v out fs = Inr (write_all out hs ss cs bs ds fs))"
proof -
  from assms obtain cd cfg tm sc params ms where v: "v = PDict cd"
    "dict_find cd (K ''config'') = Some (PDict cfg)" "dget cd ''type_mappings'' (PDict []) = PDict tm"
    "dget cd ''serial_controller'' (PDict []) = PDict sc"
    "dget sc ''ros__parameters'' (PDict []) = PDict params"
    "merge_messages v = Inr (sort_key msg_id (ms @ SYSTEM_MESSAGES))"
    "config_ok cfg params" "messages_ok (PDict tm) ms" "frames_fit cfg (PDict tm) ms"
    by (rule protocol_okE)
  let ?ms = "sort_key msg_id (ms @ SYSTEM_MESSAGES)"
  obtain hash where hash: "calculate_protocol_hash ld dp v = Inr hash"
    using hash_total [OF assms] by (auto simp: total_def)
  note cs = config_shape_of_ok [OF v(7)]
  have shp: "\<forall>m \<in> set ?ms. msg_shape hashable (PDict tm) m"
    and ros: "\<forall>m \<in> set ?ms. msg_shape hashable (PDict tm) m \<and> (ros_shape m \<or> ros_free m)"
    and sup: "system_types supported_type (PDict tm) \<longrightarrow> (\<forall>m \<in> set ?ms. msg_shape supported_type (PDict tm) m)"
    using merged_shapes [OF v(8,9)] by (metis set_sort)+
  have ne: "?ms \<noteq> []" by (simp add: SYSTEM_MESSAGES_def flip: length_greater_0_conv)
  obtain hs where hs: "mcu_header_segs (PDict cfg) ?ms (PDict tm) hash = Inr hs"
    using header_total [OF cs shp] by (auto simp: total_def)
  obtain ss where ss: "mcu_source_segs (PDict cfg) ?ms (PDict tm) = Inr ss"
    using source_total [OF cs shp ne] by (auto simp: total_def)
  obtain ccs where ccs: "cpp_config_segs (PDict cfg) ?ms (PDict tm) (PDict params) = Inr ccs"
    using cpp_config_total [OF cs shp ne, of "PDict params"] by (auto simp: total_def)
  obtain bs where bs: "ros_bindings_segs ?ms (PDict tm) (PDict cfg) = Inr bs"
    using bindings_total [OF ros cs] by (auto simp: total_def)
  obtain ds where ds: "mcu_doc_segs (PDict cfg) ?ms (PDict tm) hash (PDict params) = Inr ds"
    using doc_total [OF cs shp, of "PDict params" hash] by (auto simp: total_def)
  have tm: "or_empty (PDict tm) = PDict tm" by (cases tm) (simp_all add: or_empty_def)
  have all: "generate_all ld dp v out fs = Inr (write_all out hs ss ccs bs ds fs)" for fs
    using v(1-6) hash hs ss ccs bs ds tm
    by (simp add: generate_all_def write_all_def Let_def generate_mcu_header_def
        generate_mcu_source_def generate_cpp_config_def generate_ros_bindings_def generate_mcu_doc_def)
  have "py_item v ''config'' = Inr (PDict cfg)" "py_get v ''type_mappings'' (PDict []) = Inr (PDict tm)"
    using v(1-3) by simp_all
  with v(6) ne sup hs ss all header_config_of_ok [OF v(7)] show ?thesis by blast
qed

end
