(* ===== verification/McuLink.thy ===== *)
theory McuLink
  imports McuFsm Pipeline
begin

text \<open>
  The C program of a configuration: the parameters of the state machine in \<open>McuFsm\<close>, read off
  the messages the source generator is given. Packet structs are packed, so \<open>sizeof\<close> is the
  sum of the field sizes. The main fact: for a validated configuration the receive buffer is
  large enough for every packet, and the packet identifiers are distinct bytes.
\<close>

definition packet_of :: "pyval \<Rightarrow> pyval \<Rightarrow> packet res" where
  "packet_of type_mappings msg =
     bindE (item_str msg ''name'') (\<lambda>name.
     bindE (py_item msg ''id'') (\<lambda>i.
     bindE (message_payload_size msg type_mappings) (\<lambda>size.
     bindE (get_true msg ''reliable'' (PBool False)) (\<lambda>reliable.
     Inr \<lparr>pk_name = name, pk_id = word_of_int (case as_int i of Some n \<Rightarrow> n | None \<Rightarrow> 0),
          pk_size = nat size, pk_reliable = reliable\<rparr>))))"

definition algo_named :: "string \<Rightarrow> checksum_algo" where
  \<comment> \<open>the branches of the source generator: anything else is the \<open>NONE\<close> text\<close>
  "algo_named name =
     (if name = ''CRC8'' then CRC8 else if name = ''SUM8'' then SUM8
      else if name = ''XOR8'' then XOR8 else NONE)"

definition proto_of :: "pyval \<Rightarrow> pyval list \<Rightarrow> pyval \<Rightarrow> nat \<Rightarrow> proto res" where
  "proto_of config messages type_mappings hash =
     bindE (checksum_algo_of config) (\<lambda>checksum_algo.
     bindE (py_get config ''require_handshake'' (PBool True)) (\<lambda>rh.
     bindE (max_of (\<lambda>msg. message_wire_payload_size msg type_mappings) messages) (\<lambda>max_wire_payload.
     bindE (py_item config ''head_byte_1'') (\<lambda>h1.
     bindE (py_item config ''head_byte_2'') (\<lambda>h2.
     bindE (mapE (packet_of type_mappings) messages) (\<lambda>pks.
     Inr \<lparr>FRAME_HEADER1 = word_of_int (case as_int h1 of Some n \<Rightarrow> n | None \<Rightarrow> 0),
          FRAME_HEADER2 = word_of_int (case as_int h2 of Some n \<Rightarrow> n | None \<Rightarrow> 0),
          algo = algo_named checksum_algo, buf_size = nat max_wire_payload, packets = pks,
          require_handshake = truthy rh, PROTOCOL_HASH = of_nat hash\<rparr>))))))"

lemma max_of_ge:
  assumes "max_of f xs = Inr n" and "x \<in> set xs" and "f x = Inr k"
  shows "k \<le> n"
proof -
  from assms(1) obtain ns where ns: "mapE f xs = Inr ns" by (auto simp: max_of_def bindE_eq_Inr)
  from mapE_InrD [OF ns assms(2)] assms(3) have k: "k \<in> set ns" by auto
  then obtain m ms where "ns = m # ms" by (cases ns) auto
  with ns assms(1) have "n = foldl max m ms" by (simp add: max_of_def)
  with k \<open>ns = m # ms\<close> foldl_max_ge [of m ms n] show ?thesis by auto
qed

lemma max_of_le:
  assumes "max_of f xs = Inr n" and "\<forall>x \<in> set xs. \<forall>k. f x = Inr k \<longrightarrow> k \<le> b"
  shows "n \<le> b"
proof -
  from assms(1) obtain ns where "mapE f xs = Inr ns" by (auto simp: max_of_def bindE_eq_Inr)
  with assms(1) obtain m ms where ns: "mapE f xs = Inr (m # ms)" and n: "n = foldl max m ms"
    by (cases ns) (auto simp: max_of_def)
  have "\<forall>k \<in> set (m # ms). k \<le> b" using mapE_InrD2 [OF ns] assms(2) by blast
  then show ?thesis using n foldl_max_ge [of m ms b] by simp
qed

lemma system_wire_small:
  assumes "m \<in> set SYSTEM_MESSAGES" and "message_wire_payload_size m tm = Inr w"
  shows "w \<le> 255"
proof -
  have "\<exists>fs. py_item m ''fields'' = Inr (PList fs) \<and> length fs \<le> 2"
    using assms(1) by (auto simp: SYSTEM_MESSAGES_def system_message_defs)
  then obtain fs where fs: "py_item m ''fields'' = Inr (PList fs)" "length fs \<le> 2" by blast
  from assms(2) obtain n where n: "message_payload_size m tm = Inr n" "w \<le> n + 1"
    by (rule message_wire_payload_size_eq) auto
  from message_payload_size_bounds [OF fs(1) n(1)] fs(2) n(2) show ?thesis by simp
qed

lemma packet_of_shape:
  assumes "msg_shape hashable tm m"
  obtains pk n w where "packet_of tm m = Inr pk" and "pk_id pk = word_of_int (msg_id m)"
    and "pk_name pk = msg_name m" and "message_payload_size m tm = Inr n"
    and "message_wire_payload_size m tm = Inr w"
    and "0 \<le> n" and "pk_size pk = nat n" and "w = n + of_bool (pk_reliable pk)"
proof -
  from shape_sizes_gen [OF assms] obtain n w where
    nw: "message_payload_size m tm = Inr n" "message_wire_payload_size m tm = Inr w"
    by (auto simp: total_def)
  from assms obtain d where d: "m = PDict d" "dict_find d (K ''fields'') = Some (PList (msg_fields m))"
    "dict_find d (K ''id'') = Some (PInt (msg_id m))"
    by (rule msg_shapeE)
  then have "0 \<le> n"
    using message_payload_size_bounds [of m "msg_fields m" tm n] nw(1) by auto
  moreover have "w = (if truthy (dget d ''reliable'' (PBool False)) then n + 1 else n)"
    using nw d(1) by (auto simp: message_wire_payload_size_def)
  moreover define pk where "pk = \<lparr>pk_name = msg_name m, pk_id = word_of_int (msg_id m) :: u8, pk_size = nat n,
      pk_reliable = truthy (dget d ''reliable'' (PBool False))\<rparr>"
  moreover have "packet_of tm m = Inr pk"
    using nw(1) d(3) shape_name [OF assms]
    by (simp add: packet_of_def pk_def) (simp add: d(1) get_true_def)
  ultimately show thesis using that [of pk n w] nw by (simp add: pk_def)
qed

lemma packet_of_id:
  "msg_shape hashable tm m \<Longrightarrow> packet_of tm m = Inr pk \<Longrightarrow> pk_id pk = word_of_int (msg_id m)"
  by (erule packet_of_shape) simp

lemma packet_of_wire:
  assumes "msg_shape hashable tm m" and "packet_of tm m = Inr pk"
  shows "message_wire_payload_size m tm = Inr (int (pk_size pk) + of_bool (pk_reliable pk))"
  using assms(2) by (cases rule: packet_of_shape [OF assms(1)]) simp

lemma word_inj_byte:
  assumes "0 \<le> a" "a \<le> 255" "0 \<le> b" "b \<le> 255" and "(word_of_int a :: u8) = word_of_int b"
  shows "a = b"
proof -
  have "uint (word_of_int a :: u8) = a" using assms(1,2) by (simp add: uint_word_of_int)
  moreover have "uint (word_of_int b :: u8) = b" using assms(3,4) by (simp add: uint_word_of_int)
  ultimately show ?thesis using assms(5) by metis
qed

lemma proto_of_ok:
  assumes "config_ok cfg params" and "messages_ok tm ms" and "frames_fit cfg tm ms"
  shows "\<exists>P. proto_of (PDict cfg) (sort_key msg_id (ms @ SYSTEM_MESSAGES)) tm hash = Inr P \<and>
    proto_wf P \<and> proto_ids P"
proof -
  let ?ms = "sort_key msg_id (ms @ SYSTEM_MESSAGES)"
  note cs = config_shape_of_ok [OF assms(1)]
  have shp: "msg_shape hashable tm m" if "m \<in> set ?ms" for m
    using merged_shapes(1) [OF assms(2,3)] that by simp
  have wire: "w \<le> 255" if "m \<in> set ?ms" "message_wire_payload_size m tm = Inr w" for m w
  proof (cases "m \<in> set ms")
    case True
    then have "message_ok tm m" using assms(2) unfolding messages_ok_def by blast
    with that(2) show ?thesis by (auto elim: message_ok_core)
  next
    case False
    with that system_wire_small show ?thesis by simp
  qed
  have "?ms \<noteq> []" by (simp add: SYSTEM_MESSAGES_def flip: length_greater_0_conv)
  then obtain b where b: "max_of (\<lambda>m. message_wire_payload_size m tm) ?ms = Inr b"
    using max_of_total [of ?ms "\<lambda>m. message_wire_payload_size m tm"] shape_sizes_gen [OF shp] by auto
  have "b \<le> 255" using max_of_le [OF b] wire by blast
  have "\<forall>m \<in> set ?ms. \<exists>pk. packet_of tm m = Inr pk"
    using packet_of_shape [OF shp] by metis
  then obtain pks where pks: "mapE (packet_of tm) ?ms = Inr pks"
    using mapE_total [of ?ms "packet_of tm"] by blast
  from total_config [OF cs] obtain algo rh h1 h2 where
    opts: "checksum_algo_of (PDict cfg) = Inr algo"
    "py_get (PDict cfg) ''require_handshake'' (PBool True) = Inr rh"
    "py_item (PDict cfg) ''head_byte_1'' = Inr (PInt h1)" "py_item (PDict cfg) ''head_byte_2'' = Inr (PInt h2)"
    unfolding total_def by metis
  obtain P where P: "proto_of (PDict cfg) ?ms tm hash = Inr P" "packets P = pks" "buf_size P = nat b"
    using opts b pks by (simp add: proto_of_def)
  have size: "pk_size pk + of_bool (pk_reliable pk) \<le> nat b" if pk: "pk \<in> set pks" for pk
  proof -
    from mapE_InrD2 [OF pks pk] obtain m where m: "m \<in> set ?ms" "packet_of tm m = Inr pk" by blast
    from max_of_ge [OF b m(1) packet_of_wire [OF shp [OF m(1)] m(2)]]
    show ?thesis by (cases "pk_reliable pk") auto
  qed
  have ids: "list_all2 (\<lambda>m pk. pk_id pk = word_of_int (msg_id m)) ?ms pks"
  proof -
    have "list_all2 (\<lambda>m pk. packet_of tm m = Inr pk) ?ms pks" using pks by (simp add: mapE_eq_Inr)
    then show ?thesis
      by (rule list.rel_mono_strong) (use shp packet_of_id in blast)
  qed
  then have "map pk_id pks = map (\<lambda>m. word_of_int (msg_id m)) ?ms"
    by (induction rule: list_all2_induct) auto
  moreover have "distinct (map (\<lambda>m. word_of_int (msg_id m) :: u8) ?ms)"
  proof -
    have "distinct (map msg_id (ms @ SYSTEM_MESSAGES))"
      using assms(2) unfolding messages_ok_def by blast
    moreover have "mset (map msg_id ?ms) = mset (map msg_id (ms @ SYSTEM_MESSAGES))"
      unfolding mset_map by simp
    ultimately have "distinct (map msg_id ?ms)" by (metis mset_eq_imp_distinct_iff)
    moreover have "inj_on (word_of_int :: int \<Rightarrow> u8) (msg_id ` set ?ms)"
    proof (rule inj_onI)
      fix x y assume "x \<in> msg_id ` set ?ms" "y \<in> msg_id ` set ?ms"
        "(word_of_int x :: u8) = word_of_int y"
      moreover have "0 \<le> msg_id m \<and> msg_id m \<le> 255" if "m \<in> set ?ms" for m
        using shp [OF that] by (auto elim: msg_shapeE)
      ultimately show "x = y" by (auto intro: word_inj_byte)
    qed
    ultimately show ?thesis by (simp only: distinct_map comp_def flip: map_map) (auto simp: inj_on_def)
  qed
  ultimately show ?thesis
    using P size \<open>b \<le> 255\<close> by (auto simp: proto_wf_def proto_ids_def)
qed

text \<open>The program generated from a validated configuration, with the protocol hash built in.\<close>

definition mcu_program ::
  "(string \<Rightarrow> pyval res) \<Rightarrow> (pyval \<Rightarrow> string) \<Rightarrow> pyval \<Rightarrow> proto res" where
  "mcu_program safe_load safe_dump config_data =
     bindE (py_item config_data ''config'') (\<lambda>config.
     bindE (py_get config_data ''type_mappings'' (PDict [])) (\<lambda>type_mappings.
     bindE (merge_messages config_data) (\<lambda>messages.
     bindE (calculate_protocol_hash safe_load safe_dump config_data) (\<lambda>phash.
     proto_of config messages (or_empty type_mappings) phash))))"

lemma mcu_program_ok:
  assumes "protocol_ok v"
  shows "\<exists>P. mcu_program ld dp v = Inr P \<and> proto_wf P \<and> proto_ids P"
proof -
  from assms obtain cd cfg tm sc params ms where v: "v = PDict cd"
    "dict_find cd (K ''config'') = Some (PDict cfg)" "dget cd ''type_mappings'' (PDict []) = PDict tm"
    "merge_messages v = Inr (sort_key msg_id (ms @ SYSTEM_MESSAGES))"
    "config_ok cfg params" "messages_ok (PDict tm) ms" "frames_fit cfg (PDict tm) ms"
    by (rule protocol_okE)
  obtain hash where hash: "calculate_protocol_hash ld dp v = Inr hash"
    using hash_total [OF assms] by (auto simp: total_def)
  have tm: "or_empty (PDict tm) = PDict tm" by (cases tm) (simp_all add: or_empty_def)
  have "mcu_program ld dp v = proto_of (PDict cfg) (sort_key msg_id (ms @ SYSTEM_MESSAGES)) (PDict tm) hash"
    using v(1-4) hash tm by (simp add: mcu_program_def)
  with proto_of_ok [OF v(5-7), of hash] show ?thesis by simp
qed

section \<open>The built-in messages of the program\<close>

lemma mcu_program_parts:
  assumes "mcu_program ld dp v = Inr P"
  shows "\<exists>tm ms pks h. py_get v ''type_mappings'' (PDict []) = Inr tm \<and> merge_messages v = Inr ms \<and>
     calculate_protocol_hash ld dp v = Inr h \<and> mapE (packet_of (or_empty tm)) ms = Inr pks \<and>
     packets P = pks \<and> PROTOCOL_HASH P = of_nat h"
  using assms by (auto simp: mcu_program_def proto_of_def bindE_eq_Inr)

lemma mset_in_merge:
  assumes "protocol_ok v" and "merge_messages v = Inr ms" and "m \<in> set SYSTEM_MESSAGES"
  shows "m \<in> set ms"
  using protocol_okE [OF assms(1)] assms(2,3) by (metis Un_iff set_append set_sort sum.inject(2))

text \<open>Types that keep the size of the built-in fields.\<close>

definition keeps_uint32 :: "pyval \<Rightarrow> bool" where
  "keeps_uint32 tm \<longleftrightarrow> get_c_type (PStr ''uint32_t'') tm = Inr (PStr ''uint32_t'')"

lemma system_packet:
  assumes "protocol_ok v" and "mcu_program ld dp v = Inr P"
    and "py_get v ''type_mappings'' (PDict []) = Inr tm" and "keeps_uint32 tm"
  shows "\<lparr>pk_name = ''Heartbeat'', pk_id = HEARTBEAT_ID, pk_size = 4, pk_reliable = False\<rparr> \<in> set (packets P)"
    and "\<lparr>pk_name = ''Handshake'', pk_id = HANDSHAKE_ID, pk_size = 4, pk_reliable = False\<rparr> \<in> set (packets P)"
proof -
  from mcu_program_parts [OF assms(2)] assms(3) obtain ms pks h where
    ms: "merge_messages v = Inr ms" and pks: "mapE (packet_of (or_empty tm)) ms = Inr pks" "packets P = pks"
    by auto
  from assms(4) obtain d where "tm = PDict d" by (cases tm) (auto simp: keeps_uint32_def get_c_type_def)
  then have tm: "or_empty tm = tm" by (cases d) (simp_all add: or_empty_def)
  have size: "field_size tm (PDict [(K ''proto'', PStr f), (K ''type'', PStr ''uint32_t'')]) = Inr 4" for f
    using assms(4) by (simp add: keeps_uint32_def field_size_def c_type_size_def C_TYPE_SIZES_def)
  have "packet_of tm msg_Heartbeat
      = Inr \<lparr>pk_name = ''Heartbeat'', pk_id = HEARTBEAT_ID, pk_size = 4, pk_reliable = False\<rparr>"
    "packet_of tm msg_Handshake
      = Inr \<lparr>pk_name = ''Handshake'', pk_id = HANDSHAKE_ID, pk_size = 4, pk_reliable = False\<rparr>"
    by (simp_all add: packet_of_def message_payload_size_def system_message_defs size item_str_def
        get_true_def dget_def HEARTBEAT_ID_def HANDSHAKE_ID_def)
  moreover have "msg_Heartbeat \<in> set ms" "msg_Handshake \<in> set ms"
    using mset_in_merge [OF assms(1) ms] by (simp_all add: SYSTEM_MESSAGES_def)
  ultimately show
    "\<lparr>pk_name = ''Heartbeat'', pk_id = HEARTBEAT_ID, pk_size = 4, pk_reliable = False\<rparr> \<in> set (packets P)"
    "\<lparr>pk_name = ''Handshake'', pk_id = HANDSHAKE_ID, pk_size = 4, pk_reliable = False\<rparr> \<in> set (packets P)"
    using mapE_InrD [OF pks(1)] pks(2) tm by fastforce+
qed

text \<open>A received little-endian number, as the peer reads the reply.\<close>

definition decode_le :: "u8 list \<Rightarrow> nat" where
  "decode_le bs = foldr (\<lambda>b n. unat b + 256 * n) bs 0"

lemma four_bytes:
  assumes "(n :: nat) < 2 ^ 32"
  shows "n mod 256 + 256 * (n div 256 mod 256 + 256 * (n div 65536 mod 256 + 256 * (n div 16777216 mod 256))) = n"
proof -
  have "n div 16777216 mod 256 = n div 16777216" using assms by simp
  moreover have "n div 65536 = n div 256 div 256" "n div 16777216 = n div 256 div 256 div 256"
    by (simp_all add: div_mult2_eq)
  ultimately show ?thesis by (metis mod_mult_div_eq)
qed

lemma decode_hash_bytes: "decode_le (hash_bytes h) = unat h"
proof -
  have byte: "unat (ucast (drop_bit k h) :: u8) = unat h div 2 ^ k mod 256" for k
    by (simp add: unsigned_ucast_eq unat_drop_bit_eq take_bit_eq_mod flip: drop_bit_eq_div)
  have "unat h < 2 ^ 32" using unsigned_less [of h] by simp
  then show ?thesis
    using four_bytes [of "unat h"] byte [of 0] by (simp add: decode_le_def hash_bytes_def byte)
qed

end
