(* ===== verification/Guards.thy ===== *)
theory Guards
  imports GenBindings
begin

text \<open>
  The size checks of the generated handlers. A handler checks the merged requirements of all
  its fields in sorted order before it evaluates any field expression: every container a field
  indexes is checked to be long enough, and when a check itself goes through an indexed
  container, that one was checked before.
\<close>

lemma path_step_reqs:
  assumes "path_step b f (es, reqs) = Inr (es', reqs')"
  obtains p a rs where "py_item f ''ros'' = Inr (PStr p)" and "analyze_ros_path p ''msg'' b = Inr (a, rs)"
    and "reqs' = merge_vector_requirements reqs rs" and "es' = es @ [(f, a)]"
proof -
  from assms obtain v where "py_item f ''ros'' = Inr v" by (auto simp: path_step_def bindE_eq_Inr)
  with assms that show thesis by (cases v) (auto simp: path_step_def bindE_eq_Inr)
qed

lemma analyze_req:
  assumes "analyze_ros_path p root b = Inr (a, rs)" and "(c, i) \<in> set (path_accesses p root b)"
  shows "i < req_of rs c"
  using analyze_segments_reqs [OF assms(1) [unfolded analyze_ros_path_def], of c]
    fold_max_covers [OF assms(2)] by (simp add: path_accesses_def)

lemma analyze_distinct: "analyze_ros_path p root b = Inr (a, rs) \<Longrightarrow> distinct (map fst rs)"
  unfolding analyze_ros_path_def by (erule analyze_segments_distinct) simp

lemma paths_fold:
  "foldE (path_step b) flds (es, reqs) = Inr (es', reqs') \<Longrightarrow> distinct (map fst reqs) \<Longrightarrow>
     distinct (map fst reqs') \<and> (\<forall>x. req_of reqs x \<le> req_of reqs' x) \<and>
     (\<forall>f \<in> set flds. \<exists>p. py_item f ''ros'' = Inr (PStr p) \<and>
        (\<forall>(c, i) \<in> set (path_accesses p ''msg'' b). i < req_of reqs' c))"
proof (induction flds arbitrary: es reqs)
  case (Cons f flds)
  from Cons.prems(1) obtain es1 reqs1 where one: "path_step b f (es, reqs) = Inr (es1, reqs1)"
    and rest: "foldE (path_step b) flds (es1, reqs1) = Inr (es', reqs')"
    by (auto simp: bindE_eq_Inr)
  from path_step_reqs [OF one] obtain p a rs where p: "py_item f ''ros'' = Inr (PStr p)"
    "analyze_ros_path p ''msg'' b = Inr (a, rs)" "reqs1 = merge_vector_requirements reqs rs" .
  note d = analyze_distinct [OF p(2)]
  have d1: "distinct (map fst reqs1)" unfolding p(3) by (rule distinct_merge [OF Cons.prems(2)])
  have m: "req_of reqs1 x = max (req_of reqs x) (req_of rs x)" for x
    unfolding p(3) by (rule req_of_merge [OF d])
  note IH = Cons.IH [OF rest d1]
  have "\<forall>(c, i) \<in> set (path_accesses p ''msg'' b). i < req_of reqs' c"
  proof clarify
    fix c i assume "(c, i) \<in> set (path_accesses p ''msg'' b)"
    from analyze_req [OF p(2) this] have "i < req_of reqs1 c" by (simp add: m)
    also have "\<dots> \<le> req_of reqs' c" using IH by blast
    finally show "i < req_of reqs' c" .
  qed
  moreover have "req_of reqs x \<le> req_of reqs' x" for x
    using IH m [of x] by (metis max.cobounded1 order_trans)
  ultimately show ?case using IH p(1) by auto
qed simp

lemma req_of_mem: "0 < req_of reqs c \<Longrightarrow> (c, req_of reqs c) \<in> set reqs"
  by (auto simp: req_of_def dest: map_of_SomeD split: option.splits)

lemma requirement_present:
  assumes "field_paths b flds = Inr (es, reqs)" and "f \<in> set flds"
    and "py_item f ''ros'' = Inr (PStr p)" and "(c, i) \<in> set (path_accesses p ''msg'' b)"
  shows "\<exists>n. (c, n) \<in> set (sorted_requirements reqs) \<and> i < n"
proof -
  from paths_fold [OF assms(1) [unfolded field_paths_def]] assms(2) obtain p' where
    "py_item f ''ros'' = Inr (PStr p')" and
    "\<forall>(c, i) \<in> set (path_accesses p' ''msg'' b). i < req_of reqs c" by auto
  with assms(3,4) have "i < req_of reqs c" by auto
  then show ?thesis using req_of_mem [of reqs c] by (auto simp: sorted_requirements_def)
qed

text \<open>Along one path, the container of an earlier access is a proper prefix of every later one.\<close>

lemma accesses_extend: "(c, i) \<in> set (indexed_accesses b k e segs) \<Longrightarrow> \<exists>r. r \<noteq> [] \<and> c = e @ r"
proof (induction segs arbitrary: k e)
  case (Cons seg segs)
  let ?base = "e @ separator b k @ takeWhile is_word seg"
  have sep: "separator b k \<noteq> []" by (simp add: separator_def)
  from Cons.prems consider "c = ?base"
    | "(c, i) \<in> set (indexed_accesses b (Suc k) (?base @ dropWhile is_word seg) segs)"
    by (auto simp: Let_def split: if_splits)
  then show ?case
  proof cases
    case 1
    with sep show ?thesis by simp
  next
    case 2
    from Cons.IH [OF this] sep show ?thesis by auto
  qed
qed simp

lemma accesses_prefix:
  "indexed_accesses b k e segs = as @ (c', i') # bs \<Longrightarrow> (c, i) \<in> set as \<Longrightarrow> \<exists>r. r \<noteq> [] \<and> c' = c @ r"
proof (induction segs arbitrary: k e as)
  case (Cons seg segs)
  let ?base = "e @ separator b k @ takeWhile is_word seg" and ?rest = "dropWhile is_word seg"
  let ?tail = "indexed_accesses b (Suc k) (?base @ ?rest) segs"
  show ?case
  proof (cases "?rest = []")
    case True
    then have "?tail = as @ (c', i') # bs" using Cons.prems(1) by (simp add: Let_def)
    then show ?thesis by (rule Cons.IH) (rule Cons.prems(2))
  next
    case False
    then have eq: "(?base, digits_val (butlast (tl ?rest))) # ?tail = as @ (c', i') # bs"
      using Cons.prems(1)
      by (simp only: indexed_accesses.simps Let_def if_False append_Cons append_Nil append_assoc)
    with Cons.prems(2) obtain as' where as: "as = (?base, digits_val (butlast (tl ?rest))) # as'"
      and tail: "?tail = as' @ (c', i') # bs" by (cases as) auto
    show ?thesis
    proof (cases "(c, i) \<in> set as'")
      case True
      with tail show ?thesis by (rule Cons.IH)
    next
      case False
      with as Cons.prems(2) have c: "c = ?base" by auto
      have "(c', i') \<in> set ?tail" unfolding tail by simp
      from accesses_extend [OF this] obtain r where "c' = (?base @ ?rest) @ r" by blast
      then have "c' = c @ (?rest @ r)" unfolding c by (simp only: append_assoc)
      with \<open>?rest \<noteq> []\<close> show ?thesis by blast
    qed
  qed
qed simp

lemma prefix_less: "r \<noteq> [] \<Longrightarrow> (c :: string) < c @ r"
  by (cases r) (auto simp: list_less_def intro: lexord_append_rightI)

lemma requirement_before:
  assumes "field_paths b flds = Inr (es, reqs)" and "f \<in> set flds"
    and "py_item f ''ros'' = Inr (PStr p)" and "path_accesses p ''msg'' b = as @ (c', i') # bs"
    and "(c, i) \<in> set as" and "sorted_requirements reqs = xs @ (c', n) # ys"
  shows "\<exists>m. (c, m) \<in> set xs \<and> i < m"
proof -
  have "(c, i) \<in> set (path_accesses p ''msg'' b)" using assms(4,5) by simp
  from requirement_present [OF assms(1-3) this] obtain m where
    m: "(c, m) \<in> set (xs @ (c', n) # ys)" "i < m" using assms(6) by auto
  from accesses_prefix [OF assms(4) [unfolded path_accesses_def] assms(5)] prefix_less
  have less: "c < c'" by auto
  have "sorted (map fst (xs @ (c', n) # ys))"
    unfolding assms(6) [symmetric] sorted_requirements_def by (rule sorted_sort_key)
  then have "\<forall>e \<in> fst ` set ys. c' \<le> e" by (auto simp: sorted_append)
  with less have "(c, m) \<notin> set ((c', n) # ys)" by force
  with m show ?thesis by auto
qed

section \<open>The requirements are exact\<close>

text \<open>Evaluating the expressions of the fields reads index \<open>i\<close> of container \<open>c\<close>.\<close>

definition accessed :: "bool \<Rightarrow> pyval list \<Rightarrow> string \<Rightarrow> nat \<Rightarrow> bool" where
  "accessed b flds c i \<longleftrightarrow> (\<exists>f \<in> set flds. \<exists>p. py_item f ''ros'' = Inr (PStr p) \<and>
     (c, i) \<in> set (path_accesses p ''msg'' b))"

lemma req_of_zero: "req_of reqs c = 0 \<Longrightarrow> \<forall>(x, n) \<in> set reqs. 0 < n \<Longrightarrow> c \<notin> fst ` set reqs"
  by (force simp: req_of_def split: option.splits dest: map_of_SomeD simp: map_of_eq_None_iff)

lemma update_pos:
  "\<forall>x \<in> set reqs. 0 < snd x \<Longrightarrow> (0 :: nat) < v \<Longrightarrow> \<forall>x \<in> set (AList.update e v reqs). 0 < snd x"
  by (induction reqs) auto

lemma req_max_pos: "\<forall>x \<in> set reqs. 0 < snd x \<Longrightarrow> 0 < n \<Longrightarrow> \<forall>x \<in> set (req_max e n reqs). 0 < snd x"
  unfolding req_max_def by (rule update_pos) (auto simp: max_def)

lemma merge_pos:
  "\<forall>x \<in> set dest. 0 < snd x \<Longrightarrow> \<forall>x \<in> set ups. 0 < snd x \<Longrightarrow>
     \<forall>x \<in> set (merge_vector_requirements dest ups). 0 < snd x"
proof (induction ups arbitrary: dest)
  case (Cons u us)
  obtain e n where u: "u = (e, n)" by (cases u)
  have "\<forall>x \<in> set (req_max e n dest). 0 < snd x" using Cons.prems u by (intro req_max_pos) auto
  from Cons.IH [OF this] Cons.prems(2) show ?case by (simp add: u merge_Cons)
qed (simp add: merge_vector_requirements_def)

lemma analyze_segments_pos:
  "analyze_segments p i e reqs segs = Inr (acc, reqs') \<Longrightarrow> \<forall>x \<in> set reqs. 0 < snd x \<Longrightarrow> \<forall>x \<in> set reqs'. 0 < snd x"
proof (induction segs arbitrary: i e reqs)
  case (Cons seg segs)
  from Cons.prems(1) obtain name idx where g: "segment_groups seg = Some (name, idx)"
    by (auto split: option.splits)
  show ?case
  proof (cases idx)
    case None
    with Cons.prems(1) g have "analyze_segments p (Suc i) (e @ separator p i @ name) reqs segs = Inr (acc, reqs')"
      by (simp add: Let_def)
    then show ?thesis by (rule Cons.IH) (rule Cons.prems(2))
  next
    case (Some ds)
    let ?b = "e @ separator p i @ name"
    from Some Cons.prems(1) g have "analyze_segments p (Suc i) (?b @ ''['' @ ds @ '']'')
        (req_max ?b (digits_val ds + 1) reqs) segs = Inr (acc, reqs')"
      by (simp add: Let_def)
    then show ?thesis by (rule Cons.IH) (rule req_max_pos [OF Cons.prems(2)], simp)
  qed
qed simp

lemma paths_fold_tight:
  "foldE (path_step b) flds (es, reqs) = Inr (es', reqs') \<Longrightarrow> \<forall>x \<in> set reqs. 0 < snd x \<Longrightarrow>
     (\<forall>x \<in> set reqs'. 0 < snd x) \<and>
     (\<forall>c. req_of reqs' c = req_of reqs c \<or> (\<exists>i. accessed b flds c i \<and> req_of reqs' c = i + 1))"
proof (induction flds arbitrary: es reqs)
  case (Cons f flds)
  from Cons.prems(1) obtain es1 reqs1 where one: "path_step b f (es, reqs) = Inr (es1, reqs1)"
    and rest: "foldE (path_step b) flds (es1, reqs1) = Inr (es', reqs')"
    by (auto simp: bindE_eq_Inr)
  from path_step_reqs [OF one] obtain p a rs where p: "py_item f ''ros'' = Inr (PStr p)"
    "analyze_ros_path p ''msg'' b = Inr (a, rs)" "reqs1 = merge_vector_requirements reqs rs" .
  have "\<forall>x \<in> set rs. 0 < snd x"
    using analyze_segments_pos [OF p(2) [unfolded analyze_ros_path_def]] by simp
  then have pos: "\<forall>x \<in> set reqs1. 0 < snd x" unfolding p(3) using Cons.prems(2) by (intro merge_pos)
  have m: "req_of reqs1 c = max (req_of reqs c) (req_of rs c)" for c
    unfolding p(3) by (rule req_of_merge [OF analyze_distinct [OF p(2)]])
  have one_step: "req_of reqs1 c = req_of reqs c \<or> (\<exists>i. accessed b (f # flds) c i \<and> req_of reqs1 c = i + 1)" for c
  proof (cases "req_of rs c = 0")
    case False
    have "req_of rs c = fold (\<lambda>(b, k) m. if b = c then max m (k + 1) else m) (path_accesses p ''msg'' b) 0"
      using analyze_segments_reqs [OF p(2) [unfolded analyze_ros_path_def], of c]
      by (simp add: path_accesses_def req_of_def)
    from fold_max_tight [OF this [symmetric]] False obtain k where
      "(c, k) \<in> set (path_accesses p ''msg'' b)" "req_of rs c = k + 1" by auto
    with p(1) m [of c] show ?thesis by (auto simp: accessed_def max_def)
  qed (simp add: m)
  have "req_of reqs' c = req_of reqs c \<or> (\<exists>i. accessed b (f # flds) c i \<and> req_of reqs' c = i + 1)" for c
  proof -
    have more: "accessed b flds c i \<Longrightarrow> accessed b (f # flds) c i" for i by (auto simp: accessed_def)
    from Cons.IH [OF rest pos] have "req_of reqs' c = req_of reqs1 c \<or>
        (\<exists>i. accessed b flds c i \<and> req_of reqs' c = i + 1)" by blast
    then show ?thesis using one_step [of c] more by metis
  qed
  with Cons.IH [OF rest pos] show ?case by blast
qed (simp)

lemma requirements_exact:
  assumes "field_paths b flds = Inr (es, reqs)"
  shows "(c, n) \<in> set (sorted_requirements reqs) \<longleftrightarrow>
    (\<exists>i. accessed b flds c i \<and> n = i + 1) \<and> (\<forall>i. accessed b flds c i \<longrightarrow> i < n)"
proof -
  note fold = assms [unfolded field_paths_def]
  have dist: "distinct (map fst reqs)" using paths_fold [OF fold] by simp
  have tight: "(\<forall>x \<in> set reqs. 0 < snd x)"
    "req_of reqs c = 0 \<or> (\<exists>i. accessed b flds c i \<and> req_of reqs c = i + 1)"
    using paths_fold_tight [OF fold] by (simp_all add: req_of_def [of "[]"])
  have cover: "i < req_of reqs c" if "accessed b flds c i" for i
    using paths_fold [OF fold] that by (fastforce simp: accessed_def)
  have mem: "(c, n) \<in> set reqs \<longleftrightarrow> 0 < n \<and> req_of reqs c = n"
  proof
    assume "(c, n) \<in> set reqs"
    with dist tight(1) show "0 < n \<and> req_of reqs c = n" by (force simp: req_of_def)
  next
    assume "0 < n \<and> req_of reqs c = n"
    then show "(c, n) \<in> set reqs" using req_of_mem [of reqs c] by auto
  qed
  have "(0 < n \<and> req_of reqs c = n) \<longleftrightarrow>
      (\<exists>i. accessed b flds c i \<and> n = i + 1) \<and> (\<forall>i. accessed b flds c i \<longrightarrow> i < n)"
  proof
    assume "0 < n \<and> req_of reqs c = n"
    with tight(2) cover show "(\<exists>i. accessed b flds c i \<and> n = i + 1) \<and> (\<forall>i. accessed b flds c i \<longrightarrow> i < n)"
      by auto
  next
    assume r: "(\<exists>i. accessed b flds c i \<and> n = i + 1) \<and> (\<forall>i. accessed b flds c i \<longrightarrow> i < n)"
    then obtain i where i: "accessed b flds c i" "n = i + 1" by blast
    with cover have "i < req_of reqs c" by blast
    with tight(2) obtain j where "accessed b flds c j" "req_of reqs c = j + 1" by auto
    with r i \<open>i < req_of reqs c\<close> have "req_of reqs c = n" by (metis Suc_eq_plus1 less_Suc_eq_le le_antisym Suc_leI)
    with i(2) show "0 < n \<and> req_of reqs c = n" by simp
  qed
  then show ?thesis by (simp only: sorted_requirements_def set_sort mem)
qed

end
