(* ===== verification/Regenerate.thy ===== *)
theory Regenerate
  imports Pipeline
begin

text \<open>
  Running the generator over the files of an earlier run: which paths a run touches, that the
  USER CODE blocks of both C files come through, and that a second run changes nothing.
\<close>

section \<open>The paths a run touches\<close>

lemma generated_name: "name \<in> set GENERATED_NAMES \<Longrightarrow> generated_path out name \<in> generated_files out"
  by (simp add: generated_files_def)

lemma write_all_other:
  assumes "q \<notin> generated_files out" and "q \<notin> tmp_path ` generated_files out"
  shows "write_all out hs ss cs bs ds fs q = fs q"
  using assms unfolding generated_files_def GENERATED_NAMES_def write_all_def Let_def
  by (simp add: write_segments_other)

lemma write_all_exists:
  assumes "p \<in> generated_files out"
  shows "write_all out hs ss cs bs ds fs p \<noteq> None"
proof -
  have ex: "\<exists>t. write_segments fs q b segs q = Some t" for fs q b segs
    using write_segments_exists by fastforce
  from assms consider "p = generated_path out ''protocol.h''" | "p = generated_path out ''protocol.c''"
    | "p = generated_path out ''generated_config.hpp''" | "p = generated_path out ''generated_bindings.hpp''"
    | "p = generated_path out ''PROTOCOL_DOC.md''"
    by (auto simp: generated_files_def GENERATED_NAMES_def)
  then show ?thesis
    unfolding write_all_def Let_def
    by cases (simp_all add: ex write_segments_other generated_path_eq generated_path_tmp)
qed

section \<open>Blocks\<close>

lemma generated_path_disjoint:
  "generated_path out ''protocol.c'' \<noteq> generated_path out ''protocol.h''"
  "generated_path out ''protocol.c'' \<noteq> tmp_path (generated_path out ''protocol.h'')"
  "generated_path out ''protocol.h'' \<noteq> tmp_path (generated_path out ''protocol.c'')"
  by (simp_all add: generated_path_eq generated_path_tmp)

lemma write_all_header:
  "write_all out hs ss cs bs ds fs (generated_path out ''protocol.h'') =
     write_segments fs (generated_path out ''protocol.h'')
       (extract_user_code fs (generated_path out ''protocol.h'')) hs (generated_path out ''protocol.h'')"
  unfolding write_all_def Let_def
  by (simp add: write_segments_other generated_path_eq generated_path_tmp)

lemma write_all_source:
  "write_all out hs ss cs bs ds fs (generated_path out ''protocol.c'') =
     (let fs1 = write_segments fs (generated_path out ''protocol.h'')
            (extract_user_code fs (generated_path out ''protocol.h'')) hs
      in write_segments fs1 (generated_path out ''protocol.c'')
           (extract_user_code fs1 (generated_path out ''protocol.c'')) ss (generated_path out ''protocol.c''))"
  unfolding write_all_def Let_def
  by (simp add: write_segments_other generated_path_eq generated_path_tmp)

lemma extract_cong: "fs p = fs' p \<Longrightarrow> extract_user_code fs p = extract_user_code fs' p"
  by (simp add: extract_user_code_def read_text_def)

lemma write_all_header_blocks:
  assumes "quiet_code (Inr hs)" and "k \<in> set (block_keys (Inr hs))"
  shows "map_of (extract_user_code (write_all out hs ss cs bs ds fs) (generated_path out ''protocol.h'')) k
    = Some (block_content (extract_user_code fs (generated_path out ''protocol.h'')) k)"
proof -
  let ?p = "generated_path out ''protocol.h''"
  have "extract_user_code (write_all out hs ss cs bs ds fs) ?p
      = extract_user_code (write_segments fs ?p (extract_user_code fs ?p) hs) ?p"
    by (rule extract_cong) (rule write_all_header)
  with regenerate_keeps_blocks [OF assms, of fs ?p] show ?thesis by simp
qed

lemma write_all_source_blocks:
  assumes "quiet_code (Inr ss)" and "k \<in> set (block_keys (Inr ss))"
  shows "map_of (extract_user_code (write_all out hs ss cs bs ds fs) (generated_path out ''protocol.c'')) k
    = Some (block_content (extract_user_code fs (generated_path out ''protocol.c'')) k)"
proof -
  let ?h = "generated_path out ''protocol.h''" and ?p = "generated_path out ''protocol.c''"
  let ?fs1 = "write_segments fs ?h (extract_user_code fs ?h) hs"
  have "extract_user_code (write_all out hs ss cs bs ds fs) ?p
      = extract_user_code (write_segments ?fs1 ?p (extract_user_code ?fs1 ?p) ss) ?p"
    by (rule extract_cong) (simp only: write_all_source Let_def)
  moreover have "extract_user_code ?fs1 ?p = extract_user_code fs ?p"
    by (rule extract_other) (rule generated_path_disjoint)+
  ultimately show ?thesis using regenerate_keeps_blocks [OF assms, of ?fs1 ?p] by simp
qed

section \<open>A second run\<close>

text \<open>A path whose file already holds the text it would be given: writing is the identity.\<close>

definition settled :: "fs \<Rightarrow> string \<Rightarrow> string \<Rightarrow> bool" where
  "settled fs p t \<longleftrightarrow> read_text fs p = Some t \<or> (fs p = Some t \<and> fs (tmp_path p) = None)"

lemma settled_write: "settled fs p t \<Longrightarrow> write_generated_file fs p t = fs"
  by (auto simp: settled_def write_generated_file_def Let_def fun_eq_iff)

lemma settled_after: "settled (write_generated_file fs p t) p t"
  by (auto simp: settled_def write_generated_file_def Let_def)

lemma write_generated_file_other:
  "q \<noteq> p \<Longrightarrow> q \<noteq> tmp_path p \<Longrightarrow> write_generated_file fs p t q = fs q"
  by (simp add: write_generated_file_def Let_def)

lemma settled_other:
  assumes "q \<noteq> p" and "q \<noteq> tmp_path p" and "p \<noteq> tmp_path q"
  shows "settled (write_generated_file fs p t) q u \<longleftrightarrow> settled fs q u"
  using assms by (simp add: settled_def read_text_def write_generated_file_other tmp_path_def)

lemma settled_segments:
  "settled fs p (render b segs) \<Longrightarrow> write_segments fs p b segs = fs"
  by (simp add: write_segments_def settled_write)

lemma settled_segments_after: "settled (write_segments fs p b segs) p (render b segs)"
  by (simp add: write_segments_def settled_after)

lemma settled_generated_other:
  assumes "a \<noteq> b" and "a \<noteq> b @ ''.tmp''" and "b \<noteq> a @ ''.tmp''"
  shows "settled (write_segments fs (generated_path out b) ub segs) (generated_path out a) u
     \<longleftrightarrow> settled fs (generated_path out a) u"
  unfolding write_segments_def
  by (rule settled_other) (use assms in \<open>auto simp: generated_path_eq generated_path_tmp\<close>)

lemma fixpoint_at:
  assumes "quiet_code (Inr segs)"
    and "fs' p = write_segments fs p (extract_user_code fs p) segs p"
  shows "render (extract_user_code fs' p) segs = render (extract_user_code fs p) segs"
proof -
  let ?b = "extract_user_code fs p" and ?w = "write_segments fs p (extract_user_code fs p) segs"
  have "read_text ?w p = Some (render ?b segs)"
    unfolding write_segments_def
    by (rule gen_store.read_write_same) (rule render_no_cr [OF assms(1) extract_no_cr])
  with assms(2) have "read_text fs' p = Some (render ?b segs)" by (simp add: read_text_def)
  then show ?thesis
    using quiet_fixpoint [OF assms(1) extract_clean]
    by (simp add: extract_user_code_def [of fs'])
qed

lemma write_all_idem:
  assumes "quiet_code (Inr hs)" and "quiet_code (Inr ss)"
  shows "write_all out hs ss cs bs ds (write_all out hs ss cs bs ds fs) = write_all out hs ss cs bs ds fs"
proof -
  let ?h = "generated_path out ''protocol.h''" and ?c = "generated_path out ''protocol.c''"
  let ?f = "write_all out hs ss cs bs ds fs"
  define fs1 where "fs1 = write_segments fs ?h (extract_user_code fs ?h) hs"
  define rh where "rh = render (extract_user_code fs ?h) hs"
  define rc where "rc = render (extract_user_code fs1 ?c) ss"
  have f: "?f = write_segments (write_segments (write_segments
      (write_segments fs1 ?c (extract_user_code fs1 ?c) ss)
        (generated_path out ''generated_config.hpp'') [] cs)
      (generated_path out ''generated_bindings.hpp'') [] bs) (generated_path out ''PROTOCOL_DOC.md'') [] ds"
    by (simp add: write_all_def Let_def fs1_def)
  have "settled fs1 ?h rh" unfolding fs1_def rh_def by (rule settled_segments_after)
  then have h: "settled ?f ?h rh" unfolding f by (simp add: settled_generated_other)
  have c: "settled ?f ?c rc"
    unfolding f rc_def using settled_segments_after by (simp add: settled_generated_other)
  have rest: "settled ?f (generated_path out ''generated_config.hpp'') (render [] cs)"
    "settled ?f (generated_path out ''generated_bindings.hpp'') (render [] bs)"
    "settled ?f (generated_path out ''PROTOCOL_DOC.md'') (render [] ds)"
    unfolding f using settled_segments_after by (simp_all add: settled_generated_other)
  have "render (extract_user_code ?f ?h) hs = rh"
    unfolding rh_def by (rule fixpoint_at [OF assms(1)]) (rule write_all_header)
  then have 1: "write_segments ?f ?h (extract_user_code ?f ?h) hs = ?f"
    using h by (intro settled_segments) simp
  have "render (extract_user_code ?f ?c) ss = rc"
    unfolding rc_def
    by (rule fixpoint_at [OF assms(2)]) (simp add: write_all_source Let_def fs1_def)
  then have 2: "write_segments ?f ?c (extract_user_code ?f ?c) ss = ?f"
    using c by (intro settled_segments) simp
  show ?thesis
    by (subst write_all_def) (simp only: Let_def 1 2 settled_segments [OF rest(1)]
        settled_segments [OF rest(2)] settled_segments [OF rest(3)])
qed

section \<open>Generated configurations are quiet\<close>

lemma generate_all_quiet:
  assumes "protocol_ok v" and "py_get v ''type_mappings'' (PDict []) = Inr tm"
    and "system_types supported_type tm"
  shows "\<exists>hs ss cs bs ds ms. merge_messages v = Inr ms \<and>
     quiet_code (Inr hs) \<and> block_keys (Inr hs) = [''Includes'', ''Private_Defines'', ''User_Types''] \<and>
     quiet_code (Inr ss) \<and> block_keys (Inr ss) =
       [''Includes'', ''Private_Variables''] @ map callback_key ms @ [''Code_0'', ''Code_1''] \<and>
     (\<forall>fs. generate_all ld dp v out fs = Inr (write_all out hs ss cs bs ds fs))"
proof -
  from generate_all_writes [OF assms(1), of ld dp out]
  obtain hs ss cs bs ds cfg tm' ms hash where g: "py_get v ''type_mappings'' (PDict []) = Inr tm'"
    "header_config cfg" "merge_messages v = Inr ms" "ms \<noteq> []"
    "system_types supported_type tm' \<longrightarrow> (\<forall>m \<in> set ms. msg_shape supported_type tm' m)"
    "mcu_header_segs cfg ms tm' hash = Inr hs" "mcu_source_segs cfg ms tm' = Inr ss"
    "\<forall>fs. generate_all ld dp v out fs = Inr (write_all out hs ss cs bs ds fs)"
    by blast
  have tm: "tm' = tm" using g(1) assms(2) by simp
  with g(5) assms(3) have shp: "\<forall>m \<in> set ms. msg_shape supported_type tm m" by blast
  from header_quiet [OF g(2) shp, of hash] source_quiet [OF g(2) shp g(4)] g tm
  show ?thesis by (intro exI [of _ hs] exI [of _ ss] exI [of _ cs] exI [of _ bs] exI [of _ ds]
        exI [of _ ms]) simp
qed

end
