(* ===== verification/ValidateComplete.thy ===== *)
theory ValidateComplete
  imports ValidateRun
begin

text \<open>
  The converse of \<open>ValidateSound\<close>: a well-formed configuration passes \<open>validate_protocol\<close> and
  comes back unchanged. Together the two say what the checks accept, and that validating a
  validated configuration again is the identity.
\<close>

section \<open>One check at a time\<close>

lemma dict_set_same: "dict_find d k = Some v \<Longrightarrow> dict_set d k v = d"
  by (induction d k v rule: dict_set.induct) (auto split: if_splits)

lemma direction_accepts:
  "dict_find d (K ''direction'') = Some (PStr s) \<Longrightarrow> PStr s \<in> set VALID_DIRECTIONS \<Longrightarrow>
     direction_errs label d = Inr []"
  by (simp add: direction_errs_def dget_find)

lemma debug_accepts:
  assumes "dget d ''debug_log_mode'' PNone \<in> {PStr ''on'', PStr ''off''}"
  shows "debug_errs label d = []" "debug_update d = d"
proof -
  from assms obtain m where m: "m = ''on'' \<or> m = ''off''"
    and find: "dict_find d (K ''debug_log_mode'') = Some (PStr m)"
    using dget_not_None [of d "''debug_log_mode''"] by auto
  have n: "normalize_debug_log_mode (PStr ''on'') = ''on''" "normalize_debug_log_mode (PStr ''off'') = ''off''"
    by (simp_all add: normalize_debug_log_mode_def strip_def is_space_def lower_def lower_char_def is_upper_def)
  have mode: "debug_mode_of d = m" using find m n by (auto simp: debug_mode_of_def dget_find)
  then show "debug_errs label d = []" using m by (auto simp: debug_errs_def valid_debug_mode_def)
  show "debug_update d = d"
    using mode m dict_set_same [OF find] by (auto simp: debug_update_def valid_debug_mode_def)
qed

lemma reliable_accepts:
  assumes "dget d ''reliable'' (PBool False) = PBool b" and "dict_find d (K ''direction'') = Some (PStr s)"
    and "b \<longrightarrow> s = ''tx''"
  shows "reliable_errs label d = []"
  using assms by (auto simp: reliable_errs_def dget_def dhas_def split: option.splits)

lemma id_accepts:
  assumes "dict_find d (K ''id'') = Some (PInt i)" and "0 \<le> i" and "i \<le> 252" and "i \<notin> fst ` set (seen_ids st)"
  shows "check_id label d st = st\<lparr>seen_ids := seen_ids st @ [(i, label)]\<rparr>"
proof -
  have "map_of (seen_ids st) i = None" using assms(4) by (simp add: map_of_eq_None_iff)
  with assms(1-3) show ?thesis
    by (simp add: check_id_def dget_find byte_int_def RESERVED_IDS_eq Let_def)
qed

lemma name_accepts:
  assumes "dict_find d (K ''name'') = Some (PStr n)" and "fullmatch identifier_re n"
    and "n \<notin> set SYSTEM_MESSAGE_NAMES" and "n \<notin> set (seen_names st)" and "upper n \<notin> fst ` set (seen_symbols st)"
  shows "check_name d st = st\<lparr>seen_names := seen_names st @ [n],
           seen_symbols := seen_symbols st @ [(upper n, n)]\<rparr>"
proof -
  have "map_of (seen_symbols st) (upper n) = None" using assms(5) by (simp add: map_of_eq_None_iff)
  with assms(1-4) show ?thesis by (simp add: check_name_def dget_find Let_def)
qed

lemma ros_msg_accepts:
  "dict_find d (K ''ros_msg'') = Some (PStr r) \<Longrightarrow> fullmatch ros_msg_re r \<Longrightarrow> ros_msg_errs label d = []"
  by (simp add: ros_msg_errs_def str_match_def dget_find)

lemma topics_accept:
  assumes "dict_find d (K ''direction'') = Some (PStr s)"
    and "sends (PStr s) \<longrightarrow> topic_ok d ''sub_topic''" and "receives (PStr s) \<longrightarrow> topic_ok d ''pub_topic''"
    and "\<forall>k \<in> {''sub_topic'', ''pub_topic''}. dhas d k \<longrightarrow> topic_ok d k"
    and "s = ''both'' \<longrightarrow> dget d ''sub_topic'' PNone \<noteq> dget d ''pub_topic'' PNone"
  shows "topic_errs label d = []"
proof -
  have "sends (PStr s) \<longrightarrow> dhas d ''sub_topic''" "receives (PStr s) \<longrightarrow> dhas d ''pub_topic''"
    using assms(2,3) by (auto simp: topic_ok_def dhas_def)
  moreover have "str_match topic_fullmatch (dget d k PNone)"
    if "dhas d k" "k \<in> {''sub_topic'', ''pub_topic''}" for k
    using assms(4) that by (auto simp: topic_ok_def str_match_def dget_find)
  moreover have "\<not> (s = ''both'' \<and> norm_key (dget d ''sub_topic'' PNone) = norm_key (dget d ''pub_topic'' PNone))"
  proof
    assume both: "s = ''both'' \<and> norm_key (dget d ''sub_topic'' PNone) = norm_key (dget d ''pub_topic'' PNone)"
    with assms(2,3) obtain t u where "dget d ''sub_topic'' PNone = PStr t" "dget d ''pub_topic'' PNone = PStr u"
      by (auto simp: sends_def receives_def topic_ok_def dget_find)
    with both assms(5) show False by simp
  qed
  ultimately show ?thesis
    using assms(1) by (auto simp: topic_errs_def Let_def dget_find)
qed

lemma topic_use_accepts:
  assumes "set (topic_uses ''sub_topic'' (PDict d)) \<inter> fst ` set (seen_sub st) = {}"
    and "set (topic_uses ''pub_topic'' (PDict d)) \<inter> fst ` set (seen_pub st) = {}"
  shows "errors (check_topic_use label d st) = errors st"
    and "map fst (seen_sub (check_topic_use label d st)) = map fst (seen_sub st) @ topic_uses ''sub_topic'' (PDict d)"
    and "map fst (seen_pub (check_topic_use label d st)) = map fst (seen_pub st) @ topic_uses ''pub_topic'' (PDict d)"
    and "seen_names (check_topic_use label d st) = seen_names st"
proof -
  have n: "map_of (seen_sub st) t = None" if "dget d ''sub_topic'' PNone = PStr t" for t
    using assms(1) that by (simp add: topic_uses_def map_of_eq_None_iff)
  have m: "map_of (seen_pub st) t = None" if "dget d ''pub_topic'' PNone = PStr t" for t
    using assms(2) that by (simp add: topic_uses_def map_of_eq_None_iff)
  show "errors (check_topic_use label d st) = errors st"
    "map fst (seen_sub (check_topic_use label d st)) = map fst (seen_sub st) @ topic_uses ''sub_topic'' (PDict d)"
    "map fst (seen_pub (check_topic_use label d st)) = map fst (seen_pub st) @ topic_uses ''pub_topic'' (PDict d)"
    "seen_names (check_topic_use label d st) = seen_names st"
    using n m by (simp_all add: check_topic_use_def Let_def topic_uses_def split: pyval.splits)
qed

lemma field_accepts:
  assumes "field_ok tm f" and "str_item ''proto'' f \<notin> set seen"
  shows "field_step tm label f ([], seen) = Inr ([], seen @ [str_item ''proto'' f])"
proof -
  from assms(1) obtain d n t s p r where f: "f = PDict d"
    "dict_find d (K ''proto'') = Some (PStr n)" "fullmatch identifier_re n"
    "\<not> is_reserved_c_cpp_identifier n" "dict_find d (K ''type'') = Some t" "get_c_type t tm = Inr (PStr s)"
    "s \<in> fst ` set C_TYPE_SIZES" "dict_find d (K ''ros'') = Some (PStr p)"
    "analyze_ros_path p ''msg'' True = Inr r" unfolding field_ok_def by blast
  have item: "str_item ''proto'' f = n" using f by (simp add: str_item_def)
  have "p \<noteq> []" using f(9) by (auto simp: analyze_ros_path_def segment_groups_def segment_re_def)
  then have "field_ros_errs label d = []" using f by (simp add: field_ros_errs_def dget_find)
  moreover have "PStr s \<in> set (map (\<lambda>(s, _). PStr s) C_TYPE_SIZES)" using f(7) by force
  then have "field_type_errs tm label d = Inr []"
    using f(5,6) by (simp add: field_type_errs_def dget_find Let_def)
  ultimately show ?thesis
    using f assms(2) item by (simp add: field_step_def field_name_step_def dget_find)
qed

lemma fields_fold_accepts:
  "\<forall>f \<in> set fs. field_ok tm f \<Longrightarrow> distinct (seen @ map (str_item ''proto'') fs) \<Longrightarrow>
     foldE (field_step tm label) fs ([], seen) = Inr ([], seen @ map (str_item ''proto'') fs)"
proof (induction fs arbitrary: seen)
  case (Cons f fs)
  have "field_step tm label f ([], seen) = Inr ([], seen @ [str_item ''proto'' f])"
    by (rule field_accepts) (use Cons.prems in auto)
  moreover have "distinct ((seen @ [str_item ''proto'' f]) @ map (str_item ''proto'') fs)"
    using Cons.prems(2) by simp
  ultimately show ?case using Cons.IH Cons.prems(1) by simp
qed simp

lemma fields_accept:
  assumes "fields_ok tm d"
  shows "fields_errs tm label d = Inr []"
proof -
  from assms obtain fs where fs: "dict_find d (K ''fields'') = Some (PList fs)" "fs \<noteq> []"
    "\<forall>f \<in> set fs. field_ok tm f" "distinct (map (str_item ''proto'') fs)"
    unfolding fields_ok_def by blast
  then show ?thesis
    using fields_fold_accepts [of fs tm "[]" label]
    by (simp add: fields_errs_def dget_find err_if_def)
qed

section \<open>One message\<close>

definition taken :: "pyval list \<Rightarrow> vstate \<Rightarrow> bool" where
  "taken ms st \<longleftrightarrow> errors st = [] \<and> checked st = ms \<and>
     map fst (seen_ids st) = map msg_id ms \<and>
     map fst (seen_symbols st) = map upper SYSTEM_MESSAGE_NAMES @ map (\<lambda>m. upper (msg_name m)) ms \<and>
     (\<forall>n \<in> set (seen_names st). upper n \<in> fst ` set (seen_symbols st)) \<and>
     map fst (seen_sub st) = concat (map (topic_uses ''sub_topic'') ms) \<and>
     map fst (seen_pub st) = concat (map (topic_uses ''pub_topic'') ms)"

lemma set_fst: "map fst xs = ys \<Longrightarrow> fst ` set xs = set ys"
  by (metis set_map)

lemma check_message_accepts:
  assumes ok: "message_ok tm m" and st: "taken ms st"
    and id: "msg_id m \<notin> msg_id ` set ms"
    and nm: "upper (msg_name m) \<notin> set (map upper SYSTEM_MESSAGE_NAMES @ map (\<lambda>m. upper (msg_name m)) ms)"
    and sub: "set (topic_uses ''sub_topic'' m) \<inter> set (concat (map (topic_uses ''sub_topic'') ms)) = {}"
    and pub: "set (topic_uses ''pub_topic'' m) \<inter> set (concat (map (topic_uses ''pub_topic'') ms)) = {}"
  shows "\<exists>st'. check_message tm (i, m) st = Inr st' \<and> taken (ms @ [m]) st'"
proof -
  from ok obtain d n j s b r w where m: "m = PDict d"
    and n: "dict_find d (K ''name'') = Some (PStr n)" "fullmatch identifier_re n" "n \<notin> set SYSTEM_MESSAGE_NAMES"
    and j: "dict_find d (K ''id'') = Some (PInt j)" "0 \<le> j" "j \<le> 252"
    and s: "dict_find d (K ''direction'') = Some (PStr s)" "PStr s \<in> set VALID_DIRECTIONS"
    and dbg: "dget d ''debug_log_mode'' PNone \<in> {PStr ''on'', PStr ''off''}"
    and b: "dget d ''reliable'' (PBool False) = PBool b" "b \<longrightarrow> s = ''tx''"
    and r: "dict_find d (K ''ros_msg'') = Some (PStr r)" "fullmatch ros_msg_re r"
    and t: "sends (PStr s) \<longrightarrow> topic_ok d ''sub_topic''" "receives (PStr s) \<longrightarrow> topic_ok d ''pub_topic''"
      "\<forall>k \<in> {''sub_topic'', ''pub_topic''}. dhas d k \<longrightarrow> topic_ok d k"
      "s = ''both'' \<longrightarrow> dget d ''sub_topic'' PNone \<noteq> dget d ''pub_topic'' PNone"
    and f: "fields_ok tm d" and w: "message_wire_payload_size m tm = Inr w" "w \<le> 255"
    unfolding message_ok_def by (elim exE conjE) (rule that; assumption)
  from f have fk: "dhas d ''fields''" by (auto simp: fields_ok_def dhas_def)
  have req: "required_errs label d = []" for label
    using fk by (simp add: required_errs_def dhas_def n(1) j(1) s(1) r(1) err_if_def)
  have ids: "msg_id m = j" "msg_name m = n" by (simp_all add: m n(1) j(1) int_item_def str_item_def)
  note keys = set_fst [of "seen_ids st" "map msg_id ms"]
    set_fst [of "seen_symbols st" "map upper SYSTEM_MESSAGE_NAMES @ map (\<lambda>m. upper (msg_name m)) ms"]
    set_fst [of "seen_sub st"] set_fst [of "seen_pub st"]
  let ?label = "PStr n"
  have 1: "check_id ?label d st = st\<lparr>seen_ids := seen_ids st @ [(j, ?label)]\<rparr>"
    using st id ids keys(1) by (intro id_accepts [OF j]) (auto simp: taken_def)
  let ?st1 = "st\<lparr>seen_ids := seen_ids st @ [(j, ?label)]\<rparr>"
  have "upper n \<notin> fst ` set (seen_symbols st)" using st nm ids keys(2) by (simp add: taken_def)
  moreover from this have "n \<notin> set (seen_names st)" using st by (auto simp: taken_def)
  ultimately have 2: "check_name d ?st1 = ?st1\<lparr>seen_names := seen_names st @ [n],
      seen_symbols := seen_symbols st @ [(upper n, n)]\<rparr>"
    using name_accepts [OF n, of ?st1] by simp
  let ?st2 = "?st1\<lparr>seen_names := seen_names st @ [n], seen_symbols := seen_symbols st @ [(upper n, n)]\<rparr>"
  have "set (topic_uses ''sub_topic'' (PDict d)) \<inter> fst ` set (seen_sub ?st2) = {}"
    "set (topic_uses ''pub_topic'' (PDict d)) \<inter> fst ` set (seen_pub ?st2) = {}"
    using st sub pub m keys(3,4) by (simp_all add: taken_def)
  note 3 = topic_use_accepts [OF this, of ?label]
  have add: "add_errs [] st = st" for st by (simp add: add_errs_def)
  have "wire_errs tm ?label d = Inr []"
    using w m by (simp add: wire_errs_def err_if_def)
  then have run: "check_message tm (i, m) st = Inr (let st4 = check_topic_use ?label d ?st2
      in st4\<lparr>checked := checked st4 @ [PDict d]\<rparr>)"
    by (simp add: m check_message_def dget_find [OF n(1)] direction_accepts [OF s] debug_accepts [OF dbg]
        reliable_accepts [OF b(1) s(1) b(2)] ros_msg_accepts [OF r] topics_accept [OF s(1) t]
        fields_accept [OF f] add Let_def req 1 2)
  have "taken (ms @ [m]) (let st4 = check_topic_use ?label d ?st2
      in st4\<lparr>checked := checked st4 @ [PDict d]\<rparr>)"
    using st unfolding taken_def Let_def by (simp add: 3 ids m [symmetric])
  with run show ?thesis by blast
qed

lemma message_loop_accepts:
  "taken ms0 st \<Longrightarrow> \<forall>m \<in> set ms. message_ok tm m \<Longrightarrow> distinct (map msg_id (ms0 @ ms)) \<Longrightarrow>
     distinct (map upper SYSTEM_MESSAGE_NAMES @ map (\<lambda>m. upper (msg_name m)) (ms0 @ ms)) \<Longrightarrow>
     distinct (concat (map (topic_uses ''sub_topic'') (ms0 @ ms))) \<Longrightarrow>
     distinct (concat (map (topic_uses ''pub_topic'') (ms0 @ ms))) \<Longrightarrow>
     \<exists>st'. foldE (check_message tm) (enumerate k ms) st = Inr st' \<and> taken (ms0 @ ms) st'"
proof (induction ms arbitrary: ms0 st k)
  case (Cons m ms)
  have "\<exists>st1. check_message tm (k, m) st = Inr st1 \<and> taken (ms0 @ [m]) st1"
    by (rule check_message_accepts [OF _ Cons.prems(1)]) (use Cons.prems(2-) in auto)
  then obtain st1 where st1: "check_message tm (k, m) st = Inr st1" "taken (ms0 @ [m]) st1" by blast
  have eq: "(ms0 @ [m]) @ ms = ms0 @ m # ms" by simp
  have "\<forall>m \<in> set ms. message_ok tm m" using Cons.prems(2) by simp
  from Cons.IH [OF st1(2) this, unfolded eq, OF Cons.prems(3-6)] show ?case using st1(1) by simp
qed simp

section \<open>The whole configuration\<close>

text \<open>Two keys a configuration must not have.\<close>

definition no_retired_keys :: "pyval \<Rightarrow> bool" where
  "no_retired_keys v \<longleftrightarrow> (let cfg = dict_items (dget (dict_items v) ''config'' (PDict [])) in
     \<not> dhas cfg ''baudrate'' \<and> \<not> dhas cfg ''enable_heartbeat'')"

lemma config_accepts:
  assumes "config_ok cfg params" and "\<not> dhas cfg ''baudrate''" "\<not> dhas cfg ''enable_heartbeat''"
  shows "config_errs cfg params = []" and "\<exists>c. dict_find cfg (K ''checksum'') = Some (PStr c) \<and> checksum_name cfg = c"
proof -
  from assms(1) obtain c where c: "dict_find cfg (K ''checksum'') = Some (PStr c)" "c \<in> set SUPPORTED_CHECKSUMS"
    unfolding config_ok_def by blast
  have "upper c = c" using c(2) unfolding SUPPORTED_CHECKSUMS_def
    by (auto simp: upper_def upper_char_def is_lower_def)
  then have name: "checksum_name cfg = c" using c(1) by (simp add: checksum_name_def dget_find)
  with c(1) show "\<exists>c. dict_find cfg (K ''checksum'') = Some (PStr c) \<and> checksum_name cfg = c" by blast
  have head: "byte_int (dget cfg k PNone)" if "k \<in> {''head_byte_1'', ''head_byte_2''}" for k
  proof -
    from assms(1) that obtain b where "dict_find cfg (K k) = Some (PInt b)" "0 \<le> b" "b \<le> 255"
      unfolding config_ok_def by blast
    then show ?thesis by (simp add: dget_find byte_int_def)
  qed
  have ints: "pos_int (dget cfg k (PInt dflt))" if "(k, dflt) \<in> set INT_OPTIONS" for k dflt
  proof -
    from assms(1) that obtain n where "dget cfg k (PInt dflt) = PInt n" "0 < n"
      unfolding config_ok_def by blast
    then show ?thesis by (simp add: pos_int_def)
  qed
  from assms(1) obtain n bd p where buf: "dict_find cfg (K ''buffer_size'') = Some (PInt n)" "0 < n"
    and bd: "dict_find params (K ''baudrate'') = Some (PInt bd)" "0 < bd"
    and p: "dict_find params (K ''port'') = Some (PStr p)" "p \<noteq> []"
    unfolding config_ok_def by blast
  from assms(1) obtain i t where it: "dget cfg ''heartbeat_interval_ms'' (PInt 1000) = PInt i"
    "dget cfg ''heartbeat_timeout_ms'' (PInt 3000) = PInt t" "i \<le> t"
    unfolding config_ok_def by blast
  have bools: "\<forall>k \<in> set BOOL_OPTIONS. is_bool (dget cfg k (PBool True))"
    using assms(1) unfolding config_ok_def by blast
  have "concat (map (\<lambda>(k, dflt). err_if (\<not> pos_int (dget cfg k (PInt dflt))) (NotPositive k)) INT_OPTIONS) = []"
    using ints by (auto simp: err_if_def)
  moreover have "concat (map (\<lambda>k. err_if (\<not> is_bool (dget cfg k (PBool True))) (NotBoolean k)) BOOL_OPTIONS) = []"
    using bools by (simp add: err_if_def)
  moreover have "timeout_errs cfg = []" using it by (simp add: timeout_errs_def)
  moreover have "pos_int (dget cfg ''buffer_size'' PNone)" "pos_int (dget params ''baudrate'' PNone)"
    "str_match (\<lambda>s. s \<noteq> []) (dget params ''port'' PNone)"
    using buf bd p by (simp_all add: dget_find pos_int_def str_match_def)
  moreover have "byte_int (dget cfg ''head_byte_1'' PNone)" "byte_int (dget cfg ''head_byte_2'' PNone)"
    using head by simp_all
  moreover have "checksum_name cfg \<in> set SUPPORTED_CHECKSUMS" using name c(2) by simp
  ultimately show "config_errs cfg params = []"
    using assms(2,3) by (simp add: config_errs_def err_if_def)
qed

lemma buffer_accepts:
  assumes "messages_ok tm ms" and "frames_fit cfg tm ms" and "dict_find cfg (K ''buffer_size'') = Some (PInt n)"
  shows "buffer_errs (PInt n) tm ms = Inr []"
proof -
  have ok: "\<forall>m \<in> set ms. message_ok tm m" using assms(1) unfolding messages_ok_def by blast
  then have "filter sizable ms = ms" using message_ok_sizable by (auto simp: filter_id_conv)
  moreover have "\<forall>m \<in> set ms. has_id m" using ok message_ok_has_id by blast
  ultimately have merge: "merge_messages (PDict [(K ''messages'', PList (filter sizable ms))])
      = Inr (sort_key msg_id (ms @ SYSTEM_MESSAGES))"
    by (intro merge_messages_eq) (simp_all add: dget_def)
  have fit: "\<exists>w. message_wire_payload_size m tm = Inr w \<and> w + 5 \<le> n" if "m \<in> set (ms @ SYSTEM_MESSAGES)" for m
    using assms(2,3) that unfolding frames_fit_def by fastforce
  let ?f = "\<lambda>m. bindE (message_wire_payload_size m tm) (\<lambda>w. Inr (w + 5))"
  have "\<forall>m \<in> set (sort_key msg_id (ms @ SYSTEM_MESSAGES)). \<exists>x. ?f m = Inr x" using fit by fastforce
  then obtain sizes where sizes: "mapE ?f (sort_key msg_id (ms @ SYSTEM_MESSAGES)) = Inr sizes"
    using mapE_total [of "sort_key msg_id (ms @ SYSTEM_MESSAGES)" ?f] by blast
  have "x \<le> n" if "x \<in> set sizes" for x
    using mapE_InrD2 [OF sizes that] fit by fastforce
  moreover have "0 < n \<Longrightarrow> foldl max 0 sizes \<le> n"
    using calculation by (simp add: foldl_max_ge)
  ultimately show ?thesis
    using merge sizes by (auto simp: buffer_errs_def largest_frame_def not_less)
qed

lemma validate_complete:
  assumes "protocol_ok v" and "no_retired_keys v"
  shows "validate_protocol v = Inr v"
proof -
  from assms(1) obtain cd cfg tm sc params ms where v: "v = PDict cd"
    "dict_find cd (K ''config'') = Some (PDict cfg)"
    "dget cd ''type_mappings'' (PDict []) = PDict tm"
    "dget cd ''serial_controller'' (PDict []) = PDict sc"
    "dget sc ''ros__parameters'' (PDict []) = PDict params"
    "dget cd ''messages'' (PList []) = PList ms"
    and ok: "config_ok cfg params" "messages_ok (PDict tm) ms" "frames_fit cfg (PDict tm) ms"
    unfolding protocol_ok_def by blast
  have "\<not> dhas cfg ''baudrate''" "\<not> dhas cfg ''enable_heartbeat''"
    using assms(2) v(1,2) by (simp_all add: no_retired_keys_def dget_find)
  note cfg = config_accepts [OF ok(1) this]
  from cfg(2) obtain c where c: "dict_find cfg (K ''checksum'') = Some (PStr c)" "checksum_name cfg = c" by blast
  from ok(1) obtain n where buf: "dict_find cfg (K ''buffer_size'') = Some (PInt n)"
    unfolding config_ok_def by blast
  have ms: "\<forall>m \<in> set ms. message_ok (PDict tm) m" "distinct (map msg_id (ms @ SYSTEM_MESSAGES))"
    "distinct (map (\<lambda>m. upper (msg_name m)) (ms @ SYSTEM_MESSAGES))"
    "distinct (concat (map (topic_uses ''sub_topic'') ms))" "distinct (concat (map (topic_uses ''pub_topic'') ms))"
    using ok(2) unfolding messages_ok_def by blast+
  have start: "taken [] (init_vstate [])" by (simp add: taken_def init_vstate_def comp_def)
  have "distinct (map upper SYSTEM_MESSAGE_NAMES @ map (\<lambda>m. upper (msg_name m)) ms)"
  proof -
    have "map (\<lambda>m. upper (msg_name m)) SYSTEM_MESSAGES = map upper SYSTEM_MESSAGE_NAMES"
      by (simp add: SYSTEM_MESSAGE_NAMES_def)
    with ms(3) show ?thesis unfolding map_append by (metis distinct_append inf_commute)
  qed
  moreover have "distinct (map msg_id ms)" using ms(2) unfolding map_append distinct_append by blast
  ultimately have "\<exists>st. foldE (check_message (PDict tm)) (enumerate 0 ms) (init_vstate []) = Inr st \<and> taken ([] @ ms) st"
    by (intro message_loop_accepts [OF start ms(1)]) (simp_all only: append_Nil ms(4,5))
  then obtain st where
    loop: "foldE (check_message (PDict tm)) (enumerate 0 ms) (init_vstate []) = Inr st" "taken ms st" by auto
  have "dict_set cfg (K ''checksum'') (PStr (checksum_name cfg)) = cfg" using dict_set_same [OF c(1)] c(2) by simp
  moreover have "dhas cd ''messages'' \<Longrightarrow> dict_find cd (K ''messages'') = Some (PList ms)"
    using v(6) by (auto simp: dhas_def dget_def)
  ultimately have upd: "updated_config cd cfg ms = cd"
    using v(2) dict_set_same [of cd "K ''messages''" "PList ms"] dict_set_same [of cd "K ''config''" "PDict cfg"]
    by (auto simp: updated_config_def Let_def dget_find)
  have none: "dget cfg ''buffer_size'' PNone = PInt n" using buf by (simp add: dget_find)
  show ?thesis
    using v loop cfg(1) upd buffer_accepts [OF ok(2,3) buf] none
    by (simp add: validate_protocol_def validate_run_def Let_def section_errs_def dget_find taken_def err_if_def)
qed

lemma validate_no_retired:
  assumes "validate_protocol v = Inr v'"
    and nn: "\<forall>m \<in> set (input_messages v). not_null ''id'' m \<and> not_null ''name'' m"
  shows "no_retired_keys v'"
proof -
  obtain cd where cd: "v = PDict cd"
    using assms(1) by (cases v) (auto simp: validate_protocol_def validate_run_def)
  define cfg where "cfg = dict_items (dget cd ''config'' (PDict []))"
  define tm where "tm = PDict (dict_items (dget cd ''type_mappings'' (PDict [])))"
  from assms(1) cd obtain params st where
    loop: "foldE (check_message tm) (enumerate 0 (input_messages v))
       (init_vstate (section_errs (dget cd ''config'' (PDict [])) (dget cd ''messages'' (PList []))
          (dget cd ''type_mappings'' (PDict [])) params @ config_errs cfg (dict_items params))) = Inr st"
    and st: "errors st = []" and v': "v' = PDict (updated_config cd cfg (checked st))"
    by (auto simp: validate_protocol_def validate_run_def bindE_eq_Inr py_get_eq_Inr Let_def cfg_def
        tm_def input_messages_def split: if_splits)
  have "\<forall>(i, m) \<in> set (enumerate 0 (input_messages v)). not_null ''id'' m \<and> not_null ''name'' m"
    using nn by (auto simp: in_set_enumerate_eq)
  from message_loop_ok [OF loop st this] have "config_errs cfg (dict_items params) = []"
    by (simp add: init_vstate_def)
  then have no: "\<not> dhas cfg ''baudrate''" "\<not> dhas cfg ''enable_heartbeat''"
    by (simp_all add: config_errs_def)
  have "dget (updated_config cd cfg (checked st)) ''config'' (PDict []) \<in>
      {dget cd ''config'' (PDict []), PDict (dict_set cfg (K ''checksum'') (PStr (checksum_name cfg)))}"
    by (auto simp: updated_config_def Let_def dget_set)
  with no show ?thesis
    unfolding no_retired_keys_def v' by (auto simp: cfg_def dhas_set)
qed

lemma validate_idem:
  assumes "validate_protocol v = Inr v'"
    and "\<forall>m \<in> set (input_messages v). not_null ''id'' m \<and> not_null ''name'' m"
  shows "validate_protocol v' = Inr v'"
  by (rule validate_complete [OF validate_sound [OF assms] validate_no_retired [OF assms]])

end
