(* ===== verification/ValidateTotal.thy ===== *)
theory ValidateTotal
  imports ValidateRun Emit
begin

text \<open>
  When \<open>validate_protocol\<close> reports rather than raises. The code catches the \<open>ValueError\<close> of a
  field path only; the checks raise on an unhashable \<open>direction\<close> or \<open>type\<close>, on a field that
  is not a mapping or has no \<open>type\<close>, and on a \<open>serial_controller\<close> that is not a mapping.
  On every other root mapping the run ends with a verdict.
\<close>

definition typed_field :: "pyval \<Rightarrow> pyval \<Rightarrow> bool" where
  "typed_field tm f \<longleftrightarrow> (\<exists>d t c. f = PDict d \<and> dict_find d (K ''type'') = Some t \<and>
     get_c_type t tm = Inr c \<and> hashable c)"

definition message_fields :: "pyval \<Rightarrow> pyval list" where
  "message_fields m = list_items (dget (dict_items m) ''fields'' (PList []))"

definition reportable :: "pyval \<Rightarrow> pyval \<Rightarrow> bool" where
  "reportable tm m \<longleftrightarrow> hashable (dget (dict_items m) ''direction'' PNone) \<and>
     (\<forall>f \<in> set (message_fields m). typed_field tm f)"

lemma typed_field_step: "typed_field tm f \<Longrightarrow> total (field_step tm label f acc)"
  by (auto simp: typed_field_def field_step_def field_type_errs_def dget_find Let_def total_def
      split: prod.splits)

lemma typed_field_size: "typed_field tm f \<Longrightarrow> total (field_size tm f)"
  by (auto simp: typed_field_def field_size_def c_type_size_def total_def)

lemma total_fold: "\<forall>x \<in> set xs. \<forall>s. total (f x s) \<Longrightarrow> total (foldE f xs s)"
  by (induction xs arbitrary: s) (auto intro: total_bind)

lemma fields_errs_total:
  assumes "\<forall>f \<in> set (message_fields (PDict d)). typed_field tm f"
  shows "total (fields_errs tm label d)"
  unfolding fields_errs_def Let_def
  by (rule total_bind) (use assms typed_field_step in \<open>auto simp: message_fields_def intro!: total_fold\<close>)

lemma wire_size_total:
  assumes "dget d ''fields'' (PList []) = PList fs" and "dhas d ''fields''" and "\<forall>f \<in> set fs. typed_field tm f"
  shows "total (message_wire_payload_size (PDict d) tm)"
proof -
  have "dict_find d (K ''fields'') = Some (PList fs)"
    using assms(1,2) by (auto simp: dhas_def dget_def)
  moreover have "total (mapE (field_size tm) fs)" using assms(3) typed_field_size by simp
  ultimately show ?thesis
    by (auto simp: message_wire_payload_size_def message_payload_size_def total_def)
qed

lemma wire_errs_total:
  assumes "\<forall>f \<in> set (message_fields (PDict d)). typed_field tm f"
  shows "total (wire_errs tm label d)"
proof (cases "list_items (dget d ''fields'' (PList [])) = []")
  case False
  then obtain fs where fs: "dget d ''fields'' (PList []) = PList fs" "fs \<noteq> []"
    by (cases "dget d ''fields'' (PList [])") auto
  then have "dhas d ''fields''" by (auto simp: dget_def dhas_def split: option.splits)
  from wire_size_total [OF fs(1) this, of tm] assms fs(1) show ?thesis
    by (auto simp: wire_errs_def message_fields_def intro!: total_bind)
qed (simp add: wire_errs_def)

lemma debug_update_dget: "k \<noteq> ''debug_log_mode'' \<Longrightarrow> dget (debug_update d) k c = dget d k c"
  by (simp add: dget_def debug_update_find)

lemma reportable_update: "reportable tm (PDict d) \<Longrightarrow> reportable tm (PDict (debug_update d))"
  by (simp add: reportable_def message_fields_def debug_update_dget)

lemma check_message_total:
  assumes "reportable tm m"
  shows "\<exists>st' m'. check_message tm (i, m) st = Inr st' \<and> checked st' = checked st @ [m'] \<and> reportable tm m'"
proof (cases "\<exists>d. m = PDict d")
  case True
  then obtain d where m: "m = PDict d" by blast
  note upd = reportable_update [OF assms [unfolded m]]
  have dir: "total (direction_errs label d)" for label
    using assms m by (simp add: reportable_def direction_errs_def Let_def)
  from upd have "total (fields_errs tm label (debug_update d))" "total (wire_errs tm label (debug_update d))" for label
    unfolding reportable_def by (simp_all add: fields_errs_total wire_errs_total)
  with dir obtain a b c where abc: "direction_errs label d = Inr (a label)"
    "fields_errs tm label (debug_update d) = Inr (b label)"
    "wire_errs tm label (debug_update d) = Inr (c label)" for label
    unfolding total_def by metis
  show ?thesis
    using upd by (simp add: m check_message_def Let_def abc)
next
  case False
  then show ?thesis
    using assms by (cases m) (auto simp: check_message_def add_errs_def)
qed

lemma message_loop_total:
  "\<forall>(i, m) \<in> set ims. reportable tm m \<Longrightarrow> \<forall>m \<in> set (checked st). reportable tm m \<Longrightarrow>
     \<exists>st'. foldE (check_message tm) ims st = Inr st' \<and> (\<forall>m \<in> set (checked st'). reportable tm m)"
proof (induction ims arbitrary: st)
  case (Cons im ims)
  obtain i m where im: "im = (i, m)" by (cases im)
  with Cons.prems(1) have "reportable tm m" by simp
  from check_message_total [OF this, of i st] obtain st1 m' where
    st1: "check_message tm (i, m) st = Inr st1" "checked st1 = checked st @ [m']" "reportable tm m'" by blast
  with Cons.prems(2) have "\<forall>m \<in> set (checked st1). reportable tm m" by simp
  from Cons.IH [OF _ this] Cons.prems(1) st1(1) im show ?case by simp
qed simp

lemma buffer_errs_total:
  assumes "\<forall>m \<in> set ms. reportable tm m"
    and "\<forall>m \<in> set SYSTEM_MESSAGES. total (message_wire_payload_size m tm)"
  shows "total (buffer_errs b tm ms)"
proof -
  let ?ms = "filter sizable ms"
  have id: "\<forall>m \<in> set ?ms. has_id m"
  proof
    fix m assume "m \<in> set ?ms"
    then obtain d where d: "m = PDict d" "is_int (dget d ''id'' PNone)"
      by (auto simp: sizable_def split: pyval.splits)
    then have "dget d ''id'' PNone \<noteq> PNone" by (auto simp: is_int_def)
    from dget_not_None [OF this] d show "has_id m" by (simp add: has_id_def is_int_def)
  qed
  have merge: "merge_messages (PDict [(K ''messages'', PList ?ms)]) = Inr (sort_key msg_id (?ms @ SYSTEM_MESSAGES))"
    by (rule merge_messages_eq [OF _ id]) (simp add: dget_def)
  have "total (message_wire_payload_size m tm)" if "m \<in> set ?ms" for m
  proof -
    from that obtain d where d: "m = PDict d" "is_list (dget d ''fields'' PNone)"
      by (auto simp: sizable_def split: pyval.splits)
    then have "dget d ''fields'' PNone \<noteq> PNone" by auto
    from dget_not_None [OF this] d obtain fs where fs: "dict_find d (K ''fields'') = Some (PList fs)"
      by (cases "dget d ''fields'' PNone") auto
    from that assms(1) have "reportable tm m" by simp
    with d fs show ?thesis
      using wire_size_total [of d fs tm]
      by (simp add: reportable_def message_fields_def dget_find dhas_def)
  qed
  then have "\<forall>m \<in> set (sort_key msg_id (?ms @ SYSTEM_MESSAGES)). total (message_wire_payload_size m tm)"
    using assms(2) by auto
  then have "total (largest_frame tm ms)"
    unfolding largest_frame_def merge by (simp add: total_bind_Inr)
  then show ?thesis
    by (cases "strict_int b") (auto simp: buffer_errs_def intro!: total_bind)
qed

lemma validate_total:
  assumes "dget cd ''serial_controller'' (PDict []) = PDict sc"
    and "tm = PDict (dict_items (dget cd ''type_mappings'' (PDict [])))"
    and "\<forall>m \<in> set (input_messages (PDict cd)). reportable tm m"
    and "\<forall>m \<in> set SYSTEM_MESSAGES. total (message_wire_payload_size m tm)"
  shows "total (validate_run (PDict cd))"
proof -
  have rep: "\<forall>(i, m) \<in> set (enumerate 0 (input_messages (PDict cd))). reportable tm m"
    using assms(3) by (auto simp: in_set_enumerate_eq)
  have loop: "\<exists>st'. foldE (check_message tm) (enumerate 0 (input_messages (PDict cd))) (init_vstate es) = Inr st' \<and>
      (\<forall>m \<in> set (checked st'). reportable tm m)" for es
    by (rule message_loop_total [OF rep]) (simp add: init_vstate_def)
  define cfg where "cfg = dict_items (dget cd ''config'' (PDict []))"
  define params where "params = dget sc ''ros__parameters'' (PDict [])"
  define es where "es = section_errs (dget cd ''config'' (PDict [])) (dget cd ''messages'' (PList []))
      (dget cd ''type_mappings'' (PDict [])) params @ config_errs cfg (dict_items params)"
  from loop [of es] obtain st where st: "foldE (check_message tm) (enumerate 0 (input_messages (PDict cd)))
      (init_vstate es) = Inr st" "\<forall>m \<in> set (checked st). reportable tm m" by blast
  from buffer_errs_total [OF st(2) assms(4)] obtain e where
    e: "buffer_errs (dget cfg ''buffer_size'' PNone) tm (checked st) = Inr e"
    unfolding total_def by blast
  have "validate_run (PDict cd) = Inr (errors st @ e, PDict (updated_config cd cfg (checked st)))"
    using st(1) e
    by (simp add: validate_run_def assms(1,2) Let_def es_def cfg_def params_def input_messages_def)
  then show ?thesis by simp
qed

end
