(* ===== verification/Demo.thy ===== *)
theory Demo
  imports McuLink Guards Regenerate ValidateComplete ValidateTotal
begin

text \<open>
  Concrete configurations, as \<open>yaml.safe_load\<close> returns them: the inputs at which the
  properties are evaluated.
\<close>

definition demo_field :: pyval where
  "demo_field = PDict [(K ''proto'', PStr ''speed''), (K ''type'', PStr ''f32''), (K ''ros'', PStr ''data[1]'')]"

definition demo_items :: "pyval \<Rightarrow> items" where
  "demo_items i = [(K ''name'', PStr ''Motor''), (K ''id'', i), (K ''direction'', PStr ''tx''),
     (K ''reliable'', PBool True), (K ''ros_msg'', PStr ''std_msgs/msg/Float32''),
     (K ''sub_topic'', PStr ''cmd''), (K ''fields'', PList [demo_field])]"

definition demo_cfg :: "string \<Rightarrow> items" where
  "demo_cfg checksum = [(K ''head_byte_1'', PInt 0x5A), (K ''head_byte_2'', PInt 0xA5),
     (K ''checksum'', PStr checksum), (K ''buffer_size'', PInt 64)]"

definition demo_with :: "items \<Rightarrow> string \<Rightarrow> items \<Rightarrow> pyval" where
  "demo_with types checksum msg = PDict
     [(K ''config'', PDict (demo_cfg checksum)),
      (K ''serial_controller'', PDict [(K ''ros__parameters'',
         PDict [(K ''port'', PStr ''/dev/ttyACM0''), (K ''baudrate'', PInt 115200)])]),
      (K ''type_mappings'', PDict types),
      (K ''messages'', PList [PDict msg])]"

definition demo_map :: items where "demo_map = [(K ''f32'', PStr ''float'')]"

definition demo_config :: pyval where "demo_config = demo_with demo_map ''crc8'' (demo_items (PInt 1))"

lemmas char_defs = is_word_def is_alpha_us_def is_lower_def is_upper_def is_digit_def

lemma demo_names: "fullmatch identifier_re ''Motor''" "fullmatch identifier_re ''speed''"
  by (simp_all add: identifier_re_def char_defs)

lemma demo_ros_msg: "fullmatch ros_msg_re ''std_msgs/msg/Float32''"
  by (simp add: ros_msg_re_def char_defs)

lemma demo_topic: "topic_fullmatch ''cmd''"
  by (simp add: topic_fullmatch_def char_defs)

lemma demo_path: "analyze_ros_path ''data[1]'' ''msg'' True = Inr (''msg->data[1]'', [(''msg->data'', 2)])"
  by (simp add: analyze_ros_path_def segment_groups_def segment_re_def digits_re_def char_defs
      separator_def req_max_def req_of_def digits_val_def)

lemma demo_keywords: "\<not> is_reserved_c_cpp_identifier ''speed''"
  by (simp add: is_reserved_c_cpp_identifier_def C_CPP_KEYWORDS_def char_defs)


lemma demo_upper: "upper ''Motor'' = ''MOTOR''" "upper ''Ack'' = ''ACK''"
  "upper ''Heartbeat'' = ''HEARTBEAT''" "upper ''Handshake'' = ''HANDSHAKE''"
  by code_simp+

lemma demo_init: "init_vstate es = \<lparr>errors = es, seen_ids = [], seen_names = [],
     seen_symbols = [(''ACK'', ''Ack''), (''HEARTBEAT'', ''Heartbeat''), (''HANDSHAKE'', ''Handshake'')],
     seen_sub = [], seen_pub = [], checked = []\<rparr>"
  by (simp add: init_vstate_def SYSTEM_MESSAGE_NAMES_eq demo_upper)

section \<open>Validation of the message, check by check\<close>

definition demo_items' :: "pyval \<Rightarrow> items" where    \<comment> \<open>after the in-place update of the debug log mode\<close>
  "demo_items' i = demo_items i @ [(K ''debug_log_mode'', PStr ''on'')]"

lemma demo_find [simp]:
  "dict_find (demo_items i) (K k) = map_of [(''name'', PStr ''Motor''), (''id'', i), (''direction'', PStr ''tx''),
     (''reliable'', PBool True), (''ros_msg'', PStr ''std_msgs/msg/Float32''),
     (''sub_topic'', PStr ''cmd''), (''fields'', PList [demo_field])] k"
  by (simp add: demo_items_def)

lemma dict_find_append: "dict_find (d @ e) k = (case dict_find d k of None \<Rightarrow> dict_find e k | Some v \<Rightarrow> Some v)"
  by (induction d k rule: dict_find.induct) auto

lemma demo_find' [simp]:
  "dict_find (demo_items' i) (K k) = (if k = ''debug_log_mode'' then Some (PStr ''on'') else dict_find (demo_items i) (K k))"
  by (auto simp: demo_items'_def dict_find_append split: option.splits)

lemma demo_direction: "direction_errs l (demo_items i) = Inr []"
  by (simp add: direction_errs_def dget_def VALID_DIRECTIONS_def err_if_def)

lemma demo_required: "required_errs l (demo_items i) = []"
  by (simp add: required_errs_def dhas_def err_if_def)

lemma demo_debug: "debug_errs l (demo_items i) = []" "debug_update (demo_items i) = (demo_items' i)"
proof -
  have m: "debug_mode_of (demo_items i) = ''on''"
    by (simp add: debug_mode_of_def normalize_debug_log_mode_def dget_def strip_def is_space_def
        lower_def lower_char_def is_upper_def)
  show "debug_errs l (demo_items i) = []" by (simp add: debug_errs_def valid_debug_mode_def m err_if_def)
  show "debug_update (demo_items i) = (demo_items' i)"
    by (simp add: debug_update_def valid_debug_mode_def m) (simp add: demo_items'_def demo_items_def)
qed

lemma demo_reliable: "reliable_errs l (demo_items' i) = []"
  by (simp add: reliable_errs_def dget_def err_if_def)

text \<open>The identifier 1, and an explicit null, which the check passes over.\<close>

definition demo_ids :: "pyval \<Rightarrow> (int \<times> pyval) list" where
  "demo_ids i = (if i = PNone then [] else [(1, PStr ''Motor'')])"

lemma demo_id:
  "i \<in> {PInt 1, PNone} \<Longrightarrow> seen_ids st = [] \<Longrightarrow>
     check_id (PStr ''Motor'') (demo_items' i) st = st\<lparr>seen_ids := demo_ids i\<rparr>"
  by (auto simp: check_id_def dget_def byte_int_def RESERVED_IDS_eq demo_ids_def)

lemma demo_name:
  "seen_names st = [] \<Longrightarrow> seen_symbols st = seen_symbols (init_vstate []) \<Longrightarrow>
     check_name (demo_items' i) st = st\<lparr>seen_names := [''Motor''],
       seen_symbols := seen_symbols (init_vstate []) @ [(''MOTOR'', ''Motor'')]\<rparr>"
  by (simp add: check_name_def dget_def demo_names demo_init SYSTEM_MESSAGE_NAMES_eq Let_def demo_upper
      del: fullmatch.simps)

lemma demo_ros: "ros_msg_errs l (demo_items' i) = []"
  by (simp add: ros_msg_errs_def str_match_def dget_def demo_ros_msg err_if_def del: fullmatch.simps)

lemma demo_topics: "topic_errs l (demo_items' i) = []"
  by (simp add: topic_errs_def Let_def sends_def receives_def dget_def dhas_def str_match_def
      demo_topic err_if_def)

lemma demo_topic_use:
  "seen_sub st = [] \<Longrightarrow> check_topic_use l (demo_items' i) st = st\<lparr>seen_sub := [(''cmd'', l)]\<rparr>"
  by (simp add: check_topic_use_def dget_def Let_def)

definition maps_f32 :: "pyval \<Rightarrow> bool" where
  "maps_f32 tm \<longleftrightarrow> get_c_type (PStr ''f32'') tm = Inr (PStr ''float'')"

lemma demo_fields: "maps_f32 tm \<Longrightarrow> fields_errs tm l (demo_items' i) = Inr []"
  by (simp add: fields_errs_def dget_def demo_field_def err_if_def field_step_def field_name_step_def
      demo_names demo_keywords field_type_errs_def maps_f32_def C_TYPE_SIZES_def
      field_ros_errs_def demo_path Let_def del: fullmatch.simps)

lemma demo_payload: "maps_f32 tm \<Longrightarrow> message_payload_size (PDict (demo_items' i)) tm = Inr 4"
  by (simp add: message_payload_size_def field_size_def demo_field_def maps_f32_def
      c_type_size_def C_TYPE_SIZES_def)

lemma demo_wire_size: "maps_f32 tm \<Longrightarrow> message_wire_payload_size (PDict (demo_items' i)) tm = Inr 5"
  by (simp add: message_wire_payload_size_def demo_payload dget_def)

lemma demo_wire: "maps_f32 tm \<Longrightarrow> wire_errs tm l (demo_items' i) = Inr []"
  by (simp add: wire_errs_def dget_def demo_wire_size err_if_def)

lemma demo_check:
  assumes "maps_f32 tm" and "i \<in> {PInt 1, PNone}"
  shows "check_message tm (0, PDict (demo_items i)) (init_vstate []) =
     Inr ((init_vstate [])\<lparr>seen_ids := demo_ids i, seen_names := [''Motor''],
            seen_symbols := seen_symbols (init_vstate []) @ [(''MOTOR'', ''Motor'')],
            seen_sub := [(''cmd'', PStr ''Motor'')], checked := [PDict (demo_items' i)]\<rparr>)"
proof -
  have l: "dget (demo_items i) ''name'' c = PStr ''Motor''" for c by (simp add: dget_def)
  show ?thesis
    using assms(1)
    by (simp add: check_message_def l demo_direction demo_debug demo_required demo_reliable
        demo_id [OF assms(2)] demo_name demo_ros demo_topics demo_topic_use demo_fields demo_wire
        add_errs_def Let_def)
      (simp add: demo_init demo_id [OF assms(2)] demo_name demo_topic_use)
qed

section \<open>The whole run\<close>

lemma demo_checksum: "upper ''crc8'' = ''CRC8''"
  by code_simp

lemma demo_config_errs:
  "config_errs (demo_cfg ''crc8'') [(K ''port'', PStr ''/dev/ttyACM0''), (K ''baudrate'', PInt 115200)] = []"
  by (simp add: demo_cfg_def config_errs_def checksum_name_def dhas_def dget_def pos_int_def str_match_def
      byte_int_def demo_checksum SUPPORTED_CHECKSUMS_def BOOL_OPTIONS_def INT_OPTIONS_def
      timeout_errs_def err_if_def)

lemma demo_updated:
  "updated_config (dict_items (demo_with types ''crc8'' msg)) (demo_cfg ''crc8'') [PDict msg']
     = dict_items (demo_with types ''CRC8'' msg')"
  by (simp add: updated_config_def Let_def dhas_def dget_def demo_with_def demo_cfg_def
      checksum_name_def demo_checksum)

lemma demo_run:
  assumes "maps_f32 (PDict types)" and "i \<in> {PInt 1, PNone}"
    and "buffer_errs (PInt 64) (PDict types) [PDict (demo_items' i)] = Inr []"
  shows "validate_protocol (demo_with types ''crc8'' (demo_items i))
    = Inr (demo_with types ''CRC8'' (demo_items' i))"
proof -
  have b: "dget (demo_cfg ''crc8'') ''buffer_size'' PNone = PInt 64" by (simp add: demo_cfg_def dget_def)
  show ?thesis
    using demo_updated [of types "demo_items i" "demo_items' i"]
    by (simp add: validate_protocol_def validate_run_def demo_with_def dget_def demo_config_errs
        section_errs_def err_if_def Let_def demo_check [OF assms(1,2)])
      (simp add: demo_init b [unfolded dget_def] assms(3))
qed

definition demo_types :: pyval where "demo_types = PDict demo_map"

definition demo_result :: pyval where "demo_result = demo_with demo_map ''CRC8'' (demo_items' (PInt 1))"

lemma demo_maps: "maps_f32 demo_types"
  by (simp add: maps_f32_def demo_types_def demo_map_def get_c_type_def)

lemma system_sizes:
  "message_wire_payload_size msg_Ack demo_types = Inr 2"
  "message_wire_payload_size msg_Heartbeat demo_types = Inr 4"
  "message_wire_payload_size msg_Handshake demo_types = Inr 4"
  by (simp_all add: message_wire_payload_size_def message_payload_size_def field_size_def
      system_message_defs get_c_type_def demo_types_def demo_map_def c_type_size_def C_TYPE_SIZES_def dget_def)

lemma demo_merge:
  "merge_messages (PDict [(K ''messages'', PList [PDict (demo_items' (PInt 1))])])
     = Inr [PDict (demo_items' (PInt 1)), msg_Ack, msg_Heartbeat, msg_Handshake]"
  by (simp add: merge_messages_def dget_def sort_by_id_def SYSTEM_MESSAGES_def)
    (simp add: system_message_defs)

lemma demo_merge_none:
  "merge_messages (PDict [(K ''messages'', PList [])]) = Inr [msg_Ack, msg_Heartbeat, msg_Handshake]"
  by (simp add: merge_messages_def dget_def sort_by_id_def SYSTEM_MESSAGES_def)
    (simp add: system_message_defs)

lemma demo_buffer: "buffer_errs (PInt 64) demo_types [PDict (demo_items' (PInt 1))] = Inr []"
  by (simp add: buffer_errs_def largest_frame_def sizable_def dget_def is_int_def demo_merge
      demo_wire_size [OF demo_maps] system_sizes err_if_def)

lemma demo_validate: "validate_protocol demo_config = Inr demo_result"
  unfolding demo_config_def demo_result_def
  by (rule demo_run) (use demo_maps demo_buffer in \<open>simp_all add: demo_types_def\<close>)

lemma demo_not_null:
  "\<forall>m \<in> set (input_messages demo_config). not_null ''id'' m \<and> not_null ''name'' m"
  by (simp add: input_messages_def demo_config_def demo_with_def dget_def not_null_def)

lemma demo_protocol_ok: "protocol_ok demo_result"
  by (rule validate_sound [OF demo_validate demo_not_null])

lemma demo_type_mappings: "py_get demo_result ''type_mappings'' (PDict []) = Inr demo_types"
  by (simp add: demo_result_def demo_with_def demo_types_def dget_def)

lemma demo_system_types: "system_types supported_type demo_types"
  by (simp add: system_types_def c_type_in_def supported_type_def get_c_type_def demo_types_def
      demo_map_def C_TYPE_SIZES_def)

section \<open>Accepted, but not what the code means to accept\<close>

definition demo_null_id :: pyval where "demo_null_id = demo_with demo_map ''crc8'' (demo_items PNone)"

lemma demo_null_id_accepted:
  "validate_protocol demo_null_id = Inr (demo_with demo_map ''CRC8'' (demo_items' PNone))"
proof -
  have "buffer_errs (PInt 64) demo_types [PDict (demo_items' PNone)] = Inr []"
    by (simp add: buffer_errs_def largest_frame_def sizable_def dget_def is_int_def demo_merge_none
        system_sizes err_if_def)
  then show ?thesis
    unfolding demo_null_id_def by (intro demo_run) (use demo_maps in \<open>simp_all add: demo_types_def\<close>)
qed

definition remap :: items where
  "remap = [(K ''f32'', PStr ''float''), (K ''uint32_t'', PStr ''uint8_t'')]"

lemma remap_sizes:
  "message_wire_payload_size msg_Ack (PDict remap) = Inr 2"
  "message_wire_payload_size msg_Heartbeat (PDict remap) = Inr 1"
  "message_wire_payload_size msg_Handshake (PDict remap) = Inr 1"
  by (simp_all add: message_wire_payload_size_def message_payload_size_def field_size_def
      system_message_defs get_c_type_def remap_def c_type_size_def C_TYPE_SIZES_def dget_def)

lemma demo_remap_accepted:
  "validate_protocol (demo_with remap ''crc8'' (demo_items (PInt 1)))
     = Inr (demo_with remap ''CRC8'' (demo_items' (PInt 1)))"
proof (rule demo_run)
  show m: "maps_f32 (PDict remap)" by (simp add: maps_f32_def get_c_type_def remap_def)
  show "buffer_errs (PInt 64) (PDict remap) [PDict (demo_items' (PInt 1))] = Inr []"
    by (simp add: buffer_errs_def largest_frame_def sizable_def dget_def is_int_def demo_merge
        demo_wire_size [OF m] remap_sizes err_if_def)
qed simp

section \<open>A device\<close>

definition demo_proto :: proto where
  "demo_proto = \<lparr>FRAME_HEADER1 = 0x5A, FRAME_HEADER2 = 0xA5, algo = CRC8, buf_size = 5,
     packets = [\<lparr>pk_name = ''Motor'', pk_id = 1, pk_size = 4, pk_reliable = True\<rparr>,
                \<lparr>pk_name = ''Heartbeat'', pk_id = HEARTBEAT_ID, pk_size = 4, pk_reliable = False\<rparr>],
     require_handshake = True, PROTOCOL_HASH = 0x12345678\<rparr>"

lemma demo_proto_sel [simp]:
  "FRAME_HEADER1 demo_proto = 0x5A" "FRAME_HEADER2 demo_proto = 0xA5" "algo demo_proto = CRC8"
  "buf_size demo_proto = 5" "require_handshake demo_proto" "PROTOCOL_HASH demo_proto = 0x12345678"
  "packets demo_proto = [\<lparr>pk_name = ''Motor'', pk_id = 1, pk_size = 4, pk_reliable = True\<rparr>,
     \<lparr>pk_name = ''Heartbeat'', pk_id = HEARTBEAT_ID, pk_size = 4, pk_reliable = False\<rparr>]"
  by (simp_all add: demo_proto_def)

lemma demo_proto_ok: "proto_wf demo_proto" "proto_ids demo_proto"
  by (simp_all add: proto_wf_def proto_ids_def HEARTBEAT_ID_def)

lemma demo_idle: "idle demo_proto (mcu_init demo_proto)"
  by (simp add: idle_def mcu_init_def)

end
