(* ===== verification/Detection.thy ===== *)
theory Detection
  imports McuFsm
begin

text \<open>
  What the frame checksum catches in transit. The receiver's comparison of the check byte is
  the same as asking whether the checksum over the whole protected part, check byte included,
  is zero; so a change of that value is a dropped frame.
\<close>

lemma crc8_word_0 [simp]: "crc8_word 0 = 0"
  using crc8_word_xor [of 0 0] by simp

lemma crc8_word_eq_0: "crc8_word w = 0 \<longleftrightarrow> w = 0"
  using crc8_word_inj [of w 0] by auto

lemma residue:
  assumes "a = CRC8 \<or> a = XOR8"
  shows "calculate_checksum a (data @ [c]) = 0 \<longleftrightarrow> c = calculate_checksum a data"
  using assms
  by (auto simp: calculate_checksum_def crc8_update_word crc8_word_eq_0 xor_eq_0
      simp del: checksum_update.simps(1))

lemma burst8_dropped:
  assumes "algo P = CRC8" and "idle P s" and "length ds \<le> buf_size P" and "buf_size P \<le> 255"
    and "length ds' = length ds"
    and "burst8 ([i, of_nat (length ds)] @ ds @ [calculate_checksum CRC8 ([i, of_nat (length ds)] @ ds)])
           ([i', of_nat (length ds)] @ ds' @ [c])"
  shows "\<exists>s'. feed_all P s ([FRAME_HEADER1 P, FRAME_HEADER2 P, i', of_nat (length ds)] @ ds' @ [c])
    = Some (s', []) \<and> idle P s'"
proof (rule damaged_frame_dropped [OF assms(2) assms(5) [symmetric] assms(3,4)])
  let ?c0 = "calculate_checksum CRC8 ([i, of_nat (length ds)] @ ds)"
  have "calculate_checksum CRC8 (([i, of_nat (length ds)] @ ds) @ [?c0]) = 0"
    using residue by blast
  with burst8_detected [OF assms(6), of 0]
  have "calculate_checksum CRC8 (([i', of_nat (length ds)] @ ds') @ [c]) \<noteq> 0"
    by (simp add: calculate_checksum_def)
  then show "c \<noteq> calculate_checksum (algo P) ([i', of_nat (length ds)] @ ds')"
    using residue assms(1) by metis
qed (simp add: assms(1))

end
