(* ===== verification/Reception.thy ===== *)
theory Reception
  imports McuFsm
begin

text \<open>
  Where the events of the receiver come from. A run from reset is an inductive relation between
  the bytes received so far, the state and the events. Its invariant splits the bytes into
  complete frames, one per dispatched packet and in order, the noise before each of them, and
  the part of a frame the receiver is in the middle of.
\<close>

section \<open>Runs\<close>

inductive received :: "proto \<Rightarrow> u8 list \<Rightarrow> mcu \<Rightarrow> event list \<Rightarrow> bool" for P where
  reset: "received P [] (mcu_init P) []"
| byte: "received P h s evs \<Longrightarrow> protocol_fsm_feed P s b = Some (s', es) \<Longrightarrow>
    received P (h @ [b]) s' (evs @ es)"

lemma feed_all_received:
  "feed_all P (mcu_init P) bs = Some (s, evs) \<Longrightarrow> received P bs s evs"
proof (induction bs arbitrary: s evs rule: rev_induct)
  case Nil
  then show ?case by (auto intro: received.reset)
next
  case (snoc b bs)
  from snoc.prems obtain s1 e1 e2 where
    "feed_all P (mcu_init P) bs = Some (s1, e1)" "protocol_fsm_feed P s1 b = Some (s, e2)" "evs = e1 @ e2"
    by (auto simp: feed_all_append split: option.splits prod.splits)
  with received.byte [OF snoc.IH] show ?case by simp
qed

lemma received_inv: "received P h s evs \<Longrightarrow> proto_wf P \<Longrightarrow> mcu_inv P s"
proof (induction rule: received.induct)
  case (byte h s evs b s' es)
  from feed_inv [OF byte.prems byte.IH [OF byte.prems], of b] byte.hyps(2) show ?case by simp
qed (rule mcu_inv_init)

section \<open>The frame in progress\<close>

definition data_part :: "proto \<Rightarrow> mcu \<Rightarrow> nat \<Rightarrow> u8 list \<Rightarrow> bool" where
  "data_part P s n cur \<longleftrightarrow>
     (\<exists>ds. cur = [FRAME_HEADER1 P, FRAME_HEADER2 P, rx_id s, rx_data_len s] @ ds \<and> length ds = n \<and>
       take n (rx_buffer s) = ds \<and>
       rx_checksum s = calculate_checksum (algo P) ([rx_id s, rx_data_len s] @ ds))"

lemma data_partE:
  assumes "data_part P s n cur"
  obtains ds where "cur = [FRAME_HEADER1 P, FRAME_HEADER2 P, rx_id s, rx_data_len s] @ ds"
    and "length ds = n" and "take n (rx_buffer s) = ds"
    and "rx_checksum s = calculate_checksum (algo P) ([rx_id s, rx_data_len s] @ ds)"
  using assms unfolding data_part_def by blast

definition in_progress :: "proto \<Rightarrow> mcu \<Rightarrow> u8 list \<Rightarrow> bool" where
  "in_progress P s cur \<longleftrightarrow> (case rx_state s of
      STATE_WAIT_HEADER1 \<Rightarrow> cur = []
    | STATE_WAIT_HEADER2 \<Rightarrow> cur = [FRAME_HEADER1 P]
    | STATE_WAIT_ID \<Rightarrow> cur = [FRAME_HEADER1 P, FRAME_HEADER2 P]
    | STATE_WAIT_LEN \<Rightarrow> cur = [FRAME_HEADER1 P, FRAME_HEADER2 P, rx_id s] \<and>
        rx_checksum s = checksum_update (algo P) 0 (rx_id s)
    | STATE_WAIT_DATA \<Rightarrow> data_part P s (unat (rx_cnt s)) cur
    | STATE_WAIT_CRC \<Rightarrow> data_part P s (unat (rx_data_len s)) cur)"

lemma dispatch_events:
  assumes "dispatch_switch P s = Some (s', es)" and "length ds = unat (rx_data_len s)"
    and "take (length ds) (rx_buffer s) = ds"
  shows "es = [] \<or> (\<exists>pk. packet_ok P pk ds \<and> pk_id pk = rx_id s \<and> es = packet_events P pk ds)"
proof (cases "find (\<lambda>pk. pk_id pk = rx_id s) (packets P)")
  case None
  with assms(1) show ?thesis by (simp add: dispatch_switch_def)
next
  case (Some pk)
  then have pk: "pk \<in> set (packets P)" "pk_id pk = rx_id s" by (auto simp: find_Some_iff)
  from assms(1) Some have d: "dispatch_packet_case P s pk = Some (s', es)" by (simp add: dispatch_switch_def)
  show ?thesis
  proof (cases "unat (rx_data_len s) = pk_size pk + of_bool (pk_reliable pk)")
    case True
    with assms(2) pk have ok: "packet_ok P pk ds" by (simp add: packet_ok_def)
    have "es = packet_events P pk ds"
    proof (cases "pk_reliable pk")
      case rel: True
      with d True have lt: "pk_size pk < length (rx_buffer s)"
        by (simp add: dispatch_packet_case_def split: if_splits)
      have "ds = take (pk_size pk) (rx_buffer s) @ [rx_buffer s ! pk_size pk]"
        using assms(2,3) True rel lt by (simp add: take_Suc_conv_app_nth)
      then show ?thesis using d rel True lt by (simp add: dispatch_packet_case_def packet_events_def Let_def)
    next
      case False
      with d True assms(2,3) show ?thesis
        by (auto simp: dispatch_packet_case_def packet_events_def Let_def split: if_splits)
    qed
    with ok pk(2) show ?thesis by blast
  next
    case False
    with d show ?thesis by (auto simp: dispatch_packet_case_def split: if_splits)
  qed
qed

text \<open>
  One byte: either nothing is dispatched and the byte joins the frame in progress or the noise,
  or it is the check byte that completes the frame of the dispatched packet.
\<close>

definition quiet_step :: "proto \<Rightarrow> mcu \<Rightarrow> u8 list \<Rightarrow> event list \<Rightarrow> bool" where
  "quiet_step P s' bs es \<longleftrightarrow> es = [] \<and> (\<exists>g cur'. bs = g @ cur' \<and> in_progress P s' cur')"

definition frame_step :: "proto \<Rightarrow> mcu \<Rightarrow> u8 list \<Rightarrow> event list \<Rightarrow> bool" where
  "frame_step P s' bs es \<longleftrightarrow> in_progress P s' [] \<and>
     (\<exists>pk ds. packet_ok P pk ds \<and> bs = send_packet P (pk_id pk) ds \<and> es = packet_events P pk ds)"

lemma quiet_stepI: "es = [] \<Longrightarrow> in_progress P s' bs \<Longrightarrow> quiet_step P s' bs es"
  unfolding quiet_step_def by (metis append_Nil)

lemma header_step:
  assumes "rx_state s \<in> {STATE_WAIT_HEADER1, STATE_WAIT_HEADER2, STATE_WAIT_ID}"
    and "in_progress P s cur" and "protocol_fsm_feed P s b = Some (s', es)"
  shows "quiet_step P s' (cur @ [b]) es"
  using assms
  by (auto simp: protocol_fsm_feed.simps [of P s] quiet_step_def in_progress_def split: if_splits)

lemma len_step:
  assumes "rx_state s = STATE_WAIT_LEN" and "in_progress P s cur"
    and "protocol_fsm_feed P s b = Some (s', es)"
  shows "quiet_step P s' (cur @ [b]) es"
proof (cases "length (rx_buffer s) < unat b")
  case True
  with assms(1,3) have feed: "protocol_fsm_feed P (s\<lparr>rx_state := STATE_WAIT_HEADER1\<rparr>) b = Some (s', es)"
    by (simp add: protocol_fsm_feed.simps [of P s])
  have "quiet_step P s' ([] @ [b]) es"
    by (rule header_step [OF _ _ feed]) (simp_all add: in_progress_def)
  then show ?thesis unfolding quiet_step_def by (metis append.assoc append_Nil)
next
  case False
  with assms have s': "es = []" "s' = s\<lparr>rx_data_len := b,
      rx_checksum := checksum_update (algo P) (rx_checksum s) b, rx_cnt := 0,
      rx_state := (if 0 < b then STATE_WAIT_DATA else STATE_WAIT_CRC)\<rparr>"
    by (simp_all add: protocol_fsm_feed.simps [of P s])
  have "in_progress P s' (cur @ [b])"
    using assms(1,2) s'(2) by (auto simp: in_progress_def data_part_def calculate_checksum_def word_gt_0)
  with s'(1) show ?thesis by (rule quiet_stepI)
qed

lemma data_step:
  assumes "rx_state s = STATE_WAIT_DATA" and "in_progress P s cur" and "mcu_inv P s"
    and "protocol_fsm_feed P s b = Some (s', es)"
  shows "quiet_step P s' (cur @ [b]) es"
proof -
  let ?k = "unat (rx_cnt s)"
  from assms(1,3) have k: "?k < unat (rx_data_len s)" by (simp add: mcu_inv_def)
  note cnt = unat_cnt_Suc [OF k]
  from assms(1,4) have kb: "?k < length (rx_buffer s)"
    by (simp add: protocol_fsm_feed.simps [of P s] split: if_splits)
  with assms(1,4) have s': "es = []" "s' = s\<lparr>rx_buffer := (rx_buffer s)[?k := b], rx_cnt := rx_cnt s + 1,
      rx_checksum := checksum_update (algo P) (rx_checksum s) b,
      rx_state := (if unat (rx_data_len s) \<le> ?k + 1 then STATE_WAIT_CRC else STATE_WAIT_DATA)\<rparr>"
    by (simp_all add: protocol_fsm_feed.simps [of P s] Let_def cnt)
  from assms(1,2) have "data_part P s ?k cur" by (simp add: in_progress_def)
  then obtain ds where ds:
    "cur = [FRAME_HEADER1 P, FRAME_HEADER2 P, rx_id s, rx_data_len s] @ ds" "length ds = ?k"
    "take ?k (rx_buffer s) = ds" "rx_checksum s = calculate_checksum (algo P) ([rx_id s, rx_data_len s] @ ds)"
    by (rule data_partE)
  have "take (Suc ?k) ((rx_buffer s)[?k := b]) = ds @ [b]"
    using kb ds(3) by (simp add: take_Suc_conv_app_nth)
  with ds s'(2) have "data_part P s' (Suc ?k) (cur @ [b])"
    unfolding data_part_def by (intro exI [of _ "ds @ [b]"]) (simp add: calculate_checksum_def)
  moreover have "rx_state s' = STATE_WAIT_CRC \<and> unat (rx_data_len s') = Suc ?k \<or>
      rx_state s' = STATE_WAIT_DATA \<and> unat (rx_cnt s') = Suc ?k"
    using k s'(2) cnt by simp
  ultimately have "in_progress P s' (cur @ [b])" by (auto simp: in_progress_def)
  with s'(1) show ?thesis by (rule quiet_stepI)
qed

lemma crc_step:
  assumes "rx_state s = STATE_WAIT_CRC" and "in_progress P s cur" and "algo P \<noteq> NONE"
    and "protocol_fsm_feed P s b = Some (s', es)"
  shows "quiet_step P s' (cur @ [b]) es \<or> frame_step P s' (cur @ [b]) es"
proof -
  from assms have h1: "in_progress P s' []"
    by (auto simp: protocol_fsm_feed.simps [of P s] in_progress_def split: if_splits)
  show ?thesis
  proof (cases "es = []")
    case True
    with h1 show ?thesis unfolding quiet_step_def by (metis append_Nil2)
  next
    case False
    with assms(1,3,4) obtain s1 where b: "b = rx_checksum s" and d: "dispatch_switch P s = Some (s1, es)"
      by (auto simp: protocol_fsm_feed.simps [of P s] split: if_splits)
    from assms(1,2) have "data_part P s (unat (rx_data_len s)) cur" by (simp add: in_progress_def)
    then obtain ds where ds:
      "cur = [FRAME_HEADER1 P, FRAME_HEADER2 P, rx_id s, rx_data_len s] @ ds"
      "length ds = unat (rx_data_len s)" "take (unat (rx_data_len s)) (rx_buffer s) = ds"
      "rx_checksum s = calculate_checksum (algo P) ([rx_id s, rx_data_len s] @ ds)"
      by (rule data_partE)
    from dispatch_events [OF d ds(2) ds(3) [folded ds(2)]] False obtain pk where
      "packet_ok P pk ds" "pk_id pk = rx_id s" "es = packet_events P pk ds" by blast
    moreover from this ds b have "cur @ [b] = send_packet P (pk_id pk) ds" by (simp add: send_packet_eq)
    ultimately show ?thesis using h1 unfolding frame_step_def by blast
  qed
qed

lemma progress_step:
  assumes "in_progress P s cur" and "mcu_inv P s" and "algo P \<noteq> NONE"
    and "protocol_fsm_feed P s b = Some (s', es)"
  shows "quiet_step P s' (cur @ [b]) es \<or> frame_step P s' (cur @ [b]) es"
proof (cases "rx_state s")
  case STATE_WAIT_LEN
  from len_step [OF this assms(1,4)] show ?thesis ..
next
  case STATE_WAIT_DATA
  from data_step [OF this assms(1,2,4)] show ?thesis ..
next
  case STATE_WAIT_CRC
  from crc_step [OF this assms(1,3,4)] show ?thesis .
qed (use header_step [OF _ assms(1,4)] in auto)

section \<open>The frames of a run\<close>

text \<open>A stretch of noise followed by the frame of one packet.\<close>

type_synonym stretch = "u8 list \<times> packet \<times> u8 list"

fun stretch_bytes :: "proto \<Rightarrow> stretch \<Rightarrow> u8 list" where
  "stretch_bytes P (noise, pk, payload) = noise @ send_packet P (pk_id pk) payload"

fun stretch_events :: "proto \<Rightarrow> stretch \<Rightarrow> event list" where
  "stretch_events P (noise, pk, payload) = packet_events P pk payload"

fun stretch_ok :: "proto \<Rightarrow> stretch \<Rightarrow> bool" where
  "stretch_ok P (noise, pk, payload) = packet_ok P pk payload"

lemma received_frames:
  assumes "received P h s evs" and "proto_wf P" and "algo P \<noteq> NONE"
  shows "\<exists>fs noise cur. h = concat (map (stretch_bytes P) fs) @ noise @ cur \<and> list_all (stretch_ok P) fs \<and>
    evs = concat (map (stretch_events P) fs) \<and> in_progress P s cur"
  using assms(1)
proof (induction rule: received.induct)
  case reset
  then show ?case by (intro exI [of _ "[]"]) (simp add: in_progress_def mcu_init_def)
next
  case (byte h s evs b s' es)
  from byte.IH obtain fs noise cur where old:
    "h = concat (map (stretch_bytes P) fs) @ noise @ cur" "list_all (stretch_ok P) fs"
    "evs = concat (map (stretch_events P) fs)" "in_progress P s cur" by blast
  from progress_step [OF old(4) received_inv [OF byte.hyps(1) assms(2)] assms(3) byte.hyps(2)]
  show ?case
  proof
    assume "quiet_step P s' (cur @ [b]) es"
    then obtain g cur' where "es = []" "cur @ [b] = g @ cur'" "in_progress P s' cur'"
      by (auto simp: quiet_step_def)
    with old show ?thesis
      by (intro exI [of _ fs] exI [of _ "noise @ g"] exI [of _ cur']) simp
  next
    assume "frame_step P s' (cur @ [b]) es"
    then obtain pk ds where "in_progress P s' []" "packet_ok P pk ds"
      "cur @ [b] = send_packet P (pk_id pk) ds" "es = packet_events P pk ds"
      by (auto simp: frame_step_def)
    with old show ?thesis
      by (intro exI [of _ "fs @ [(noise, pk, ds)]"] exI [of _ "[]"]) simp
  qed
qed

end
