(* ===== verification/Contract.thy ===== *)
theory Contract
  imports McuLink
begin

text \<open>
  What the protocol hash protects. The hash input determines the wire format: two well-formed
  configurations with the same hash input yield C programs that frame alike, have the same
  buffer, and agree on the ID, the size and the reliability of every packet. Names may differ,
  so this is agreement up to \<open>wire_of\<close>.
\<close>

definition wire_of :: "packet \<Rightarrow> u8 \<times> nat \<times> bool" where
  "wire_of pk = (pk_id pk, pk_size pk, pk_reliable pk)"

lemma mapE_then:
  "mapE f xs = Inr ys \<Longrightarrow> mapE (\<lambda>x. bindE (f x) g) xs = mapE g ys"
  by (induction xs arbitrary: ys) (auto simp: bindE_eq_Inr)

section \<open>One message\<close>

text \<open>The entry of a message of the right shape, spelled out.\<close>

lemma hash_entry_parts:
  assumes "msg_shape ok tm m" and "msg_hash_entry tm m = Inr e"
  obtains d dir types where "m = PDict d"
    and "e = PDict [(K ''id'', PInt (msg_id m)), (K ''direction'', dir),
          (K ''reliable'', PBool (truthy (dget d ''reliable'' (PBool False)))), (K ''field_types'', PList types)]"
    and "message_payload_size m tm = bindE (mapE c_type_size types) (\<lambda>ns. Inr (sum_list ns))"
proof -
  obtain d dir where m: "m = PDict d" "dict_find d (K ''id'') = Some (PInt (msg_id m))"
    "dict_find d (K ''direction'') = Some (PStr dir)" "dict_find d (K ''fields'') = Some (PList (msg_fields m))"
    by (rule msg_shapeE [OF assms(1)])
  let ?type = "\<lambda>f. bindE (py_item f ''type'') (\<lambda>t. get_c_type t tm)"
  from assms(2) m obtain types where types: "mapE ?type (msg_fields m) = Inr types"
    and e: "e = PDict [(K ''id'', PInt (msg_id m)), (K ''direction'', PStr dir),
      (K ''reliable'', PBool (truthy (dget d ''reliable'' (PBool False)))), (K ''field_types'', PList types)]"
    by (auto simp: msg_hash_entry_def bindE_eq_Inr dget_find)
  have "field_size tm = (\<lambda>f. bindE (?type f) c_type_size)"
    by (simp add: field_size_def bindE_assoc fun_eq_iff)
  with mapE_then [OF types, of c_type_size] m(1,4)
  have "message_payload_size m tm = bindE (mapE c_type_size types) (\<lambda>ns. Inr (sum_list ns))"
    by (simp add: message_payload_size_def)
  with m(1) e show thesis by (rule that)
qed

lemma same_entry_same_wire:
  assumes "msg_shape ok tm m" and "msg_shape ok' tm' m'"
    and "msg_hash_entry tm m = Inr e" and "msg_hash_entry tm' m' = Inr e"
  shows "message_wire_payload_size m tm = message_wire_payload_size m' tm'"
    and "packet_of tm m = Inr pk \<Longrightarrow> packet_of tm' m' = Inr pk' \<Longrightarrow> wire_of pk = wire_of pk'"
proof -
  from hash_entry_parts [OF assms(1,3)] obtain d dir types where
    m: "m = PDict d" "e = PDict [(K ''id'', PInt (msg_id m)), (K ''direction'', dir),
          (K ''reliable'', PBool (truthy (dget d ''reliable'' (PBool False)))), (K ''field_types'', PList types)]"
      "message_payload_size m tm = bindE (mapE c_type_size types) (\<lambda>ns. Inr (sum_list ns))" .
  from hash_entry_parts [OF assms(2,4)] obtain d' dir' types' where
    m': "m' = PDict d'" "e = PDict [(K ''id'', PInt (msg_id m')), (K ''direction'', dir'),
          (K ''reliable'', PBool (truthy (dget d' ''reliable'' (PBool False)))), (K ''field_types'', PList types')]"
      "message_payload_size m' tm' = bindE (mapE c_type_size types') (\<lambda>ns. Inr (sum_list ns))" .
  from m(2) m'(2) have same: "msg_id m = msg_id m'" "types = types'"
    "truthy (dget d ''reliable'' (PBool False)) = truthy (dget d' ''reliable'' (PBool False))" by simp_all
  then have size: "message_payload_size m tm = message_payload_size m' tm'" using m(3) m'(3) by simp
  with same(3) m(1) m'(1) show "message_wire_payload_size m tm = message_wire_payload_size m' tm'"
    by (simp add: message_wire_payload_size_def)
  assume pk: "packet_of tm m = Inr pk" "packet_of tm' m' = Inr pk'"
  have "pk_id pk = pk_id pk'"
    using packet_of_id [OF msg_shape_mono [OF assms(1)] pk(1)]
    using pk same(1) assms(1,2) by (auto simp: packet_of_def bindE_eq_Inr elim!: msg_shapeE)
  with pk size same(3) m(1) m'(1) show "wire_of pk = wire_of pk'"
    by (auto simp: packet_of_def bindE_eq_Inr get_true_def wire_of_def)
qed

section \<open>The program\<close>

text \<open>The hash input and the program of a well-formed configuration, over the same parts.\<close>

lemma hash_input_parts:
  assumes "protocol_ok v" and "protocol_hash_input v = Inr h"
  obtains cfg tm ms h1 h2 alg rh es where
    "\<forall>m \<in> set ms. msg_shape hashable tm m" and "mapE (msg_hash_entry tm) ms = Inr es"
    and "py_item cfg ''head_byte_1'' = Inr h1" and "py_item cfg ''head_byte_2'' = Inr h2"
    and "checksum_algo_of cfg = Inr alg" and "py_get cfg ''require_handshake'' (PBool True) = Inr rh"
    and "h = PDict [(K ''head_byte_1'', h1), (K ''head_byte_2'', h2), (K ''checksum'', PStr alg),
          (K ''require_handshake'', PBool (truthy rh)), (K ''messages'', PList es)]"
    and "\<And>ld dp. mcu_program ld dp v = bindE (calculate_protocol_hash ld dp v) (proto_of cfg ms tm)"
proof -
  from assms(1) obtain cd cfg tm sc params ms where v: "v = PDict cd"
    "dict_find cd (K ''config'') = Some (PDict cfg)" "dget cd ''type_mappings'' (PDict []) = PDict tm"
    "merge_messages v = Inr (sort_key msg_id (ms @ SYSTEM_MESSAGES))"
    "config_ok cfg params" "messages_ok (PDict tm) ms" "frames_fit cfg (PDict tm) ms"
    by (rule protocol_okE)
  let ?ms = "sort_key msg_id (ms @ SYSTEM_MESSAGES)"
  have shp: "\<forall>m \<in> set ?ms. msg_shape hashable (PDict tm) m"
    using merged_shapes(1) [OF v(6,7)] by (metis set_sort)
  have tm: "or_empty (PDict tm) = PDict tm" by (cases tm) (simp_all add: or_empty_def)
  have prog: "mcu_program ld dp v = bindE (calculate_protocol_hash ld dp v) (proto_of (PDict cfg) ?ms (PDict tm))"
    for ld dp using v(1-4) tm by (simp add: mcu_program_def)
  from assms(2) v(1-4) obtain es h1 h2 where
    parts: "mapE (msg_hash_entry (PDict tm)) ?ms = Inr es" "py_item (PDict cfg) ''head_byte_1'' = Inr h1"
      "py_item (PDict cfg) ''head_byte_2'' = Inr h2"
    and h: "h = PDict [(K ''head_byte_1'', h1), (K ''head_byte_2'', h2),
        (K ''checksum'', PStr (upper (py_str (dget cfg ''checksum'' (PStr ''CRC8''))))),
        (K ''require_handshake'', PBool (truthy (dget cfg ''require_handshake'' (PBool True)))),
        (K ''messages'', PList es)]"
    by (auto simp: protocol_hash_input_def bindE_eq_Inr dget_find)
  show thesis
    by (rule that [OF shp parts _ _ h prog]) (simp_all add: checksum_algo_of_def)
qed

lemma same_wire_messages:
  assumes "mapE (msg_hash_entry tm) ms = Inr es" and "mapE (msg_hash_entry tm') ms' = Inr es"
    and "\<forall>m \<in> set ms. msg_shape hashable tm m" and "\<forall>m \<in> set ms'. msg_shape hashable tm' m"
  shows "mapE (\<lambda>m. message_wire_payload_size m tm) ms = mapE (\<lambda>m. message_wire_payload_size m tm') ms'"
    and "mapE (packet_of tm) ms = Inr pks \<Longrightarrow> mapE (packet_of tm') ms' = Inr pks' \<Longrightarrow>
      map wire_of pks = map wire_of pks'"
proof -
  have two: "list_all2 (\<lambda>m m'. \<exists>e. msg_shape hashable tm m \<and> msg_shape hashable tm' m' \<and>
      msg_hash_entry tm m = Inr e \<and> msg_hash_entry tm' m' = Inr e) ms ms'"
    using assms by (fastforce simp: mapE_eq_Inr list_all2_conv_all_nth)
  then show "mapE (\<lambda>m. message_wire_payload_size m tm) ms = mapE (\<lambda>m. message_wire_payload_size m tm') ms'"
    by (induction rule: list_all2_induct) (auto dest: same_entry_same_wire(1))
  assume "mapE (packet_of tm) ms = Inr pks" "mapE (packet_of tm') ms' = Inr pks'"
  with two show "map wire_of pks = map wire_of pks'"
    by (induction arbitrary: pks pks' rule: list_all2_induct)
      (auto simp: bindE_eq_Inr dest: same_entry_same_wire(2))
qed

lemma same_input_same_wire:
  assumes "protocol_ok v" and "protocol_ok v'" and "protocol_hash_input v = Inr h"
    and "protocol_hash_input v' = Inr h"
    and "mcu_program ld dp v = Inr P" and "mcu_program ld dp v' = Inr P'"
  shows "FRAME_HEADER1 P = FRAME_HEADER1 P'" and "FRAME_HEADER2 P = FRAME_HEADER2 P'"
    and "algo P = algo P'" and "buf_size P = buf_size P'"
    and "require_handshake P = require_handshake P'" and "map wire_of (packets P) = map wire_of (packets P')"
proof -
  obtain cfg tm ms h1 h2 alg rh es where
    a: "\<forall>m \<in> set ms. msg_shape hashable tm m" "mapE (msg_hash_entry tm) ms = Inr es"
      "py_item cfg ''head_byte_1'' = Inr h1" "py_item cfg ''head_byte_2'' = Inr h2"
      "checksum_algo_of cfg = Inr alg" "py_get cfg ''require_handshake'' (PBool True) = Inr rh"
      "h = PDict [(K ''head_byte_1'', h1), (K ''head_byte_2'', h2), (K ''checksum'', PStr alg),
          (K ''require_handshake'', PBool (truthy rh)), (K ''messages'', PList es)]"
      "\<And>ld dp. mcu_program ld dp v = bindE (calculate_protocol_hash ld dp v) (proto_of cfg ms tm)"
    by (rule hash_input_parts [OF assms(1,3)]) (rule that; assumption)
  obtain cfg' tm' ms' h1' h2' alg' rh' es' where
    b: "\<forall>m \<in> set ms'. msg_shape hashable tm' m" "mapE (msg_hash_entry tm') ms' = Inr es'"
      "py_item cfg' ''head_byte_1'' = Inr h1'" "py_item cfg' ''head_byte_2'' = Inr h2'"
      "checksum_algo_of cfg' = Inr alg'" "py_get cfg' ''require_handshake'' (PBool True) = Inr rh'"
      "h = PDict [(K ''head_byte_1'', h1'), (K ''head_byte_2'', h2'), (K ''checksum'', PStr alg'),
          (K ''require_handshake'', PBool (truthy rh')), (K ''messages'', PList es')]"
      "\<And>ld dp. mcu_program ld dp v' = bindE (calculate_protocol_hash ld dp v') (proto_of cfg' ms' tm')"
    by (rule hash_input_parts [OF assms(2,4)]) (rule that; assumption)
  from a(7) b(7) have eq: "h1' = h1" "h2' = h2" "alg' = alg" "truthy rh' = truthy rh" "es' = es" by simp_all
  from assms(5) a(8) obtain n where P: "proto_of cfg ms tm n = Inr P" by (auto simp: bindE_eq_Inr)
  from assms(6) b(8) obtain n' where P': "proto_of cfg' ms' tm' n' = Inr P'" by (auto simp: bindE_eq_Inr)
  note two = same_wire_messages [OF a(2) b(2) [unfolded eq] a(1) b(1)]
  show "FRAME_HEADER1 P = FRAME_HEADER1 P'" "FRAME_HEADER2 P = FRAME_HEADER2 P'"
    "algo P = algo P'" "require_handshake P = require_handshake P'"
    using P P' a(3-6) b(3-6) eq by (auto simp: proto_of_def bindE_eq_Inr)
  show "buf_size P = buf_size P'"
    using P P' two(1) by (auto simp: proto_of_def bindE_eq_Inr max_of_def)
  show "map wire_of (packets P) = map wire_of (packets P')"
    by (rule two(2)) (use P P' in \<open>auto simp: proto_of_def bindE_eq_Inr\<close>)
qed

end
