(* ===== verification/SourceScan.thy ===== *)
theory SourceScan
  imports UserCode Md5
begin

text \<open>
  \<open>scripts/public_source_scan.py\<close>: the release check that no file of the tree holds a private
  term. A file system entry carries its path relative to the root; \<open>path.parts\<close> of the code is
  the absolute path, the parts of the root included. The listing \<open>ROOT.rglob("*")\<close> is the list
  of entries, in its order. The code ends with \<open>SystemExit(message)\<close> or returns.
\<close>

record entry =
  rel_parts :: "string list"
  is_file :: bool
  content :: string

datatype verdict = Clean | Exit string

definition FORBIDDEN_HEX :: "string list" where
  "FORBIDDEN_HEX =
     [''576561706f6e446f636b'', ''4d65726c696e5069636b'', ''47726964506c616365'',
      ''4772696441747461636b'', ''47656e65726963537461747573'', ''2f7461736b2f'', ''2f6465762f73746d3332'']"

definition IGNORED_PARTS :: "string list" where
  "IGNORED_PARTS = [''.git'', ''.pytest_cache'', ''__pycache__'']"

fun fromhex :: "string \<Rightarrow> string res" where        \<comment> \<open>\<open>bytes.fromhex\<close>\<close>
  "fromhex [] = Inr []"
| "fromhex [c] = Inl ValueError"
| "fromhex (a # b # s) =
     (if hex_val_char a < 16 \<and> hex_val_char b < 16
      then bindE (fromhex s) (\<lambda>bs. Inr (char_of (16 * hex_val_char a + hex_val_char b) # bs))
      else Inl ValueError)"

definition occurs_in :: "string \<Rightarrow> string \<Rightarrow> bool" where    \<comment> \<open>\<open>token in data\<close>\<close>
  "occurs_in token data \<longleftrightarrow> split_at_sub token data \<noteq> None"

definition ignored :: "string list \<Rightarrow> entry \<Rightarrow> bool" where
  "ignored root path \<longleftrightarrow>
     \<not> is_file path \<or> list_ex (\<lambda>part. part \<in> set IGNORED_PARTS) (root @ rel_parts path)"

definition violations :: "string list \<Rightarrow> string list \<Rightarrow> entry list \<Rightarrow> string list list" where
  "violations forbidden root tree =
     map rel_parts (filter (\<lambda>path. \<not> ignored root path \<and>
       list_ex (\<lambda>token. occurs_in token (content path)) forbidden) tree)"

definition scan_main :: "string list \<Rightarrow> entry list \<Rightarrow> verdict res" where
  "scan_main root tree =
     bindE (mapE fromhex FORBIDDEN_HEX) (\<lambda>forbidden.
     let found = violations forbidden root tree in
     Inr (if found \<noteq> []
          then Exit (''Forbidden private terms found:\<newline>'' @
                 join ''\<newline>'' (map (\<lambda>path. ''  - '' @ join ''/'' path) found))
          else Clean))"

section \<open>What it reports\<close>

definition FORBIDDEN :: "string list" where
  "FORBIDDEN = [''WeaponDock'', ''MerlinPick'', ''GridPlace'', ''GridAttack'', ''GenericStatus'',
     ''/task/'', ''/dev/stm32'']"

lemma fromhex_FORBIDDEN: "mapE fromhex FORBIDDEN_HEX = Inr FORBIDDEN"
  by code_simp

lemma split_at_sub_prefix: "split_at_sub pat (pat @ s) = Some ([], s)"
  by (subst split_at_sub.simps) simp

lemma split_at_sub_occurs: "split_at_sub pat (a @ pat @ b) \<noteq> None"
proof (induction a)
  case Nil
  show ?case by (simp add: split_at_sub_prefix)
next
  case (Cons c a)
  then show ?case by (auto simp: split_at_sub_Cons)
qed

lemma occurs_in_iff: "occurs_in t s \<longleftrightarrow> (\<exists>a b. s = a @ t @ b)"
  unfolding occurs_in_def using split_at_sub_Some split_at_sub_occurs by (metis not_None_eq surj_pair)

text \<open>The entries the check rejects, in terms of their contents.\<close>

definition leaks :: "string list \<Rightarrow> entry \<Rightarrow> bool" where
  "leaks root path \<longleftrightarrow> is_file path \<and> set (root @ rel_parts path) \<inter> set IGNORED_PARTS = {} \<and>
     (\<exists>t \<in> set FORBIDDEN. \<exists>a b. content path = a @ t @ b)"

lemma leaks_iff:
  "leaks root path \<longleftrightarrow> \<not> ignored root path \<and> list_ex (\<lambda>t. occurs_in t (content path)) FORBIDDEN"
  by (auto simp: leaks_def ignored_def list_ex_iff occurs_in_iff)

lemma scan_violations:
  "scan_main root tree = Inr (if filter (leaks root) tree \<noteq> []
     then Exit (''Forbidden private terms found:\<newline>'' @ join ''\<newline>''
       (map (\<lambda>path. ''  - '' @ join ''/'' (rel_parts path)) (filter (leaks root) tree)))
     else Clean)"
proof -
  have "violations FORBIDDEN root tree = map rel_parts (filter (leaks root) tree)"
    by (simp add: violations_def leaks_iff [abs_def])
  then show ?thesis by (auto simp: scan_main_def fromhex_FORBIDDEN Let_def comp_def)
qed

end
