(* ===== verification/Launch.thy ===== *)
theory Launch
  imports Pipeline
begin

text \<open>
  The two launch files: they read the installed \<open>protocol.yaml\<close>, take the parameters of the node
  from it, replace port and baud rate by launch arguments whose defaults are the values read,
  and describe one action. The classes of \<open>launch\<close> and \<open>launch_ros\<close> are third-party: a
  description is the tree of constructor calls. \<open>get_package_share_directory\<close> is the
  parameter \<open>share\<close>.
\<close>

section \<open>Descriptions\<close>

datatype piece = Lit string | LaunchConfiguration string
datatype argument = Word string | Concat "piece list"
datatype param = Yaml pyval | Substitution piece

type_synonym params = "(pyval \<times> param) list"

record composable_node =
  cn_package :: string
  cn_plugin :: string
  cn_name :: string
  cn_parameters :: "params list"

datatype action =
    DeclareLaunchArgument string string                 \<comment> \<open>name, default value\<close>
  | ComposableNodeContainer string string string string "composable_node list" string "argument list"
      \<comment> \<open>name, namespace, package, executable, nodes, output, arguments\<close>
  | Node string string string bool "params list" "argument list"
      \<comment> \<open>package, executable, output, \<open>emulate_tty\<close>, parameters, arguments\<close>

fun find_param :: "params \<Rightarrow> string \<Rightarrow> param option" where
  "find_param [] k = None"
| "find_param ((k', v) # kvs) k = (if norm_key k' = K k then Some v else find_param kvs k)"

fun put_param :: "params \<Rightarrow> string \<Rightarrow> param \<Rightarrow> params" where   \<comment> \<open>\<open>node_params[k] = v\<close>\<close>
  "put_param [] k v = [(K k, v)]"
| "put_param ((k', v') # kvs) k v =
     (if norm_key k' = K k then (k', v) # kvs else (k', v') # put_param kvs k v)"

lemma find_put_param: "find_param (put_param ps k v) k' = (if k = k' then Some v else find_param ps k')"
  by (induction ps k v rule: put_param.induct) auto

interpretation launch_params: py_mapping find_param put_param
  by unfold_locales (simp_all add: find_put_param)

section \<open>The launch files\<close>

definition package_name :: string where "package_name = ''auto_serial_bridge''"

definition node_params :: "(string \<Rightarrow> pyval res) \<Rightarrow> (string \<Rightarrow> string) \<Rightarrow> fs \<Rightarrow> pyval res" where
  "node_params safe_load share fs =
     (case read_text fs (path_join (path_join (share package_name) ''config'') ''protocol.yaml'') of
        None \<Rightarrow> Inl OSError
      | Some text \<Rightarrow>
          bindE (safe_load text) (\<lambda>protocol_config.
          bindE (py_item protocol_config ''serial_controller'') (\<lambda>sc.
          py_item sc ''ros__parameters'')))"

definition launch_arguments :: "pyval \<Rightarrow> action list res" where
  "launch_arguments params =
     bindE (py_get params ''port'' (PStr ''/dev/ttyACM0'')) (\<lambda>port.
     bindE (py_get params ''baudrate'' (PInt 115200)) (\<lambda>baudrate.
     Inr [DeclareLaunchArgument ''port'' (py_str port),
          DeclareLaunchArgument ''baudrate'' (py_str baudrate),
          DeclareLaunchArgument ''log_level'' ''info'']))"

definition overridden :: "pyval \<Rightarrow> params" where
  "overridden params =
     put_param (put_param (map (\<lambda>(k, v). (k, Yaml v)) (dict_items params))
       ''port'' (Substitution (LaunchConfiguration ''port'')))
       ''baudrate'' (Substitution (LaunchConfiguration ''baudrate''))"

definition log_arguments :: "argument list" where
  "log_arguments = [Word ''--ros-args'', Word ''--log-level'',
     Concat [Lit ''serial_controller:='', LaunchConfiguration ''log_level'']]"

definition launch_by_component ::
  "(string \<Rightarrow> pyval res) \<Rightarrow> (string \<Rightarrow> string) \<Rightarrow> fs \<Rightarrow> action list res" where
  "launch_by_component safe_load share fs =
     bindE (node_params safe_load share fs) (\<lambda>params.
     bindE (launch_arguments params) (\<lambda>args.
     Inr (args @ [ComposableNodeContainer (package_name @ ''_container'') [] ''rclcpp_components''
       ''component_container''
       [\<lparr>cn_package = package_name, cn_plugin = ''auto_serial_bridge::SerialController'',
         cn_name = ''serial_controller'', cn_parameters = [overridden params]\<rparr>]
       ''screen'' log_arguments])))"

definition launch_by_node ::
  "(string \<Rightarrow> pyval res) \<Rightarrow> (string \<Rightarrow> string) \<Rightarrow> fs \<Rightarrow> action list res" where
  "launch_by_node safe_load share fs =
     bindE (node_params safe_load share fs) (\<lambda>params.
     bindE (launch_arguments params) (\<lambda>args.
     Inr (args @ [Node package_name ''serial_node'' ''screen'' True [overridden params] log_arguments])))"

section \<open>What a validated configuration gives\<close>

lemma validated_serial:
  assumes "validate_protocol v = Inr v'"
    and "\<forall>m \<in> set (input_messages v). not_null ''id'' m \<and> not_null ''name'' m"
  obtains sc params port n where "py_item v ''serial_controller'' = Inr (PDict sc)"
    and "py_item (PDict sc) ''ros__parameters'' = Inr (PDict params)"
    and "dict_find params (K ''port'') = Some (PStr port)" and "port \<noteq> []"
    and "dict_find params (K ''baudrate'') = Some (PInt n)" and "0 < n"
proof -
  from validate_sound [OF assms] obtain cd' cfg tm sc params ms where v': "v' = PDict cd'"
    "dget cd' ''serial_controller'' (PDict []) = PDict sc" "dget sc ''ros__parameters'' (PDict []) = PDict params"
    "config_ok cfg params"
    by (rule protocol_okE) (rule that; assumption)
  from assms(1) v'(1) obtain cd c out where v: "v = PDict cd" "cd' = updated_config cd c out"
    by (cases v) (auto simp: validate_protocol_def validate_run_def bindE_eq_Inr Let_def split: if_splits)
  from v'(2) v(2) have "dget cd ''serial_controller'' (PDict []) = PDict sc"
    by (simp add: updated_config_def Let_def dget_set split: if_splits)
  moreover from v'(4) obtain n port where p: "dict_find params (K ''baudrate'') = Some (PInt n)" "0 < n"
    "dict_find params (K ''port'') = Some (PStr port)" "port \<noteq> []"
    unfolding config_ok_def by blast
  moreover have "params \<noteq> []" using p(1) by auto
  moreover from v'(3) this have "sc \<noteq> []" by (auto simp: dget_def)
  ultimately show thesis
    using that v(1) v'(3) by (auto simp: dget_def split: option.splits)
qed

lemma find_overridden:
  "find_param (overridden (PDict params)) k =
     (if k = ''port'' then Some (Substitution (LaunchConfiguration ''port''))
      else if k = ''baudrate'' then Some (Substitution (LaunchConfiguration ''baudrate''))
      else map_option Yaml (dict_find params (K k)))"
proof -
  have "find_param (map (\<lambda>(k, v). (k, Yaml v)) params) k = map_option Yaml (dict_find params (K k))"
    by (induction params) auto
  then show ?thesis by (simp add: overridden_def launch_params.find_put)
qed

end
