(* ===== verification/BuildMatrix.thy ===== *)
theory BuildMatrix
  imports Launch
begin

text \<open>
  \<open>scripts/checksum_build_matrix.py\<close>: build and test a copy of the tree once per checksum
  algorithm, and stop at the first failure. The file system is the map of \<open>UserCode\<close>, with
  absolute path names; \<open>subprocess.run\<close> is the parameter \<open>run\<close>, a function of the command,
  the working directory and the file system that gives back the completed process and the file
  system after it. The temporary directory is the parameter \<open>tmp\<close>; it is removed at the end.
\<close>

section \<open>Paths\<close>

definition SUPPORTED_ALGOS :: "string list" where
  "SUPPORTED_ALGOS = [''NONE'', ''SUM8'', ''XOR8'', ''CRC8'']"

definition GTEST_REGEX :: string where
  "GTEST_REGEX = ''^(test_checksum_algorithms|test_edge_condition|test_packet_handler|'' @
     ''test_packet_handler_reset|test_protocol_structure)$''"

definition under :: "string \<Rightarrow> string \<Rightarrow> bool" where       \<comment> \<open>a path inside a directory\<close>
  "under dir p \<longleftrightarrow> take (length dir + 1) p = dir @ ''/''"

definition slash :: "string \<Rightarrow> string \<Rightarrow> string" where       \<comment> \<open>\<open>Path / name\<close>\<close>
  "slash dir name = dir @ ''/'' @ name"

definition protocol_path :: "string \<Rightarrow> string" where
  "protocol_path repo_root = slash (slash repo_root ''config'') ''protocol.yaml''"

definition IGNORE_PATTERNS :: "string list" where
  "IGNORE_PATTERNS = [''.git'', ''build'', ''install'', ''log'', ''__pycache__'', ''.pytest_cache'']"

definition copy_source_tree :: "string \<Rightarrow> string \<Rightarrow> fs \<Rightarrow> fs" where
  \<comment> \<open>no name below the source root that is ignored is visited\<close>
  "copy_source_tree source_root dest_root fs = (\<lambda>p.
     if under dest_root p then
       let rel = drop (length dest_root + 1) p in
       if list_ex (\<lambda>name. name \<in> set IGNORE_PATTERNS) (split_on CHR ''/'' rel) then fs p
       else (case fs (slash source_root rel) of None \<Rightarrow> fs p | Some c \<Rightarrow> Some c)
     else fs p)"

section \<open>Configurations\<close>

definition load_protocol_config :: "(string \<Rightarrow> pyval res) \<Rightarrow> string \<Rightarrow> fs \<Rightarrow> (pyval \<times> string) res" where
  "load_protocol_config safe_load repo_root fs =
     (case read_text fs (protocol_path repo_root) of
        None \<Rightarrow> Inl OSError
      | Some original_text \<Rightarrow>
          bindE (safe_load original_text) (\<lambda>config. Inr (config, original_text)))"

definition write_protocol_config :: "(pyval \<Rightarrow> string) \<Rightarrow> string \<Rightarrow> pyval \<Rightarrow> fs \<Rightarrow> fs" where
  "write_protocol_config safe_dump repo_root config fs = fs(protocol_path repo_root \<mapsto> safe_dump config)"

definition missing_config :: "pyval \<Rightarrow> bool res" where      \<comment> \<open>\<open>"config" not in base_config\<close>\<close>
  "missing_config base =
     (case base of
        PDict d \<Rightarrow> Inr (\<not> dhas d ''config'')
      | PList xs \<Rightarrow> Inr (PStr ''config'' \<notin> set xs)
      | PStr s \<Rightarrow> Inr (split_at_sub ''config'' s = None)
      | _ \<Rightarrow> Inl TypeError)"

definition with_checksum :: "pyval \<Rightarrow> string \<Rightarrow> pyval res" where
  \<comment> \<open>a deep copy with \<open>["config"]["checksum"]\<close> assigned\<close>
  "with_checksum base algorithm =
     bindE (py_item base ''config'') (\<lambda>cfg.
     case (base, cfg) of
       (PDict d, PDict c) \<Rightarrow>
         Inr (PDict (dict_set d (K ''config'') (PDict (dict_set c (K ''checksum'') (PStr algorithm)))))
     | _ \<Rightarrow> Inl TypeError)"

section \<open>The runs\<close>

record completed =
  returncode :: int
  stdout :: string
  stderr :: string

record matrix_result =
  algorithm :: string
  build :: completed
  ctest :: completed

type_synonym runner = "string list \<Rightarrow> string \<Rightarrow> fs \<Rightarrow> completed \<times> fs"

definition build_cmd :: "string \<Rightarrow> string \<Rightarrow> string list" where
  "build_cmd tmp a =
     [''colcon'', ''--log-base'', slash (slash tmp a) ''log'', ''build'', ''--packages-select'',
      ''auto_serial_bridge'', ''--build-base'', slash (slash tmp a) ''build'', ''--install-base'',
      slash (slash tmp a) ''install'', ''--event-handlers'', ''console_direct+'',
      ''--cmake-force-configure'', ''--cmake-args'', ''-DBUILD_TESTING=ON'']"

definition ctest_cmd :: "string list" where
  "ctest_cmd = [''ctest'', ''--output-on-failure'', ''--no-tests=error'', ''-R'', GTEST_REGEX]"

definition skipped :: completed where
  "skipped = \<lparr>returncode = 1, stdout = [], stderr = ''skipped because build failed''\<rparr>"

definition matrix_root :: "string \<Rightarrow> string" where
  "matrix_root tmp = slash (slash tmp ''src'') ''auto_serial_bridge''"

definition matrix_step ::
  "runner \<Rightarrow> (pyval \<Rightarrow> string) \<Rightarrow> string \<Rightarrow> pyval \<Rightarrow> string \<Rightarrow> fs \<Rightarrow> (matrix_result \<times> fs) res" where
  "matrix_step run safe_dump tmp base a fs =
     bindE (with_checksum base a) (\<lambda>next_config.
     let fs1 = write_protocol_config safe_dump (matrix_root tmp) next_config fs;
         (b, fs2) = run (build_cmd tmp a) (slash tmp ''src'') fs1;
         (c, fs3) = (if returncode b = 0
                     then run ctest_cmd (slash (slash (slash tmp a) ''build'') ''auto_serial_bridge'') fs2
                     else (skipped, fs2))
     in Inr (\<lparr>algorithm = a, build = b, ctest = c\<rparr>, fs3))"

definition passed :: "matrix_result \<Rightarrow> bool" where
  "passed r \<longleftrightarrow> returncode (build r) = 0 \<and> returncode (ctest r) = 0"

fun matrix_loop ::
  "runner \<Rightarrow> (pyval \<Rightarrow> string) \<Rightarrow> string \<Rightarrow> pyval \<Rightarrow> string list \<Rightarrow> fs \<Rightarrow> (matrix_result list \<times> fs) res" where
  "matrix_loop run safe_dump tmp base [] fs = Inr ([], fs)"
| "matrix_loop run safe_dump tmp base (a # as) fs =
     bindE (matrix_step run safe_dump tmp base a fs) (\<lambda>(r, fs').
     if \<not> passed r then Inr ([r], fs')
     else bindE (matrix_loop run safe_dump tmp base as fs') (\<lambda>(rs, fs''). Inr (r # rs, fs'')))"

definition run_checksum_build_matrix ::
  "runner \<Rightarrow> (string \<Rightarrow> pyval res) \<Rightarrow> (pyval \<Rightarrow> string) \<Rightarrow> string \<Rightarrow> string \<Rightarrow> fs \<Rightarrow>
     (matrix_result list \<times> fs) res" where
  "run_checksum_build_matrix run safe_load safe_dump repo_root tmp fs =
     (let fs1 = copy_source_tree repo_root (matrix_root tmp) fs in
      bindE (load_protocol_config safe_load (matrix_root tmp) fs1) (\<lambda>(base_config, _).
      bindE (missing_config base_config) (\<lambda>missing.
      if missing then Inl ValueError
      else
        bindE (matrix_loop run safe_dump tmp base_config SUPPORTED_ALGOS fs1) (\<lambda>(results, fs2).
        Inr (results, \<lambda>p. if under tmp p then None else fs2 p)))))"

definition report_line :: "matrix_result \<Rightarrow> string" where
  "report_line r = algorithm r @ '': build='' @ int_str (returncode (build r)) @
     '' ctest='' @ int_str (returncode (ctest r))"

section \<open>What the matrix covers\<close>

text \<open>A result list as it may come out: every algorithm in order, up to the first failure.\<close>

fun matrix_ok :: "string list \<Rightarrow> matrix_result list \<Rightarrow> bool" where
  "matrix_ok as [] = (as = [])"
| "matrix_ok [] (r # rs) = False"
| "matrix_ok (a # as) (r # rs) =
     (algorithm r = a \<and> (returncode (build r) \<noteq> 0 \<longrightarrow> ctest r = skipped) \<and>
      (if passed r then matrix_ok as rs else rs = []))"

lemma matrix_step_parts:
  assumes "matrix_step run dp tmp base a fs = Inr (r, fs')"
  obtains cfg fs2 where "with_checksum base a = Inr cfg" and "algorithm r = a"
    and "run (build_cmd tmp a) (slash tmp ''src'') (write_protocol_config dp (matrix_root tmp) cfg fs)
      = (build r, fs2)"
    and "(ctest r, fs') = (if returncode (build r) = 0
          then run ctest_cmd (slash (slash (slash tmp a) ''build'') ''auto_serial_bridge'') fs2
          else (skipped, fs2))"
proof -
  from assms obtain cfg where c: "with_checksum base a = Inr cfg" by (auto simp: matrix_step_def bindE_eq_Inr)
  let ?fs1 = "write_protocol_config dp (matrix_root tmp) cfg fs"
  obtain b fs2 where b: "run (build_cmd tmp a) (slash tmp ''src'') ?fs1 = (b, fs2)" by fastforce
  obtain t fs3 where t: "(if returncode b = 0
      then run ctest_cmd (slash (slash (slash tmp a) ''build'') ''auto_serial_bridge'') fs2
      else (skipped, fs2)) = (t, fs3)" by fastforce
  have "matrix_step run dp tmp base a fs = Inr (\<lparr>algorithm = a, build = b, ctest = t\<rparr>, fs3)"
    by (simp only: matrix_step_def c bindE.simps Let_def b t prod.case)
  with assms have "r = \<lparr>algorithm = a, build = b, ctest = t\<rparr>" "fs' = fs3" by simp_all
  then show thesis
    by (intro that [OF c, of fs2]) (simp_all only: matrix_result.select_convs b t)
qed

lemma matrix_step_ok:
  assumes "matrix_step run dp tmp base a fs = Inr (r, fs')"
  shows "algorithm r = a" and "returncode (build r) \<noteq> 0 \<Longrightarrow> ctest r = skipped"
  by (rule matrix_step_parts [OF assms], simp)+

lemma matrix_loop_ok:
  "matrix_loop run dp tmp base as fs = Inr (rs, fs') \<Longrightarrow> matrix_ok as rs"
proof (induction as arbitrary: fs rs)
  case (Cons a as)
  then obtain r fs1 where r: "matrix_step run dp tmp base a fs = Inr (r, fs1)"
    by (auto simp: bindE_eq_Inr)
  with Cons.prems have rs: "if passed r then \<exists>rs'. matrix_loop run dp tmp base as fs1 = Inr (rs', fs') \<and> rs = r # rs'
      else rs = [r]" by (auto simp: bindE_eq_Inr)
  from matrix_step_ok [OF r] rs Cons.IH show ?case by (cases "passed r") auto
qed simp

lemma matrix_ok_all: "matrix_ok as rs \<Longrightarrow> list_all passed rs \<Longrightarrow> map algorithm rs = as"
  by (induction as rs rule: matrix_ok.induct) auto

lemma matrix_ok_prefix: "matrix_ok as rs \<Longrightarrow> map algorithm rs = take (length rs) as \<and> list_all passed (butlast rs)"
  by (induction as rs rule: matrix_ok.induct) (auto split: if_splits)

text \<open>Every build sees the base configuration with nothing but its own algorithm changed.\<close>

definition built_on :: "runner \<Rightarrow> (pyval \<Rightarrow> string) \<Rightarrow> string \<Rightarrow> pyval \<Rightarrow> matrix_result \<Rightarrow> bool" where
  "built_on run dp tmp base r \<longleftrightarrow>
     (\<exists>cfg fs1. with_checksum base (algorithm r) = Inr cfg \<and>
        fs1 (protocol_path (matrix_root tmp)) = Some (dp cfg) \<and>
        fst (run (build_cmd tmp (algorithm r)) (slash tmp ''src'') fs1) = build r)"

lemma matrix_step_built_on:
  assumes "matrix_step run dp tmp base a fs = Inr (r, fs')"
  shows "built_on run dp tmp base r"
proof -
  from assms obtain cfg fs2 where c: "with_checksum base a = Inr cfg" "algorithm r = a"
    and b: "run (build_cmd tmp a) (slash tmp ''src'') (write_protocol_config dp (matrix_root tmp) cfg fs)
      = (build r, fs2)"
    by (rule matrix_step_parts)
  show ?thesis
    unfolding built_on_def c(2)
    by (intro exI [of _ cfg] exI [of _ "write_protocol_config dp (matrix_root tmp) cfg fs"])
      (simp add: c(1) b, simp add: write_protocol_config_def)
qed

lemma matrix_loop_built_on:
  "matrix_loop run dp tmp base as fs = Inr (rs, fs') \<Longrightarrow> list_all (built_on run dp tmp base) rs"
proof (induction as arbitrary: fs rs)
  case (Cons a as)
  then obtain r fs1 where r: "matrix_step run dp tmp base a fs = Inr (r, fs1)" by (auto simp: bindE_eq_Inr)
  with matrix_step_built_on [OF r] Cons show ?case by (cases "passed r") (auto simp: bindE_eq_Inr)
qed simp

text \<open>A well-formed base configuration stays well-formed under every algorithm.\<close>

lemma with_checksum_ok:
  assumes "protocol_ok base" and "a \<in> set SUPPORTED_ALGOS"
  shows "\<exists>cfg. with_checksum base a = Inr cfg \<and> protocol_ok cfg"
proof -
  from assms(1) obtain cd cfg tm sc params ms where v: "base = PDict cd"
    "dict_find cd (K ''config'') = Some (PDict cfg)" "dget cd ''type_mappings'' (PDict []) = PDict tm"
    "dget cd ''serial_controller'' (PDict []) = PDict sc"
    "dget sc ''ros__parameters'' (PDict []) = PDict params"
    "dget cd ''messages'' (PList []) = PList ms"
    "config_ok cfg params" "messages_ok (PDict tm) ms" "frames_fit cfg (PDict tm) ms"
    unfolding protocol_ok_def by blast
  let ?c = "dict_set cfg (K ''checksum'') (PStr a)"
  have keep: "k \<noteq> ''checksum'' \<Longrightarrow> dict_find ?c (K k) = dict_find cfg (K k)"
    "k \<noteq> ''checksum'' \<Longrightarrow> dget ?c k x = dget cfg k x" for k x
    by (simp_all add: dict_find_set_str dget_set)
  have "config_ok ?c params"
    using v(7) assms(2) unfolding config_ok_def
    by (auto simp: keep dict_find_set_str BOOL_OPTIONS_def INT_OPTIONS_def SUPPORTED_ALGOS_def
        SUPPORTED_CHECKSUMS_def)
  moreover have "frames_fit ?c (PDict tm) ms"
    using v(9) unfolding frames_fit_def by (simp add: keep)
  ultimately have "protocol_ok (PDict (dict_set cd (K ''config'') (PDict ?c)))"
    unfolding protocol_ok_def using v(3-6,8) by (simp add: dget_set)
  moreover have "with_checksum base a = Inr (PDict (dict_set cd (K ''config'') (PDict ?c)))"
    using v(1,2) by (simp add: with_checksum_def)
  ultimately show ?thesis by blast
qed

section \<open>What it leaves alone\<close>

text \<open>A runner that stays inside the temporary directory.\<close>

definition confined :: "string \<Rightarrow> runner \<Rightarrow> bool" where
  "confined tmp run \<longleftrightarrow> (\<forall>cmd cwd fs p. \<not> under tmp p \<longrightarrow> snd (run cmd cwd fs) p = fs p)"

lemma under_iff: "under dir p \<longleftrightarrow> (\<exists>r. p = dir @ ''/'' @ r)"
proof
  assume "under dir p"
  then have "p = (dir @ ''/'') @ drop (length dir + 1) p" unfolding under_def by (metis append_take_drop_id)
  then show "\<exists>r. p = dir @ ''/'' @ r" by auto
qed (auto simp: under_def)

lemma under_slash: "under dir p \<Longrightarrow> under dir (slash p name)" "under dir (slash dir name)"
  by (auto simp: under_iff slash_def)

lemma under_trans: "under tmp d \<Longrightarrow> under d p \<Longrightarrow> under tmp p"
  by (auto simp: under_iff)

lemma matrix_root_under: "under tmp (matrix_root tmp)" "under tmp (protocol_path (matrix_root tmp))"
  by (simp_all add: matrix_root_def protocol_path_def under_slash)

lemma matrix_step_confined:
  assumes "confined tmp run" and "matrix_step run dp tmp base a fs = Inr (r, fs')" and "\<not> under tmp p"
  shows "fs' p = fs p"
proof -
  from assms(2) obtain cfg fs2 where
    b: "run (build_cmd tmp a) (slash tmp ''src'') (write_protocol_config dp (matrix_root tmp) cfg fs) = (build r, fs2)"
    and c: "(ctest r, fs') = (if returncode (build r) = 0
          then run ctest_cmd (slash (slash (slash tmp a) ''build'') ''auto_serial_bridge'') fs2
          else (skipped, fs2))"
    by (rule matrix_step_parts) (rule that; assumption)
  have run: "snd (run cmd cwd g) p = g p" for cmd cwd g
    using assms(1,3) by (simp add: confined_def)
  have "p \<noteq> protocol_path (matrix_root tmp)" using assms(3) matrix_root_under(2) by blast
  then have "fs2 p = fs p"
    using run [of "build_cmd tmp a" "slash tmp ''src''" "write_protocol_config dp (matrix_root tmp) cfg fs"] b
    by (simp add: write_protocol_config_def)
  moreover have "fs' p = fs2 p"
    using c run [of ctest_cmd _ fs2] by (cases "returncode (build r) = 0") (auto, metis snd_conv)
  ultimately show ?thesis by simp
qed

lemma matrix_loop_confined:
  assumes "confined tmp run" and "\<not> under tmp p"
  shows "matrix_loop run dp tmp base as fs = Inr (rs, fs') \<Longrightarrow> fs' p = fs p"
proof (induction as arbitrary: fs rs)
  case (Cons a as)
  then obtain r fs1 where r: "matrix_step run dp tmp base a fs = Inr (r, fs1)" by (auto simp: bindE_eq_Inr)
  with matrix_step_confined [OF assms(1) r assms(2)] Cons show ?case
    by (cases "passed r") (auto simp: bindE_eq_Inr)
qed simp

lemma copy_other: "\<not> under dest p \<Longrightarrow> copy_source_tree src dest fs p = fs p"
  by (simp add: copy_source_tree_def)

section \<open>The whole run\<close>

lemma copied_config:
  "copy_source_tree repo (matrix_root tmp) fs (protocol_path (matrix_root tmp)) =
     (case fs (protocol_path repo) of None \<Rightarrow> fs (protocol_path (matrix_root tmp)) | Some c \<Rightarrow> Some c)"
proof -
  have rel: "protocol_path d = slash d ''config/protocol.yaml''" for d
    by (simp add: protocol_path_def slash_def)
  have "drop (length d + 1) (slash d r) = r" for d r by (simp add: slash_def)
  moreover have "\<not> list_ex (\<lambda>name. name \<in> set IGNORE_PATTERNS) (split_on CHR ''/'' ''config/protocol.yaml'')"
    by (simp add: IGNORE_PATTERNS_def)
  ultimately show ?thesis
    unfolding rel copy_source_tree_def by (simp add: under_slash Let_def del: split_on.simps)
qed

lemma matrix_step_total:
  assumes "with_checksum base a = Inr cfg"
  shows "\<exists>r fs'. matrix_step run dp tmp base a fs = Inr (r, fs')"
  using assms by (simp add: matrix_step_def Let_def split: prod.split)

lemma matrix_loop_total:
  assumes "\<forall>a \<in> set as. \<exists>cfg. with_checksum base a = Inr cfg"
  shows "\<exists>rs fs'. matrix_loop run dp tmp base as fs = Inr (rs, fs')"
  using assms
proof (induction as arbitrary: fs)
  case (Cons a as)
  then obtain r fs1 where r: "matrix_step run dp tmp base a fs = Inr (r, fs1)"
    using matrix_step_total by (metis list.set_intros(1))
  moreover from Cons obtain rs fs' where "matrix_loop run dp tmp base as fs1 = Inr (rs, fs')" by fastforce
  ultimately show ?case by (cases "passed r") simp_all
qed simp

text \<open>The run on a tree whose configuration is well-formed: it returns, and this is what it did.\<close>

lemma matrix_run:
  assumes "read_text fs (protocol_path repo) = Some text" and "ld text = Inr base" and "protocol_ok base"
  obtains rs fs1 fs' where
    "run_checksum_build_matrix run ld dp repo tmp fs = Inr (rs, \<lambda>p. if under tmp p then None else fs' p)"
    and "matrix_loop run dp tmp base SUPPORTED_ALGOS fs1 = Inr (rs, fs')"
proof -
  let ?fs1 = "copy_source_tree repo (matrix_root tmp) fs"
  from assms(1) have "read_text ?fs1 (protocol_path (matrix_root tmp)) = Some text"
    by (auto simp: read_text_def copied_config split: option.splits)
  with assms(2) have l: "load_protocol_config ld (matrix_root tmp) ?fs1 = Inr (base, text)"
    by (simp add: load_protocol_config_def)
  from assms(3) have m: "missing_config base = Inr False"
    by (auto simp: protocol_ok_def missing_config_def dhas_def)
  from with_checksum_ok [OF assms(3)] obtain rs fs' where
    r: "matrix_loop run dp tmp base SUPPORTED_ALGOS ?fs1 = Inr (rs, fs')"
    using matrix_loop_total by metis
  with l m have "run_checksum_build_matrix run ld dp repo tmp fs = Inr (rs, \<lambda>p. if under tmp p then None else fs' p)"
    by (simp add: run_checksum_build_matrix_def Let_def)
  with r show thesis by (intro that)
qed

lemma matrix_loop_of_run:
  assumes "run_checksum_build_matrix run ld dp repo tmp fs = Inr (rs, fs')"
  obtains base fs2 where
    "matrix_loop run dp tmp base SUPPORTED_ALGOS (copy_source_tree repo (matrix_root tmp) fs) = Inr (rs, fs2)"
    and "fs' = (\<lambda>p. if under tmp p then None else fs2 p)"
  using assms by (auto simp: run_checksum_build_matrix_def Let_def bindE_eq_Inr split: if_splits)

end
