(* ===== verification/Spec2Isabelle.thy ===== *)
theory Spec2Isabelle
  imports Demo Detection Reception Contract SourceScan BuildMatrix
begin

text \<open>Verification of \<open>auto_serial_bridge\<close>: the code generator \<open>scripts/codegen.py\<close> that turns a
  protocol description (\<open>config/protocol.yaml\<close>) into the C code of a microcontroller, the C++
  headers of a ROS node and a document, and the C protocol code it emits; with the build matrix,
  the release scan and the two launch files around it.

  The program. \<open>main\<close> reads the YAML file, \<open>validate_protocol\<close> checks and normalises it, and
  either the referenced ROS packages are printed or five files are written. Two of them
  (\<open>protocol.h\<close>, \<open>protocol.c\<close>) contain USER CODE blocks whose content is taken over from the
  file of the previous run. Both peers compare a 32-bit hash of the wire contract in a handshake.

  Conventions. A Python function that may raise is a function into \<open>exn + 'a\<close>
  (\<open>Prelude\<close>). A value as \<open>yaml.safe_load\<close> returns it is a \<open>pyval\<close> (\<open>PyVal\<close>); every
  \<open>.get\<close>, subscript and loop over such a value may raise as in Python. Strings are the bytes of
  their UTF-8 encoding (\<open>PyStr\<close>). The file system is a map from paths to contents. PyYAML,
  \<open>subprocess.run\<close>, \<open>get_package_share_directory\<close> and directory listings are parameters.

  Theories, in the order of the code:
  \<^item> \<open>Prelude\<close>, \<open>PyStr\<close>, \<open>PyVal\<close>, \<open>PyRegex\<close>, \<open>Md5\<close>: results, strings, values, the
    regular expressions (a derivative matcher proved against its language) and the digest.
  \<^item> \<open>Schema\<close>: type table, built-in messages, sizes, \<open>merge_messages\<close>.
  \<^item> \<open>Checksum\<close>: \<open>generate_crc8_table\<close> and the emitted \<open>checksum_update\<close>; two locales say
    what a checksum detects and are interpreted for CRC8, SUM8 and XOR8.
  \<^item> \<open>Hash\<close>: \<open>_protocol_hash_input\<close>, \<open>calculate_protocol_hash\<close>; \<open>Contract\<close>: what equal hash
    inputs imply.
  \<^item> \<open>RosPath\<close>: \<open>_analyze_ros_path\<close> and the merged size requirements.
  \<^item> \<open>Validate\<close>: \<open>validate_protocol\<close>, one definition per check, in the order of the code.
    \<open>ValidateSound\<close>, \<open>ValidateRun\<close>: an accepted configuration is \<open>protocol_ok\<close>.
    \<open>ValidateComplete\<close>: the converse. \<open>ValidateTotal\<close>: when no exception escapes.
  \<^item> \<open>UserCode\<close>, \<open>Emit\<close>: blocks, \<open>write_generated_file\<close> (a store of text files, stated as
    a locale), and the statements of a generator.
  \<^item> \<open>GenHeader\<close>, \<open>GenSource\<close>, \<open>GenConfig\<close>, \<open>GenBindings\<close>, \<open>GenDoc\<close>: the five
    generators, write by write; \<open>GenShape\<close>, \<open>GenTotal\<close>: they do not raise on validated input;
    \<open>McuFiles\<close>: no text they write can be taken for a block; \<open>Guards\<close>: the size checks of the
    generated handlers.
  \<^item> \<open>Pipeline\<close>, \<open>Regenerate\<close>: \<open>main\<close>, the paths it touches, the second run.
  \<^item> \<open>McuFsm\<close>: what the emitted \<open>protocol.c\<close> does, as a state machine on bytes, 8- and
    16-bit counters kept at their width and an access outside \<open>rx_buffer\<close> as \<open>None\<close>;
    \<open>McuLink\<close>: its parameters for a configuration; \<open>Detection\<close>: errors in transit;
    \<open>Reception\<close>: runs as an inductive relation and where their events come from.
  \<^item> \<open>Launch\<close>, \<open>BuildMatrix\<close>, \<open>SourceScan\<close>: the other Python files.
  \<^item> \<open>Demo\<close>: concrete configurations for the examples that follow the properties here.

  Properties. The generator: acceptance means well-formedness and the other way round, a run on
  an accepted file succeeds, is idempotent and keeps user code, and only success or exit status
  1 or 2 come out of it under stated conditions. The emitted receiver: memory safety on every
  input, complete and ordered delivery, no event without a valid frame, detection of one changed
  byte, odd bit errors and 8-bit bursts, recovery from any state within 256 zero bytes (the bound
  is the longest packet, 255 bytes, and its check byte). The built-in messages, the hash, the
  field paths, the document, the build matrix, the launch files and the scan follow. Four
  properties show where the code does not do what it means to: a null ID, a field that is not a
  mapping, remapped built-in types, and a scan below an ignored directory.

  Bounds and termination. There is no fuel: every definition is total by structural recursion or
  a measure (the receiver re-dispatches the length byte at most once).

  Not modelled, and approximations:
  \<^item> the C++ node (\<open>PacketHandler\<close>, \<open>ReliableSender\<close>, \<open>SerialController\<close>), the web editor,
    \<open>auto_udev.sh\<close> and the tests, which are not Python or not program code;
  \<^item> I/O errors other than a missing input file, directory creation, \<open>argparse\<close> beyond the
    parsed options; when a generator raises, the files already written are not part of the result;
  \<^item> word characters and case mapping of non-ASCII text, which Python extends to Unicode; IDs
    that are floats are not ordered;
  \<^item> the texts of validation messages, which are constructors of \<open>verr\<close> with the values shown;
  \<^item> the C compiler: packet structs are taken as packed and little-endian, as the emitted code
    and the document say, and user callbacks are events without an effect on the state.\<close>

section \<open>The generator\<close>

text \<open>
  C1: a configuration that \<open>validate_protocol\<close> accepts, with no explicit null for a
  message's \<open>id\<close> or \<open>name\<close>, comes out well-formed: every option, message and field has
  the shape the generators rely on, IDs, C symbols and topics are unique, every frame fits
  the buffer.
\<close>

theorem accepted_configuration_ok:
  assumes "validate_protocol v = Inr v'"
    and "\<forall>m \<in> set (input_messages v). not_null ''id'' m \<and> not_null ''name'' m"
  shows "protocol_ok v'"
  by (rule validate_sound [OF assms])

lemma accepted_configuration_ok_witness: "protocol_ok demo_result"
  by (rule accepted_configuration_ok [OF demo_validate demo_not_null])







section \<open>The generated device code\<close>



text \<open>
  C6: a stream of well-formed frames is delivered completely and in order: each packet
  reaches its callback with its exact bytes, reliable packets are acknowledged with their
  sequence number, a heartbeat is echoed, a handshake is answered, and nothing else happens.
\<close>

theorem frames_delivered_in_order:
  assumes "proto_wf P" and "proto_ids P" and "idle P s"
    and "\<forall>(pk, payload) \<in> set ms. packet_ok P pk payload"
  shows "\<exists>s'. feed_all P s (concat (map (\<lambda>(pk, payload). send_packet P (pk_id pk) payload) ms))
      = Some (s', concat (map (\<lambda>(pk, payload). packet_events P pk payload) ms)) \<and> idle P s'"
  using mcu.stream_delivered [of P s ms] assms by blast

lemma frames_delivered_in_order_witness:
  "\<exists>s'. feed_all demo_proto (mcu_init demo_proto)
      (send_packet demo_proto 1 [10, 20, 30, 40, 7] @ send_packet demo_proto HEARTBEAT_ID [1, 0, 0, 0])
    = Some (s', [On_receive ''Motor'' [10, 20, 30, 40], send_reliable_ack demo_proto 1 7,
                 Serial_write (send_packet demo_proto HEARTBEAT_ID [1, 0, 0, 0]),
                 On_receive ''Heartbeat'' [1, 0, 0, 0]])"
  using frames_delivered_in_order [OF demo_proto_ok demo_idle, of
      "[(\<lparr>pk_name = ''Motor'', pk_id = 1, pk_size = 4, pk_reliable = True\<rparr>, [10, 20, 30, 40, 7]),
        (\<lparr>pk_name = ''Heartbeat'', pk_id = HEARTBEAT_ID, pk_size = 4, pk_reliable = False\<rparr>, [1, 0, 0, 0])]"]
  by (simp add: packet_ok_def packet_events_def) blast

text \<open>
  C7: nothing is made up. On any input from reset, the bytes received split into noise and
  complete valid frames, one per dispatched packet and in order, and the events are exactly
  those of these frames: each callback got bytes that came in a frame with a right check byte,
  each reply answers such a frame. Holds for every algorithm but \<open>NONE\<close>.
\<close>

theorem delivered_was_received:
  assumes "proto_wf P" and "algo P \<noteq> NONE" and "feed_all P (mcu_init P) bs = Some (s, evs)"
  shows "\<exists>fs rest.
    bs = concat (map (\<lambda>(noise, pk, payload). noise @ send_packet P (pk_id pk) payload) fs) @ rest \<and>
    (\<forall>(noise, pk, payload) \<in> set fs. packet_ok P pk payload) \<and>
    evs = concat (map (\<lambda>(noise, pk, payload). packet_events P pk payload) fs)"
proof -
  have "stretch_bytes P = (\<lambda>(noise, pk, payload). noise @ send_packet P (pk_id pk) payload)"
    "stretch_events P = (\<lambda>(noise, pk, payload). packet_events P pk payload)" by auto
  moreover from received_frames [OF feed_all_received [OF assms(3)] assms(1,2)] obtain fs noise cur where
    "bs = concat (map (stretch_bytes P) fs) @ noise @ cur" "list_all (stretch_ok P) fs"
    "evs = concat (map (stretch_events P) fs)" by blast
  ultimately show ?thesis
    by (intro exI [of _ fs] exI [of _ "noise @ cur"]) (auto simp: list_all_iff split_beta)
qed

lemma delivered_was_received_witness:
  "\<exists>fs rest. send_packet demo_proto 1 [10, 20, 30, 40, 7] =
      concat (map (\<lambda>(noise, pk, payload). noise @ send_packet demo_proto (pk_id pk) payload) fs) @ rest \<and>
    concat (map (\<lambda>(noise, pk, payload). packet_events demo_proto pk payload) fs) \<noteq> []"
proof -
  let ?pk = "\<lparr>pk_name = ''Motor'', pk_id = 1, pk_size = 4, pk_reliable = True\<rparr>"
  have "packet_ok demo_proto ?pk [10, 20, 30, 40, 7]" by (simp add: packet_ok_def)
  from packet_delivered [OF demo_proto_ok demo_idle this] obtain s where
    run: "feed_all demo_proto (mcu_init demo_proto) (send_packet demo_proto (pk_id ?pk) [10, 20, 30, 40, 7])
      = Some (s, packet_events demo_proto ?pk [10, 20, 30, 40, 7])" by blast
  have "algo demo_proto \<noteq> NONE" "pk_id ?pk = 1" by simp_all
  from delivered_was_received [OF demo_proto_ok(1) this(1) run] this(2) obtain fs rest where
    fs: "send_packet demo_proto 1 [10, 20, 30, 40, 7] =
      concat (map (\<lambda>(noise, pk, payload). noise @ send_packet demo_proto (pk_id pk) payload) fs) @ rest"
    and evs: "packet_events demo_proto ?pk [10, 20, 30, 40, 7] =
      concat (map (\<lambda>(noise, pk, payload). packet_events demo_proto pk payload) fs)" by auto
  have "packet_events demo_proto ?pk [10, 20, 30, 40, 7] \<noteq> []" by (simp add: packet_events_def)
  with fs evs show ?thesis by (intro exI [of _ fs] exI [of _ rest] conjI) (assumption, metis)
qed

text \<open>
  C8: a frame damaged in any one byte of its ID, its data or its check byte is dropped
  without an event, and the receiver is idle again right after it, for every algorithm but
  \<open>NONE\<close>.
\<close>

theorem damaged_byte_dropped:
  assumes "idle P s" and "length ds \<le> buf_size P" and "buf_size P \<le> 255" and "algo P \<noteq> NONE"
    and "k < length (send_packet P i ds)" and "k \<notin> {0, 1, 3}" and "b \<noteq> send_packet P i ds ! k"
  shows "\<exists>s'. feed_all P s ((send_packet P i ds)[k := b]) = Some (s', []) \<and> idle P s'"
  by (rule corrupted_byte_dropped [OF assms])

lemma damaged_byte_dropped_witness:
  "\<exists>b s'. feed_all demo_proto (mcu_init demo_proto) ((send_packet demo_proto 1 [10, 20, 30, 40, 7])[5 := b])
    = Some (s', []) \<and> b = 21"
proof -
  have f: "length (send_packet demo_proto 1 [10, 20, 30, 40, 7]) = 10"
    "send_packet demo_proto 1 [10, 20, 30, 40, 7] ! 5 = 20" by (simp_all add: send_packet_eq)
  from damaged_byte_dropped [OF demo_idle, of "[10, 20, 30, 40, 7]" 5 1 21] f show ?thesis by simp blast
qed

text \<open>
  C9: CRC8 and XOR8 detect any odd number of flipped bits in the ID, the data and the check
  byte of a frame: it is dropped without an event.
\<close>

theorem odd_bit_errors_dropped:
  assumes "idle P s" and "length ds \<le> buf_size P" and "buf_size P \<le> 255"
    and "algo P = CRC8 \<or> algo P = XOR8" and "length ds' = length ds"
    and "odd_flips ([i, of_nat (length ds)] @ ds @ [calculate_checksum (algo P) ([i, of_nat (length ds)] @ ds)])
           ([i', of_nat (length ds)] @ ds' @ [c])"
  shows "\<exists>s'. feed_all P s ([FRAME_HEADER1 P, FRAME_HEADER2 P, i', of_nat (length ds)] @ ds' @ [c])
    = Some (s', []) \<and> idle P s'"
  by (rule odd_flips_dropped [OF assms])

lemma odd_bit_errors_dropped_witness:
  "\<exists>c s'. feed_all demo_proto (mcu_init demo_proto) [0x5A, 0xA5, 3, 2, 8, 8, c] = Some (s', []) \<and>
     c = calculate_checksum CRC8 [1, 2, 8, 8]"
proof -
  let ?c = "calculate_checksum CRC8 [1, 2, 8, 8]"
  have d: "parity8 1" "parity8 2" "\<not> parity8 0"
    by (simp_all add: parity8_bits bit_numeral_rec bit_1_iff numeral_eq_Suc)
  have "odd_flips [1, 2, 8, 8, ?c] [3, 2, 8, 8, ?c]"
    unfolding odd_flips_def parity_list_def using d by simp
  then have "odd_flips ([1, of_nat (length [8, 8 :: u8])] @ [8, 8] @ [calculate_checksum (algo demo_proto)
      ([1, of_nat (length [8, 8 :: u8])] @ [8, 8])]) ([3, of_nat (length [8, 8 :: u8])] @ [8, 8] @ [?c])"
    by simp
  from odd_bit_errors_dropped [OF demo_idle _ _ _ refl this] obtain s' where
    "feed_all demo_proto (mcu_init demo_proto) ([FRAME_HEADER1 demo_proto, FRAME_HEADER2 demo_proto, 3,
       of_nat (length [8, 8 :: u8])] @ [8, 8] @ [?c]) = Some (s', [])" by auto
  then show ?thesis by (simp del: feed_all.simps)
qed



text \<open>
  C11: the receiver recovers from any state: whatever it has seen before, 256 idle-line zero
  bytes bring it back to waiting for a header, provided neither header byte is zero.
\<close>

theorem receiver_resynchronises:
  assumes "proto_wf P" and "mcu_inv P s" and "FRAME_HEADER1 P \<noteq> 0" and "FRAME_HEADER2 P \<noteq> 0"
  shows "\<exists>s' evs. feed_all P s (replicate 256 0) = Some (s', evs) \<and> idle P s'"
proof (rule resync_run [OF assms(1,3,4,2)])
  show "pending s \<le> 256" using pending_bound [OF assms(2,1)] by linarith
qed

lemma receiver_resynchronises_witness:
  "\<exists>s' evs. feed_all demo_proto (mcu_init demo_proto) (replicate 256 0) = Some (s', evs) \<and> idle demo_proto s'"
  using receiver_resynchronises [OF demo_proto_ok(1) mcu_inv_init] by simp

section \<open>The built-in messages\<close>

text \<open>
  C12: the generated device echoes a heartbeat: fed a heartbeat frame it writes back the very
  same frame, then calls the user's hook. Holds for every validated configuration whose type
  mappings leave \<open>uint32_t\<close> alone.
\<close>

theorem heartbeat_echoed:
  assumes "protocol_ok v" and "mcu_program ld dp v = Inr P"
    and "py_get v ''type_mappings'' (PDict []) = Inr tm" and "keeps_uint32 tm"
    and "idle P s" and "length num = 4"
  shows "\<exists>s'. feed_all P s (send_packet P HEARTBEAT_ID num) =
    Some (s', [Serial_write (send_packet P HEARTBEAT_ID num), On_receive ''Heartbeat'' num]) \<and> idle P s'"
proof -
  let ?pk = "\<lparr>pk_name = ''Heartbeat'', pk_id = HEARTBEAT_ID, pk_size = 4, pk_reliable = False\<rparr>"
  from mcu_program_ok [OF assms(1), of ld dp] assms(2) have "proto_wf P" "proto_ids P" by auto
  moreover have "packet_ok P ?pk num"
    using system_packet(1) [OF assms(1-4)] assms(6) by (simp add: packet_ok_def)
  ultimately show ?thesis
    using packet_delivered [OF _ _ assms(5), of ?pk num] by (simp add: packet_events_def)
qed

lemma demo_program:
  obtains P where "mcu_program (\<lambda>_. Inr demo_config) (\<lambda>_. []) demo_result = Inr P"
    and "idle P (mcu_init P)" and "keeps_uint32 demo_types"
  using mcu_program_ok [OF demo_protocol_ok, of "\<lambda>_. Inr demo_config" "\<lambda>_. []"]
  by (auto simp: idle_def mcu_init_def keeps_uint32_def get_c_type_def demo_types_def demo_map_def)

lemma heartbeat_echoed_witness:
  "\<exists>P s'. mcu_program (\<lambda>_. Inr demo_config) (\<lambda>_. []) demo_result = Inr P \<and>
     feed_all P (mcu_init P) (send_packet P HEARTBEAT_ID [7, 0, 0, 0]) =
       Some (s', [Serial_write (send_packet P HEARTBEAT_ID [7, 0, 0, 0]), On_receive ''Heartbeat'' [7, 0, 0, 0]])"
proof -
  obtain P where P: "mcu_program (\<lambda>_. Inr demo_config) (\<lambda>_. []) demo_result = Inr P"
    "idle P (mcu_init P)" "keeps_uint32 demo_types" by (rule demo_program)
  from heartbeat_echoed [OF demo_protocol_ok P(1) demo_type_mappings P(3,2), of "[7, 0, 0, 0]"] P(1)
  show ?thesis by auto
qed






section \<open>The protocol hash\<close>








text \<open>
  C16: the hash input fixes the wire format. Two well-formed configurations with the same hash
  input give C programs that produce the same frames and agree, packet by packet, on ID, size
  and reliability; so peers that agree on more than the 32-bit digest can talk to each other.
\<close>

theorem hash_input_fixes_wire:
  assumes "protocol_ok v" and "protocol_ok v'" and "protocol_hash_input v = Inr h"
    and "protocol_hash_input v' = Inr h"
    and "mcu_program ld dp v = Inr P" and "mcu_program ld dp v' = Inr P'"
  shows "send_packet P = send_packet P' \<and> buf_size P = buf_size P' \<and>
    require_handshake P = require_handshake P' \<and>
    map (\<lambda>pk. (pk_id pk, pk_size pk, pk_reliable pk)) (packets P) =
    map (\<lambda>pk. (pk_id pk, pk_size pk, pk_reliable pk)) (packets P')"
proof -
  note same = same_input_same_wire [OF assms]
  have "send_packet P = send_packet P'" by (intro ext) (simp add: send_packet_def same(1-3) Let_def)
  with same(4-6) show ?thesis by (simp add: wire_of_def [abs_def])
qed

definition titled :: pyval where
  "titled = PDict (dict_set (dict_items demo_result) (K ''title'') (PStr ''demo''))"

lemma titled_get: "k \<noteq> ''title'' \<Longrightarrow> py_get titled k x = py_get demo_result k x"
proof -
  obtain cd where cd: "demo_result = PDict cd" by (simp add: demo_result_def demo_with_def)
  assume "k \<noteq> ''title''"
  then show ?thesis unfolding titled_def cd by (simp add: dget_set)
qed

lemma titled_input: "protocol_hash_input titled = protocol_hash_input demo_result"
  by (simp add: protocol_hash_input_def merge_messages_def titled_get)

lemma titled_ok: "protocol_ok titled"
proof -
  obtain cd where cd: "demo_result = PDict cd" by (simp add: demo_result_def demo_with_def)
  then have t: "titled = PDict (dict_set cd (K ''title'') (PStr ''demo''))"
    unfolding titled_def cd by simp
  show ?thesis
    using demo_protocol_ok unfolding protocol_ok_def t cd by (simp add: dict_find_set_str dget_set)
qed

lemma hash_input_fixes_wire_witness:
  "\<exists>P P'. mcu_program (\<lambda>_. Inr demo_config) (\<lambda>_. []) demo_result = Inr P \<and>
     mcu_program (\<lambda>_. Inr demo_config) (\<lambda>_. []) titled = Inr P' \<and> send_packet P = send_packet P'"
proof -
  obtain cd where cd: "demo_result = PDict cd" by (simp add: demo_result_def demo_with_def)
  obtain n where "calculate_protocol_hash (\<lambda>_. Inr demo_config) (\<lambda>_. []) demo_result = Inr n"
    using hash_total [OF demo_protocol_ok] unfolding total_def by blast
  then obtain h where h: "protocol_hash_input demo_result = Inr h"
    unfolding cd calculate_protocol_hash_def canonicalize_protocol_hash_input_def
    by (auto simp: bindE_eq_Inr)
  obtain P P' where P: "mcu_program (\<lambda>_. Inr demo_config) (\<lambda>_. []) demo_result = Inr P"
    "mcu_program (\<lambda>_. Inr demo_config) (\<lambda>_. []) titled = Inr P'"
    using mcu_program_ok [OF demo_protocol_ok] mcu_program_ok [OF titled_ok] by blast
  from hash_input_fixes_wire [OF demo_protocol_ok titled_ok h h [folded titled_input] P] P
  show ?thesis by blast
qed

text \<open>C17: the protocol hash fits the 32 bits of the handshake packet, whatever the text hashed.\<close>

theorem hash_fits_handshake:
  assumes "calculate_protocol_hash ld dp src = Inr h"
  shows "h < 2 ^ 32"
  by (rule hash_32bit [OF assms])

lemma hash_fits_handshake_witness:
  "\<exists>h. calculate_protocol_hash (\<lambda>_. Inr demo_config) (\<lambda>_. []) demo_result = Inr h \<and> h < 2 ^ 32"
proof -
  obtain h where "calculate_protocol_hash (\<lambda>_. Inr demo_config) (\<lambda>_. []) demo_result = Inr h"
    using hash_total [OF demo_protocol_ok] unfolding total_def by blast
  with hash_fits_handshake [OF this] show ?thesis by blast
qed

section \<open>Validation\<close>

text \<open>
  C18: a well-formed configuration without the two retired keys is accepted and returned
  unchanged: the checks reject nothing that the specification allows.
\<close>

theorem well_formed_accepted:
  assumes "protocol_ok v" and "no_retired_keys v"
  shows "validate_protocol v = Inr v"
  by (rule validate_complete [OF assms])

lemma well_formed_accepted_witness: "validate_protocol demo_result = Inr demo_result"
  by (rule well_formed_accepted [OF demo_protocol_ok])
    (simp add: no_retired_keys_def demo_result_def demo_with_def demo_cfg_def dget_def dhas_def Let_def)





text \<open>
  C21: validation accepts a message whose \<open>id\<close> is an explicit null, and the generator then
  dies with a \<open>TypeError\<close> when it sorts the messages: the configuration is wrong, but it is
  not reported as such.
\<close>

theorem null_id_crashes:
  "\<exists>v. validate_protocol demo_null_id = Inr v \<and> generate_all ld dp v out fs = Inl TypeError"
proof -
  let ?v = "demo_with demo_map ''CRC8'' (demo_items' PNone)"
  have "merge_messages ?v = Inl TypeError"
    by (simp add: merge_messages_def demo_with_def dget_def sort_by_id_def SYSTEM_MESSAGES_def)
      (simp add: system_message_defs)
  then have "generate_all ld dp ?v out fs = Inl TypeError"
    by (simp add: generate_all_def) (simp add: demo_with_def dget_def)
  with demo_null_id_accepted show ?thesis by blast
qed

text \<open>
  C22: a type mapping may redirect the C types of the built-in messages. Mapping
  \<open>uint32_t\<close> to \<open>uint8_t\<close> is accepted and leaves one byte of the handshake's 32-bit hash.
\<close>

theorem system_types_can_be_remapped:
  "\<exists>v. validate_protocol (demo_with remap ''crc8'' (demo_items (PInt 1))) = Inr v \<and>
     py_get v ''type_mappings'' (PDict []) = Inr (PDict remap) \<and>
     message_wire_payload_size msg_Handshake (PDict remap) = Inr 1"
  using demo_remap_accepted remap_sizes(3)
  by (intro exI [of _ "demo_with remap ''CRC8'' (demo_items' (PInt 1))"]) (simp add: demo_with_def dget_def)


section \<open>ROS field paths\<close>

text \<open>
  C24: the size checks of a generated handler are exact: a container is checked against
  \<open>n\<close> entries if and only if some field indexes it at \<open>n - 1\<close> and none indexes it further.
\<close>

theorem size_checks_exact:
  assumes "field_paths b flds = Inr (es, reqs)"
  shows "(c, n) \<in> set (sorted_requirements reqs) \<longleftrightarrow>
    (\<exists>i. accessed b flds c i \<and> n = i + 1) \<and> (\<forall>i. accessed b flds c i \<longrightarrow> i < n)"
  by (rule requirements_exact [OF assms])

lemma demo_field_paths:
  "field_paths True [demo_field] = Inr ([(demo_field, ''msg->data[1]'')], [(''msg->data'', 2)])"
  by (simp add: field_paths_def path_step_def demo_field_def demo_path merge_vector_requirements_def
      req_max_def req_of_def)

lemma size_checks_exact_witness: "accessed True [demo_field] ''msg->data'' 1"
proof -
  have "(''msg->data'', 2) \<in> set (sorted_requirements [(''msg->data'', 2)])"
    by (simp add: sorted_requirements_def)
  with size_checks_exact [OF demo_field_paths, of "''msg->data''" 2] show ?thesis by auto
qed

text \<open>
  C25: the checks come in a safe order: when a path indexes through an inner container, the
  check of the outer one stands before the check of the inner one, so no check itself
  evaluates an index that has not been checked.
\<close>

theorem size_checks_ordered:
  assumes "field_paths b flds = Inr (es, reqs)" and "f \<in> set flds"
    and "py_item f ''ros'' = Inr (PStr p)" and "path_accesses p ''msg'' b = as @ (c', i') # bs"
    and "(c, i) \<in> set as" and "sorted_requirements reqs = xs @ (c', n) # ys"
  shows "\<exists>m. (c, m) \<in> set xs \<and> i < m"
  by (rule requirement_before [OF assms])

definition nested_field :: pyval where
  "nested_field = PDict [(K ''ros'', PStr ''a[1].b[2]'')]"

lemma nested_paths:
  "field_paths True [nested_field]
     = Inr ([(nested_field, ''msg->a[1].b[2]'')], [(''msg->a'', 2), (''msg->a[1].b'', 3)])"
  by (simp add: field_paths_def path_step_def nested_field_def analyze_ros_path_def segment_groups_def
      segment_re_def digits_re_def char_defs separator_def req_max_def req_of_def digits_val_def
      merge_vector_requirements_def)

lemma nested_accesses: "path_accesses ''a[1].b[2]'' ''msg'' True = [(''msg->a'', 1)] @ (''msg->a[1].b'', 2) # []"
  by (simp add: path_accesses_def char_defs separator_def digits_val_def)

lemma nested_order: "sorted_requirements [(''msg->a'', 2), (''msg->a[1].b'', 3)] = [(''msg->a'', 2)] @ (''msg->a[1].b'', 3) # []"
  by (simp add: sorted_requirements_def list_less_def list_le_def)

lemma size_checks_ordered_witness: "\<exists>m. (''msg->a'', m) \<in> set [(''msg->a'', 2 :: nat)] \<and> 1 < m"
  using size_checks_ordered [OF nested_paths _ _ nested_accesses _ nested_order, of nested_field "''msg->a''" 1]
  by (simp add: nested_field_def)




section \<open>Checksums\<close>

text \<open>
  C28: the table computed over unbounded integers is the 8-bit shift register of the CRC with
  polynomial 0x31, entry by entry, and the emitted table lookup is one step of it.
\<close>

theorem crc8_table_is_register:
  "length generate_crc8_table = 256 \<and> generate_crc8_table ! unat r = uint (crc8_word r) \<and>
   checksum_update CRC8 c b = crc8_word (c XOR b)"
  by (rule conjI [OF length_crc8_table conjI [OF crc8_table_nth crc8_update_word]])

text \<open>
  C29: for CRC8 and XOR8 a check byte is right exactly when the checksum over the data and the
  check byte together is zero.
\<close>

theorem checksum_residue:
  "(calculate_checksum CRC8 (data @ [c]) = 0 \<longleftrightarrow> c = calculate_checksum CRC8 data) \<and>
   (calculate_checksum XOR8 (data @ [c]) = 0 \<longleftrightarrow> c = calculate_checksum XOR8 data)"
  using residue [of CRC8 data c] residue [of XOR8 data c] by simp

section \<open>Messages, packages and the document\<close>

text \<open>
  C30: the merged message list is sorted by ID and holds every business message and every
  built-in message exactly once.
\<close>

theorem merge_sorted_permutation:
  assumes "py_get cd ''messages'' (PList []) = Inr (PList ms)" and "\<forall>m \<in> set ms. has_id m"
  shows "\<exists>out. merge_messages cd = Inr out \<and> sorted (map msg_id out) \<and>
    mset out = mset ms + mset SYSTEM_MESSAGES"
  using merge_messages_eq [OF assms] by (intro exI [of _ "sort_key msg_id (ms @ SYSTEM_MESSAGES)"]) simp

lemma merge_sorted_permutation_witness:
  "\<exists>out. merge_messages (PDict [(K ''messages'', PList [PDict [(K ''id'', PInt 9)], PDict [(K ''id'', PInt 2)]])])
     = Inr out \<and> sorted (map msg_id out) \<and> length out = 5"
proof -
  let ?ms = "[PDict [(K ''id'', PInt 9)], PDict [(K ''id'', PInt 2)]]"
  have "\<exists>out. merge_messages (PDict [(K ''messages'', PList ?ms)]) = Inr out \<and> sorted (map msg_id out) \<and>
      mset out = mset ?ms + mset SYSTEM_MESSAGES"
    by (rule merge_sorted_permutation) (simp_all add: dget_def has_id_def)
  then obtain out where o: "merge_messages (PDict [(K ''messages'', PList ?ms)]) = Inr out"
    "sorted (map msg_id out)" "mset out = mset ?ms + mset SYSTEM_MESSAGES" by blast
  from o(3) have "length out = 5" by (simp add: SYSTEM_MESSAGES_def flip: size_mset)
  with o show ?thesis by blast
qed

text \<open>
  C31: \<open>--print-ros-packages\<close> changes no file and prints, sorted and without repetition,
  exactly the packages of the ROS types the messages name.
\<close>

theorem print_packages:
  assumes "main ld dp a fs = Inr r" and "print_ros_packages a"
    and "read_text fs (protocol_yaml a) = Some text" and "ld text = Inr v" and "validate_protocol v = Inr v'"
    and "py_get v' ''messages'' (PList []) = Inr (PList ms)"
  shows "files r = fs \<and> (\<exists>ps. printed r = join ''\<newline>'' ps @ ''\<newline>'' \<and> sorted ps \<and> distinct ps \<and>
    set ps = {takeWhile (\<lambda>c. c \<noteq> CHR ''/'') t | t. \<exists>d. PDict d \<in> set ms \<and> dget d ''ros_msg'' PNone = PStr t})"
proof -
  let ?ps = "sorted_list_of_set (set (concat (map ros_package ms)))"
  have "ros_message_packages v' = Inr ?ps" using assms(6) by (simp add: ros_message_packages_def)
  with assms(1-5) have r: "r = \<lparr>files = fs, printed = join ''\<newline>'' ?ps @ ''\<newline>''\<rparr>"
    by (simp add: main_def)
  have mem: "x \<in> set (ros_package m) \<longleftrightarrow>
      (\<exists>d t. m = PDict d \<and> dget d ''ros_msg'' PNone = PStr t \<and> x = takeWhile (\<lambda>c. c \<noteq> CHR ''/'') t)" for x m
  proof (cases m)
    case (PDict d)
    then show ?thesis by (cases "dget d ''ros_msg'' PNone") (simp_all add: ros_package_def)
  qed (simp_all add: ros_package_def)
  have "set ?ps = {takeWhile (\<lambda>c. c \<noteq> CHR ''/'') t | t.
      \<exists>d. PDict d \<in> set ms \<and> dget d ''ros_msg'' PNone = PStr t}"
    by (auto simp: mem) (use mem in blast)
  moreover have "sorted ?ps" "distinct ?ps" by simp_all
  moreover have "files r = fs" "printed r = join ''\<newline>'' ?ps @ ''\<newline>''" unfolding r by simp_all
  ultimately show ?thesis by blast
qed

lemma print_packages_witness:
  "\<exists>ps. main (\<lambda>_. Inr demo_config) (\<lambda>_. []) \<lparr>protocol_yaml = ''p'', output_dir = None, print_ros_packages = True\<rparr>
     ((\<lambda>_. None)(''p'' \<mapsto> [])) = Inr \<lparr>files = (\<lambda>_. None)(''p'' \<mapsto> []), printed = join ''\<newline>'' ps @ ''\<newline>''\<rparr> \<and>
     set ps = {''std_msgs''}"
proof -
  let ?a = "\<lparr>protocol_yaml = ''p'', output_dir = None, print_ros_packages = True\<rparr>"
    and ?fs = "(\<lambda>_. None)(''p'' \<mapsto> [])" and ?ms = "[PDict (demo_items' (PInt 1))]"
  have ms: "py_get demo_result ''messages'' (PList []) = Inr (PList ?ms)"
    by (simp add: demo_result_def demo_with_def dget_def)
  obtain r where r: "main (\<lambda>_. Inr demo_config) (\<lambda>_. []) ?a ?fs = Inr r"
    using demo_validate ms by (auto simp: main_def read_text_def ros_message_packages_def)
  from print_packages [OF r _ _ _ demo_validate ms] obtain ps where
    "files r = ?fs" "printed r = join ''\<newline>'' ps @ ''\<newline>''"
    "set ps = {takeWhile (\<lambda>c. c \<noteq> CHR ''/'') t | t. \<exists>d. PDict d \<in> set ?ms \<and> dget d ''ros_msg'' PNone = PStr t}"
    by (auto simp: read_text_def)
  moreover have "{takeWhile (\<lambda>c. c \<noteq> CHR ''/'') t | t. \<exists>d. PDict d \<in> set ?ms \<and> dget d ''ros_msg'' PNone = PStr t}
      = {''std_msgs''}"
    by (auto simp: dget_def)
  ultimately show ?thesis using r by (intro exI [of _ ps]) (cases r, simp)
qed

text \<open>
  C32: the field table of the protocol document agrees with the code: its offsets follow each
  other without gaps from 0, and the offset after the last field is the payload size.
\<close>

theorem document_table_agrees:
  assumes "py_item m ''fields'' = Inr (PList flds)" and "table_rows tm flds = Inr (rows, n)"
  shows "message_payload_size m tm = Inr n \<and> contiguous 0 rows n"
  by (rule table_rows_payload [OF assms])

lemma document_table_agrees_witness:
  "\<exists>rows. table_rows (PDict []) [PDict [(K ''proto'', PStr ''count''), (K ''type'', PStr ''uint32_t'')]] = Inr (rows, 4) \<and>
     contiguous 0 rows 4"
proof -
  have f: "py_item msg_Heartbeat ''fields''
      = Inr (PList [PDict [(K ''proto'', PStr ''count''), (K ''type'', PStr ''uint32_t'')]])"
    by (simp add: msg_Heartbeat_def)
  obtain rows where r: "table_rows (PDict []) [PDict [(K ''proto'', PStr ''count''), (K ''type'', PStr ''uint32_t'')]] = Inr (rows, 4)"
    by (simp add: table_rows_def field_row_def get_c_type_def c_type_size_def C_TYPE_SIZES_def item_str_def)
  with document_table_agrees [OF f r] show ?thesis by blast
qed



section \<open>Build and launch\<close>



text \<open>
  C35: the build matrix runs the algorithms in order and stops after the first failure: all
  results but the last are passes, and when all pass, all four algorithms were built and tested.
\<close>

theorem matrix_covers:
  assumes "run_checksum_build_matrix run ld dp repo tmp fs = Inr (rs, fs')"
  shows "map algorithm rs = take (length rs) [''NONE'', ''SUM8'', ''XOR8'', ''CRC8''] \<and>
    list_all passed (butlast rs) \<and>
    (list_all passed rs \<longrightarrow> map algorithm rs = [''NONE'', ''SUM8'', ''XOR8'', ''CRC8''])"
proof -
  from assms obtain base fs2 where "matrix_loop run dp tmp base SUPPORTED_ALGOS
      (copy_source_tree repo (matrix_root tmp) fs) = Inr (rs, fs2)" by (rule matrix_loop_of_run)
  note ok = matrix_loop_ok [OF this]
  show ?thesis
    using matrix_ok_prefix [OF ok] matrix_ok_all [OF ok] by (simp add: SUPPORTED_ALGOS_def)
qed

definition green :: runner where
  "green cmd cwd fs = (\<lparr>returncode = 0, stdout = [], stderr = []\<rparr>, fs)"

definition green_fs :: fs where
  "green_fs = (\<lambda>_. None)(protocol_path ''r'' \<mapsto> [])"

lemma green_text: "read_text green_fs (protocol_path ''r'') = Some []"
  by (simp add: green_fs_def read_text_def)

lemma matrix_covers_witness:
  "\<exists>rs fs'. run_checksum_build_matrix green (\<lambda>_. Inr demo_result) (\<lambda>_. []) ''r'' ''t'' green_fs = Inr (rs, fs') \<and>
    list_all passed (butlast rs)"
proof -
  obtain rs fs1 fs2 where r: "run_checksum_build_matrix green (\<lambda>_. Inr demo_result) (\<lambda>_. []) ''r'' ''t'' green_fs
      = Inr (rs, fs1)"
    by (rule matrix_run [where ld = "\<lambda>_. Inr demo_result", OF green_text refl demo_protocol_ok])
  with matrix_covers [OF r] show ?thesis by blast
qed



text \<open>
  C37: the matrix leaves the developer's files alone: if the tools it runs write below the
  temporary directory only, and that was new, the file system is the same after the run.
\<close>

theorem matrix_isolated:
  assumes "confined tmp run" and "\<forall>p. under tmp p \<longrightarrow> fs p = None"
    and "run_checksum_build_matrix run ld dp repo tmp fs = Inr (rs, fs')"
  shows "fs' = fs"
proof
  fix p
  from assms(3) obtain base fs2 where
    loop: "matrix_loop run dp tmp base SUPPORTED_ALGOS (copy_source_tree repo (matrix_root tmp) fs) = Inr (rs, fs2)"
    and fs': "fs' = (\<lambda>p. if under tmp p then None else fs2 p)" by (rule matrix_loop_of_run)
  show "fs' p = fs p"
  proof (cases "under tmp p")
    case False
    then have "\<not> under (matrix_root tmp) p" using under_trans [OF matrix_root_under(1)] by blast
    with matrix_loop_confined [OF assms(1) False loop] False fs' show ?thesis by (simp add: copy_other)
  qed (simp add: fs' assms(2))
qed

lemma matrix_isolated_witness:
  "\<exists>rs. run_checksum_build_matrix green (\<lambda>_. Inr demo_result) (\<lambda>_. []) ''r'' ''t'' green_fs = Inr (rs, green_fs)"
proof -
  obtain rs fs1 fs2 where r: "run_checksum_build_matrix green (\<lambda>_. Inr demo_result) (\<lambda>_. []) ''r'' ''t'' green_fs
      = Inr (rs, fs1)"
    by (rule matrix_run [where ld = "\<lambda>_. Inr demo_result", OF green_text refl demo_protocol_ok])
  have "confined ''t'' green" by (simp add: confined_def green_def)
  moreover have "\<forall>p. under ''t'' p \<longrightarrow> green_fs p = None"
    by (auto simp: green_fs_def under_iff protocol_path_def slash_def)
  ultimately have "fs1 = green_fs" using matrix_isolated [OF _ _ r] by blast
  with r show ?thesis by blast
qed

section \<open>The source scan\<close>

text \<open>
  C38: the release scan fails exactly when some file outside the ignored directories holds one
  of the seven private terms, and its message lists exactly these files, in listing order.
\<close>

theorem scan_verdict:
  fixes root tree
  defines "bad \<equiv> filter (\<lambda>path. is_file path \<and>
    set (root @ rel_parts path) \<inter> {''.git'', ''.pytest_cache'', ''__pycache__''} = {} \<and>
    (\<exists>t \<in> {''WeaponDock'', ''MerlinPick'', ''GridPlace'', ''GridAttack'', ''GenericStatus'',
        ''/task/'', ''/dev/stm32''}. \<exists>a b. content path = a @ t @ b)) tree"
  shows "scan_main root tree = Inr (if bad = [] then Clean
    else Exit (''Forbidden private terms found:\<newline>'' @
      join ''\<newline>'' (map (\<lambda>path. ''  - '' @ join ''/'' (rel_parts path)) bad)))"
proof -
  have "bad = filter (leaks root) tree"
    unfolding bad_def leaks_def [abs_def] by (simp add: FORBIDDEN_def IGNORED_PARTS_def)
  then show ?thesis by (simp add: scan_violations)
qed

lemma scan_verdict_witness:
  "scan_main [''/'', ''ws''] [\<lparr>rel_parts = [''.git'', ''a''], is_file = True, content = ''/task/''\<rparr>] = Inr Clean"
  using scan_verdict [of "[''/'', ''ws'']" "[\<lparr>rel_parts = [''.git'', ''a''], is_file = True, content = ''/task/''\<rparr>]"]
  by simp

text \<open>
  C39: the scan tests the parts of the absolute path. In a checkout below a directory named
  like an ignored one, for instance a worktree kept under \<open>.git\<close>, it finds nothing at all.
\<close>

theorem scan_blind_below_ignored:
  assumes "set root \<inter> {''.git'', ''.pytest_cache'', ''__pycache__''} \<noteq> {}"
  shows "scan_main root tree = Inr Clean"
proof -
  have "\<not> leaks root path" for path using assms by (auto simp: leaks_def IGNORED_PARTS_def)
  then show ?thesis by (simp add: scan_violations)
qed

lemma scan_blind_below_ignored_witness:
  "scan_main [''/'', ''ws'', ''.git'', ''wt''] [\<lparr>rel_parts = [''a.c''], is_file = True, content = ''/task/''\<rparr>] = Inr Clean"
  by (rule scan_blind_below_ignored) simp

end
